(* ===== verification/Prelude.thy ===== *)
theory Prelude
  imports
    Main
    "HOL-Library.AList"
    "HOL-Library.Multiset"
    "HOL-Library.Sublist"
    "HOL-Library.Word"
begin

text \<open>
  Shared vocabulary of the development: Go maps as association lists together with the
  \<open>for k, v := range m\<close> loop, byte strings with a prefix, finite runs of a step relation,
  and the locale that turns a preserved predicate into a fact about every reachable state.
  Nothing here maps to a line of the repository; the component theories build on it.
\<close>

named_theorems go_maps "facts on Go maps, usable as simp rules"
named_theorems step_inv "preservation facts of the step relations"

section \<open>Go maps\<close>

text \<open>
  A Go map is an association list. Its order is one iteration order the runtime may choose
  (Go leaves the order unspecified), so a statement about a loop holds for every order as
  soon as it holds for every list. A list stands for a map only if its keys are distinct.
\<close>

type_synonym ('k, 'v) gomap = "('k \<times> 'v) list"

definition wf_map :: "('k, 'v) gomap \<Rightarrow> bool" where
  "wf_map m \<longleftrightarrow> distinct (map fst m)"

definition same_map :: "('k, 'v) gomap \<Rightarrow> ('k, 'v) gomap \<Rightarrow> bool" where
  "same_map m n \<longleftrightarrow> map_of m = map_of n"

text \<open>
  \<open>for k, v := range m { if (k', v') := f(k, v) { out[k'] = v' } }\<close>: every map-building loop
  of the repository has this shape, with \<open>f\<close> the loop body and \<open>None\<close> for an entry it skips.
\<close>

fun range_into :: "('k \<Rightarrow> 'v \<Rightarrow> ('l \<times> 'u) option) \<Rightarrow> ('k, 'v) gomap \<Rightarrow> ('l, 'u) gomap \<Rightarrow> ('l, 'u) gomap"
where
  "range_into f [] out = out"
| "range_into f ((k, v) # m) out =
     range_into f m (case f k v of None \<Rightarrow> out | Some (k', v') \<Rightarrow> AList.update k' v' out)"

text \<open>The loop body never sends two different keys of the map to the same key.\<close>

definition key_inj :: "('k \<Rightarrow> 'v \<Rightarrow> ('l \<times> 'u) option) \<Rightarrow> bool" where
  "key_inj f \<longleftrightarrow> (\<forall>k v k' v' l u u'. f k v = Some (l, u) \<longrightarrow> f k' v' = Some (l, u') \<longrightarrow> k = k')"

lemma wf_map_Nil [simp, intro]: "wf_map []"
  by (simp add: wf_map_def)

lemma wf_map_Cons [simp]: "wf_map ((k, v) # m) \<longleftrightarrow> k \<notin> fst ` set m \<and> wf_map m"
  by (auto simp: wf_map_def)

lemma wf_map_update [simp, intro]: "wf_map m \<Longrightarrow> wf_map (AList.update k v m)"
  by (simp add: wf_map_def distinct_update)

lemma map_of_update [go_maps]: "map_of (AList.update k v m) = (map_of m)(k \<mapsto> v)"
  by (simp add: update_conv')

lemma wf_map_of_in: "wf_map m \<Longrightarrow> map_of m k = Some v \<longleftrightarrow> (k, v) \<in> set m"
  by (simp add: wf_map_def)

lemma map_of_snoc: "k \<notin> fst ` set m \<Longrightarrow> map_of (m @ [(k, v)]) = (map_of m)(k \<mapsto> v)"
  by (induction m) (auto simp: fun_upd_twist)

lemma same_map_refl [simp, intro]: "same_map m m"
  by (simp add: same_map_def)

lemma wf_map_dom: "dom (map_of m) = fst ` set m"
  by (simp add: dom_map_of_conv_image_fst)

lemma wf_map_card: "wf_map m \<Longrightarrow> length m = card (dom (map_of m))"
  by (metis wf_map_def wf_map_dom distinct_card length_map list.set_map)

lemma same_map_length: "wf_map m \<Longrightarrow> wf_map n \<Longrightarrow> same_map m n \<Longrightarrow> length m = length n"
  by (simp add: wf_map_card same_map_def)

lemma wf_map_range_into [simp, intro]: "wf_map out \<Longrightarrow> wf_map (range_into f m out)"
  by (induction f m out rule: range_into.induct) (auto split: option.splits)

text \<open>What the loop leaves under a key that no entry of \<open>m\<close> writes.\<close>

lemma range_into_other:
  assumes "\<forall>(k, v) \<in> set m. \<forall>u. f k v \<noteq> Some (l, u)"
  shows "map_of (range_into f m out) l = map_of out l"
  using assms
proof (induction f m out rule: range_into.induct)
  case (2 f k v m out)
  then show ?case by (cases "f k v") (auto simp: go_maps)
qed simp

text \<open>
  The characteristic fact of the loop: with an injective body it inserts exactly the images
  of the entries of \<open>m\<close>, whatever the iteration order.
\<close>

lemma range_into_hit:
  assumes "key_inj f" "wf_map m" "(k, v) \<in> set m" "f k v = Some (l, u)"
  shows "map_of (range_into f m out) l = Some u"
  using assms
proof (induction f m out rule: range_into.induct)
  case (2 f k0 v0 m out)
  show ?case
  proof (cases "(k, v) = (k0, v0)")
    case True
    have "\<forall>(k', v') \<in> set m. \<forall>u'. f k' v' \<noteq> Some (l, u')"
    proof safe
      fix k' v' u' assume in_m: "(k', v') \<in> set m" and hit: "f k' v' = Some (l, u')"
      from hit "2.prems"(1,4) have "k' = k" unfolding key_inj_def by metis
      with in_m True "2.prems"(2) show False by force
    qed
    then show ?thesis using True "2.prems"(4) by (simp add: range_into_other go_maps)
  next
    case False
    with "2.prems" have "(k, v) \<in> set m" by auto
    with "2.prems" show ?thesis by (simp add: "2.IH")
  qed
qed simp

lemma range_into_iff:
  assumes "key_inj f" "wf_map m"
  shows "map_of (range_into f m []) l = Some u \<longleftrightarrow>
    (\<exists>k v. map_of m k = Some v \<and> f k v = Some (l, u))"
proof
  assume lhs: "map_of (range_into f m []) l = Some u"
  have "\<exists>(k, v) \<in> set m. \<exists>u. f k v = Some (l, u)"
  proof (rule ccontr)
    assume none: "\<not> (\<exists>(k, v) \<in> set m. \<exists>u. f k v = Some (l, u))"
    have "map_of (range_into f m []) l = map_of [] l"
      by (rule range_into_other) (use none in auto)
    with lhs show False by simp
  qed
  then obtain k v u' where kv: "(k, v) \<in> set m" "f k v = Some (l, u')" by auto
  with range_into_hit [OF assms] lhs have "u' = u" by fastforce
  with kv assms(2) show "\<exists>k v. map_of m k = Some v \<and> f k v = Some (l, u)"
    by (auto simp: wf_map_of_in)
next
  assume "\<exists>k v. map_of m k = Some v \<and> f k v = Some (l, u)"
  with assms show "map_of (range_into f m []) l = Some u"
    by (auto dest: map_of_SomeD intro: range_into_hit)
qed

lemma range_into_same_map:
  assumes "key_inj f" "wf_map m" "wf_map n" "same_map m n"
  shows "same_map (range_into f m []) (range_into f n [])"
  unfolding same_map_def
proof
  fix l
  have "\<And>u. map_of (range_into f m []) l = Some u \<longleftrightarrow> map_of (range_into f n []) l = Some u"
    using assms by (simp add: range_into_iff same_map_def)
  then show "map_of (range_into f m []) l = map_of (range_into f n []) l"
    by (metis option.exhaust)
qed

text \<open>\<open>for k, v := range m { out[k] = v }\<close>: the copying loop is map override.\<close>

lemma range_into_copy:
  "wf_map m \<Longrightarrow> map_of (range_into (\<lambda>k v. Some (k, v)) m out) = map_of out ++ map_of m"
proof (induction m arbitrary: out)
  case (Cons e m)
  obtain k v where e: "e = (k, v)" by (cases e)
  with Cons.prems have "k \<notin> dom (map_of m)" by (simp add: dom_map_of_conv_image_fst)
  with Cons e show ?case by (auto simp: go_maps map_add_def fun_eq_iff split: option.splits)
qed simp

lemma option_eqI: "(\<And>v. a = Some v \<longleftrightarrow> b = Some v) \<Longrightarrow> a = b"
  by (metis option.exhaust)

section \<open>Strings\<close>

text \<open>A Go string is a sequence of bytes, here \<open>string\<close> (a character is one byte).\<close>

definition HasPrefix :: "string \<Rightarrow> string \<Rightarrow> bool" where
  "HasPrefix s p \<longleftrightarrow> take (length p) s = p"

definition TrimPrefix :: "string \<Rightarrow> string \<Rightarrow> string" where
  "TrimPrefix s p = (if HasPrefix s p then drop (length p) s else s)"

definition Contains :: "string \<Rightarrow> string \<Rightarrow> bool" where
  "Contains s t \<longleftrightarrow> list_ex (\<lambda>i. HasPrefix (drop i s) t) [0..<Suc (length s)]"

lemma HasPrefix_append [simp]: "HasPrefix (p @ s) p"
  by (simp add: HasPrefix_def)

lemma TrimPrefix_append [simp]: "TrimPrefix (p @ s) p = s"
  by (simp add: TrimPrefix_def)

lemma HasPrefix_split: "HasPrefix s p \<Longrightarrow> s = p @ TrimPrefix s p"
  by (metis HasPrefix_def TrimPrefix_def append_take_drop_id)

lemma HasPrefix_iff: "HasPrefix s p \<longleftrightarrow> (\<exists>t. s = p @ t)"
  by (metis HasPrefix_append HasPrefix_split)

lemma TrimPrefix_inj: "HasPrefix s p \<Longrightarrow> HasPrefix t p \<Longrightarrow> TrimPrefix s p = TrimPrefix t p \<Longrightarrow> s = t"
  by (metis HasPrefix_split)

section \<open>Runs of a step relation\<close>

inductive steps :: "('s \<Rightarrow> 's \<Rightarrow> bool) \<Rightarrow> 's \<Rightarrow> 's \<Rightarrow> bool" for step where
  steps_refl: "steps step s s"
| steps_step: "steps step s t \<Longrightarrow> step t u \<Longrightarrow> steps step s u"

lemma steps_single: "step s t \<Longrightarrow> steps step s t"
  by (blast intro: steps.intros)

lemma steps_trans: "steps step s t \<Longrightarrow> steps step t u \<Longrightarrow> steps step s u"
  by (rotate_tac, induction rule: steps.induct) (blast intro: steps.intros)+

text \<open>What a run leaves fixed is the same in every state it can reach.\<close>

lemma setcompr_singleton: "(\<And>t. R t \<Longrightarrow> f t = c) \<Longrightarrow> R s \<Longrightarrow> {f t |t. R t} = {c}"
  by (rule equalityI; blast)

text \<open>
  The interface of every concurrent component: an initial state, a step relation and a
  predicate that every step keeps. The client's lemma is that the predicate holds in every
  state a run reaches.
\<close>

locale invariant_system =
  fixes init :: "'s \<Rightarrow> bool"
    and step :: "'s \<Rightarrow> 's \<Rightarrow> bool"
    and inv :: "'s \<Rightarrow> bool"
  assumes init_inv: "init s \<Longrightarrow> inv s"
    and step_keeps: "inv s \<Longrightarrow> step s t \<Longrightarrow> inv t"
begin

lemma steps_keep: "steps step s t \<Longrightarrow> inv s \<Longrightarrow> inv t"
  by (induction rule: steps.induct) (blast intro: step_keeps)+

lemma reachable: "init s \<Longrightarrow> steps step s t \<Longrightarrow> inv t"
  by (blast intro: init_inv steps_keep)

end

section \<open>Keyed stores\<close>

text \<open>
  The contract of a component that keeps one entry per key: reading a key gives what was stored
  last under it, and storing under one key leaves the others alone. The client's lemma says what a
  sequence of stores leaves.
\<close>

locale keyed_store =
  fixes get :: "'s \<Rightarrow> 'k \<Rightarrow> 'v option"
    and put :: "'k \<Rightarrow> 'v \<Rightarrow> 's \<Rightarrow> 's"
    and inv :: "'s \<Rightarrow> bool"
  assumes get_put_same: "inv s \<Longrightarrow> get (put k v s) k = Some v"
    and get_put_other: "inv s \<Longrightarrow> l \<noteq> k \<Longrightarrow> get (put k v s) l = get s l"
    and put_keeps: "inv s \<Longrightarrow> inv (put k v s)"
begin

lemma puts_keep: "inv s \<Longrightarrow> inv (fold (\<lambda>(k, v). put k v) kvs s)"
  by (induction kvs arbitrary: s) (auto intro: put_keeps)

lemma get_puts:
  "inv s \<Longrightarrow> get (fold (\<lambda>(k, v). put k v) kvs s) l =
     (case map_of (rev kvs) l of None \<Rightarrow> get s l | Some v \<Rightarrow> Some v)"
proof (induction kvs arbitrary: s)
  case (Cons kv kvs)
  obtain k v where kv: "kv = (k, v)" by (cases kv)
  have "inv (put k v s)" using Cons.prems by (rule put_keeps)
  with Cons kv show ?case
    by (cases "l = k") (auto simp: map_of_append map_add_def get_put_same get_put_other
        split: option.splits)
qed simp

end

section \<open>Counting live goroutines\<close>

text \<open>A list holds what the live goroutines are doing; one of them moves, ends or appears.\<close>

definition tally :: "('a \<Rightarrow> bool) \<Rightarrow> 'a list \<Rightarrow> nat" where
  "tally P xs = length (filter P xs)"

definition remove_at :: "nat \<Rightarrow> 'a list \<Rightarrow> 'a list" where
  "remove_at i xs = take i xs @ drop (Suc i) xs"

lemma tally_simps [simp]:
  "tally P [] = 0" "tally P (x # xs) = (if P x then Suc (tally P xs) else tally P xs)"
  "tally P (xs @ ys) = tally P xs + tally P ys"
  by (simp_all add: tally_def)

lemma tally_at: "i < length xs \<Longrightarrow> tally P xs = tally P (remove_at i xs) + (if P (xs ! i) then 1 else 0)"
  by (subst (1) id_take_nth_drop [of i xs]) (simp_all add: remove_at_def)

lemma tally_update:
  "i < length xs \<Longrightarrow> tally P (xs[i := y]) = tally P (remove_at i xs) + (if P y then 1 else 0)"
  by (simp add: upd_conv_take_nth_drop remove_at_def)

lemma tally_map [simp]: "tally P (map f xs) = tally (\<lambda>x. P (f x)) xs"
  by (simp add: tally_def filter_map o_def)

lemma tally_le: "tally P xs \<le> length xs"
  by (simp add: tally_def)

lemma tally_none: "tally P xs = 0 \<longleftrightarrow> (\<forall>x \<in> set xs. \<not> P x)"
  by (simp add: tally_def filter_empty_conv)

lemma tally_mono: "(\<And>x. P x \<Longrightarrow> Q x) \<Longrightarrow> tally P xs \<le> tally Q xs"
  by (induction xs) auto

lemma map_remove_at: "map f (remove_at i xs) = remove_at i (map f xs)"
  by (simp add: remove_at_def take_map drop_map)

lemma set_remove_at: "set (remove_at i xs) \<subseteq> set xs"
  by (auto simp: remove_at_def dest: in_set_takeD in_set_dropD)

lemma remove_at_append: "i < length xs \<Longrightarrow> remove_at i (xs @ ys) = remove_at i xs @ ys"
  by (simp add: remove_at_def)

lemma remove_at_last [simp]: "remove_at (length xs) (xs @ [y]) = xs"
  by (simp add: remove_at_def)

lemma mset_remove_at: "i < length xs \<Longrightarrow> mset xs = add_mset (xs ! i) (mset (remove_at i xs))"
  by (subst (1) id_take_nth_drop [of i xs]) (simp_all add: remove_at_def)

lemma mset_update_at: "i < length xs \<Longrightarrow> mset (xs[i := y]) = add_mset y (mset (remove_at i xs))"
  by (simp add: upd_conv_take_nth_drop remove_at_def)


text \<open>The work a list of goroutines has left, from the work of each.\<close>

definition work :: "('a \<Rightarrow> nat) \<Rightarrow> 'a list \<Rightarrow> nat" where
  "work f xs = sum_list (map f xs)"

lemma work_simps [simp]:
  "work f [] = 0" "work f (x # xs) = f x + work f xs" "work f (xs @ ys) = work f xs + work f ys"
  by (simp_all add: work_def)

lemma work_at: "i < length xs \<Longrightarrow> work f xs = f (xs ! i) + work f (remove_at i xs)"
  by (subst (1) id_take_nth_drop [of i xs]) (simp_all add: remove_at_def)

lemma work_update: "i < length xs \<Longrightarrow> work f (xs[i := y]) = f y + work f (remove_at i xs)"
  by (simp add: upd_conv_take_nth_drop remove_at_def)

end
