(* ===== verification/Go_Values.thy ===== *)
theory Go_Values
  imports Prelude
begin

unbundle bit_operations_syntax

text \<open>
  The Go values the repository handles through \<open>any\<close>: metadata values, payloads, header
  values and context keys. A value carries its dynamic type. Maps with interface values are
  references into a heap of maps (they are shared and mutated); byte slices and structs are
  values. The byte slices of the model are never nil. An \<open>error\<close> is a value of \<open>gerr\<close>, and a
  function that may panic returns a \<open>res\<close>.
\<close>

section \<open>Values, types, errors\<close>

type_synonym addr = nat

datatype gval =
    VNil
  | VBool bool
  | VInt "64 word"
  | VInt64 "64 word"
  | VFloat64 "64 word" \<comment> \<open>the IEEE 754 bits\<close>
  | VString string
  | VBytes string
  | VMap addr \<comment> \<open>\<open>map[string]interface{}\<close>\<close>
  | VNilMap \<comment> \<open>a nil \<open>map[string]interface{}\<close>\<close>
  | VStruct string "gval list" \<comment> \<open>type name and fields\<close>

datatype gtype = TBool | TInt | TInt64 | TFloat64 | TString | TBytes | TMap | TStruct string
  | TAny \<comment> \<open>the interface type \<open>any\<close>\<close>

fun dyn_type :: "gval \<Rightarrow> gtype option" where
  "dyn_type VNil = None"
| "dyn_type (VBool _) = Some TBool"
| "dyn_type (VInt _) = Some TInt"
| "dyn_type (VInt64 _) = Some TInt64"
| "dyn_type (VFloat64 _) = Some TFloat64"
| "dyn_type (VString _) = Some TString"
| "dyn_type (VBytes _) = Some TBytes"
| "dyn_type (VMap _) = Some TMap"
| "dyn_type VNilMap = Some TMap"
| "dyn_type (VStruct n _) = Some (TStruct n)"

text \<open>\<open>_, ok := v.(T)\<close>: a concrete type must be the dynamic type, \<open>any\<close> needs a non-nil value.\<close>

definition type_assert :: "gtype \<Rightarrow> gval \<Rightarrow> bool" where
  "type_assert T v \<longleftrightarrow> (if T = TAny then v \<noteq> VNil else dyn_type v = Some T)"

text \<open>\<open>reflect.Type.Name()\<close>: empty for an unnamed type (slices, maps, pointers).\<close>

fun type_name :: "gtype \<Rightarrow> string" where
  "type_name TBool = ''bool''"
| "type_name TInt = ''int''"
| "type_name TInt64 = ''int64''"
| "type_name TFloat64 = ''float64''"
| "type_name TString = ''string''"
| "type_name TBytes = ''''"
| "type_name TMap = ''''"
| "type_name (TStruct n) = n"
| "type_name TAny = ''''"

datatype gerr =
    ErrNew string \<comment> \<open>\<open>errors.New\<close> or \<open>fmt.Errorf\<close> without a wrapped error\<close>
  | ErrVar string \<comment> \<open>a package level sentinel, by its qualified name\<close>
  | ErrWrap string "gerr list" \<comment> \<open>\<open>fmt.Errorf\<close> with \<open>%w\<close>\<close>
  | ErrJoin "gerr list" \<comment> \<open>\<open>errors.Join\<close>\<close>
  | ErrRuntime string \<comment> \<open>a runtime error\<close>

fun errors_Is :: "gerr \<Rightarrow> gerr \<Rightarrow> bool" where
  "errors_Is (ErrWrap s es) t = (ErrWrap s es = t \<or> (\<exists>e \<in> set es. errors_Is e t))"
| "errors_Is (ErrJoin es) t = (ErrJoin es = t \<or> (\<exists>e \<in> set es. errors_Is e t))"
| "errors_Is e t = (e = t)"

text \<open>\<open>errors.Join\<close> of errors that are all non-nil: nil when there are none.\<close>

definition errors_Join :: "gerr list \<Rightarrow> gerr option" where
  "errors_Join es = (if es = [] then None else Some (ErrJoin es))"

datatype pval = PErr gerr | PVal gval

datatype 'a res = Ret 'a | Panic pval

lemma errors_Is_refl [simp, intro]: "errors_Is e e"
  by (cases e) auto

lemma errors_Is_Join: "errors_Join es = Some j \<Longrightarrow> e \<in> set es \<Longrightarrow> errors_Is j e"
  by (fastforce simp: errors_Join_def split: if_splits)

section \<open>Decimal integers\<close>

definition digit :: "nat \<Rightarrow> char" where
  "digit d = char_of (48 + d)"

fun show_nat :: "nat \<Rightarrow> string" where
  "show_nat n = (if n < 10 then [digit n] else show_nat (n div 10) @ [digit (n mod 10)])"

declare show_nat.simps [simp del]

definition show_int :: "int \<Rightarrow> string" where
  "show_int i = (if i < 0 then CHR ''-'' # show_nat (nat (- i)) else show_nat (nat i))"

definition is_digit :: "char \<Rightarrow> bool" where
  "is_digit c \<longleftrightarrow> 48 \<le> (of_char c :: nat) \<and> (of_char c :: nat) \<le> 57"

fun parse_digits :: "nat \<Rightarrow> string \<Rightarrow> nat option" where
  "parse_digits acc [] = Some acc"
| "parse_digits acc (c # s) =
     (if is_digit c then parse_digits (acc * 10 + (of_char c - 48)) s else None)"

definition parse_nat :: "string \<Rightarrow> nat option" where
  "parse_nat s = (if s = [] then None else parse_digits 0 s)"

lemma digit_is_digit: "d < 10 \<Longrightarrow> is_digit (digit d)"
  by (simp add: is_digit_def digit_def)

lemma of_char_digit: "d < 10 \<Longrightarrow> (of_char (digit d) :: nat) = 48 + d"
  by (simp add: digit_def)

lemma parse_digits_append:
  "parse_digits acc (s @ t) = (case parse_digits acc s of None \<Rightarrow> None | Some n \<Rightarrow> parse_digits n t)"
  by (induction acc s rule: parse_digits.induct) auto

lemma show_nat_nonempty [simp]: "show_nat n \<noteq> []"
  by (subst show_nat.simps) simp

lemma parse_digits_show_nat: "parse_digits 0 (show_nat n) = Some n"
proof (induction n rule: show_nat.induct)
  case (1 n)
  show ?case
  proof (cases "n < 10")
    case True
    then show ?thesis by (subst show_nat.simps) (simp add: digit_is_digit of_char_digit)
  next
    case False
    with 1 have "parse_digits 0 (show_nat (n div 10)) = Some (n div 10)" by simp
    with False show ?thesis
      by (subst show_nat.simps) (simp add: parse_digits_append digit_is_digit of_char_digit)
  qed
qed

lemma parse_nat_show_nat [simp]: "parse_nat (show_nat n) = Some n"
  by (simp add: parse_nat_def parse_digits_show_nat)

lemma show_nat_digits: "c \<in> set (show_nat n) \<Longrightarrow> is_digit c"
proof (induction n rule: show_nat.induct)
  case (1 n)
  then show ?case
    by (subst (asm) (2) show_nat.simps) (auto simp: digit_is_digit split: if_splits)
qed

section \<open>\<open>fmt.Sprintf("%v", v)\<close>\<close>

text \<open>
  The rendering of floats and of maps is left to the parameter \<open>fv\<close>: nothing the theorems say
  depends on it.
\<close>

fun join_with :: "string \<Rightarrow> string list \<Rightarrow> string" where
  "join_with sep [] = []"
| "join_with sep [s] = s"
| "join_with sep (s # t # ss) = s @ sep @ join_with sep (t # ss)"

fun sprint_v :: "(gval \<Rightarrow> string) \<Rightarrow> gval \<Rightarrow> string" where
  "sprint_v fv VNil = ''<nil>''"
| "sprint_v fv (VBool b) = (if b then ''true'' else ''false'')"
| "sprint_v fv (VInt w) = show_int (sint w)"
| "sprint_v fv (VInt64 w) = show_int (sint w)"
| "sprint_v fv (VString s) = s"
| "sprint_v fv (VBytes b) = ''['' @ join_with '' '' (map (\<lambda>c. show_nat (of_char c)) b) @ '']''"
| "sprint_v fv (VStruct n fs) = ''{'' @ join_with '' '' (map (sprint_v fv) fs) @ ''}''"
| "sprint_v fv (VFloat64 w) = fv (VFloat64 w)"
| "sprint_v fv (VMap a) = fv (VMap a)"
| "sprint_v fv VNilMap = ''map[]''"

section \<open>\<open>reflect.DeepEqual\<close>\<close>

definition f64_nan :: "64 word \<Rightarrow> bool" where
  "f64_nan w \<longleftrightarrow> 0x7FF0000000000000 < w AND 0x7FFFFFFFFFFFFFFF"

definition f64_eq :: "64 word \<Rightarrow> 64 word \<Rightarrow> bool" where
  "f64_eq v w \<longleftrightarrow> \<not> f64_nan v \<and> \<not> f64_nan w \<and>
     (v = w \<or> v AND 0x7FFFFFFFFFFFFFFF = 0 \<and> w AND 0x7FFFFFFFFFFFFFFF = 0)"

text \<open>
  \<open>vis\<close> holds the pairs of maps whose comparison is under way, which \<open>DeepEqual\<close> takes as equal:
  a cyclic map is compared in finitely many steps. Two references to one map are equal without
  looking inside.
\<close>

function deep_equal ::
  "(string, gval) gomap list \<Rightarrow> (addr \<times> addr) list \<Rightarrow> gval \<Rightarrow> gval \<Rightarrow> bool"
where
  "deep_equal h vis x y =
    (case (x, y) of
       (VMap a, VMap b) \<Rightarrow>
         if (a, b) \<in> set vis then True
         else if \<not> (a < length h \<and> b < length h) then a = b
         else if length (h ! a) \<noteq> length (h ! b) then False
         else if a = b then True
         else (\<forall>(k, v) \<in> set (h ! a).
                case map_of (h ! b) k of None \<Rightarrow> False
                | Some u \<Rightarrow> deep_equal h ((a, b) # vis) v u)
     | (VStruct n fs, VStruct m gs) \<Rightarrow>
         n = m \<and> length fs = length gs \<and> (\<forall>(f, g) \<in> set (zip fs gs). deep_equal h vis f g)
     | (VFloat64 v, VFloat64 w) \<Rightarrow> f64_eq v w
     | _ \<Rightarrow> x = y)"
  by pat_completeness auto
termination
proof (relation "measures
    [\<lambda>(h, vis, x, y). card (({..<length h} \<times> {..<length h}) - set vis), \<lambda>(h, vis, x, y). size x]",
    goal_cases)
  case (2 h vis x y xx yy a b e k v u)
  then have "(a, b) \<in> ({..<length h} \<times> {..<length h}) - set vis" by auto
  then have "card (({..<length h} \<times> {..<length h}) - set ((a, b) # vis)) <
      card (({..<length h} \<times> {..<length h}) - set vis)"
    by (intro psubset_card_mono) auto
  then show ?case by simp
next
  case (3 h vis x y xx yy n fs m gs e f g)
  then have "(f, g) \<in> set (zip fs gs)" "x = VStruct n fs" by auto
  then have "f \<in> set fs" by (auto dest: set_zip_leftD)
  then show ?case using \<open>x = VStruct n fs\<close> by (auto simp: less_Suc_eq_le size_list_estimation')
qed auto

declare deep_equal.simps [simp del]

text \<open>No float inside the value (outside its maps, which are compared by reference) is a NaN.\<close>

fun nan_free :: "gval \<Rightarrow> bool" where
  "nan_free (VFloat64 w) = (\<not> f64_nan w)"
| "nan_free (VStruct n fs) = (\<forall>f \<in> set fs. nan_free f)"
| "nan_free _ = True"

lemma deep_equal_refl: "nan_free x \<Longrightarrow> deep_equal h vis x x"
proof (induction x rule: nan_free.induct)
  case (2 n fs)
  then have "\<forall>f \<in> set fs. deep_equal h vis f f" by simp
  then show ?case by (subst deep_equal.simps) (auto simp: zip_same)
qed (subst deep_equal.simps, simp add: f64_eq_def)+

lemma deep_equal_not_refl: "f64_nan w \<Longrightarrow> \<not> deep_equal h vis (VFloat64 w) (VFloat64 w)"
  by (subst deep_equal.simps) (simp add: f64_eq_def)

end
