(* ===== verification/Go_Runtime.thy ===== *)
theory Go_Runtime
  imports Go_Values
begin

text \<open>
  What a running program shares: contexts, the clock, cancellation tokens, tickers, the heap of
  maps and the heap of messages. The rest of the program's surroundings (what handlers, brokers
  and user callbacks read and write) is the polymorphic field \<open>env\<close> of the world, so a theorem
  holds whatever they do to it. The message struct lives here because the heap stores it; its
  methods are in the theory \<open>Message\<close>.
\<close>

section \<open>Contexts\<close>

text \<open>
  A context is the chain of the calls that derived it. A token names one cancel function. Time is
  in nanoseconds.
\<close>

datatype ctx =
    Background
  | WithValue ctx gval gval
  | WithCancel ctx nat
  | WithDeadline ctx int nat
  | WithoutCancel ctx

fun ctx_Value :: "ctx \<Rightarrow> gval \<Rightarrow> gval" where
  "ctx_Value Background k = VNil"
| "ctx_Value (WithValue c k' v) k = (if k' = k then v else ctx_Value c k)"
| "ctx_Value (WithCancel c t) k = ctx_Value c k"
| "ctx_Value (WithDeadline c d t) k = ctx_Value c k"
| "ctx_Value (WithoutCancel c) k = ctx_Value c k"

text \<open>\<open>ctx.Err() != nil\<close>, from the time and the tokens cancelled so far.\<close>

fun ctx_done :: "int \<Rightarrow> nat list \<Rightarrow> ctx \<Rightarrow> bool" where
  "ctx_done t ts Background = False"
| "ctx_done t ts (WithValue c k v) = ctx_done t ts c"
| "ctx_done t ts (WithCancel c tok) = (tok \<in> set ts \<or> ctx_done t ts c)"
| "ctx_done t ts (WithDeadline c d tok) = (tok \<in> set ts \<or> d \<le> t \<or> ctx_done t ts c)"
| "ctx_done t ts (WithoutCancel c) = False"

fun ctx_Deadline :: "ctx \<Rightarrow> int option" where
  "ctx_Deadline Background = None"
| "ctx_Deadline (WithValue c k v) = ctx_Deadline c"
| "ctx_Deadline (WithCancel c t) = ctx_Deadline c"
| "ctx_Deadline (WithDeadline c d t) =
     (case ctx_Deadline c of None \<Rightarrow> Some d | Some d' \<Rightarrow> Some (min d d'))"
| "ctx_Deadline (WithoutCancel c) = None"

lemma ctx_done_mono: "ctx_done t ts c \<Longrightarrow> t \<le> t' \<Longrightarrow> set ts \<subseteq> set ts' \<Longrightarrow> ctx_done t' ts' c"
  by (induction c) auto

lemma ctx_deadline_done: "ctx_Deadline c = Some d \<Longrightarrow> d \<le> t \<Longrightarrow> ctx_done t ts c"
  by (induction c arbitrary: d) (auto split: option.splits simp: min_def split: if_splits)

section \<open>The world\<close>

text \<open>\<open>message.Message\<close>. \<open>Metadata\<close> is a map reference, \<open>None\<close> for the nil map.\<close>

record message =
  ID :: string
  Metadata :: "addr option"
  Payload :: gval
  msg_ctx :: ctx

text \<open>A \<open>time.Ticker\<close>: its period and the time of the first tick it has not delivered.\<close>

record ticker =
  period :: int
  next_tick :: int

record 'e world =
  heap_maps :: "(string, gval) gomap list"
  heap_msgs :: "message list"
  clock :: int
  tokens :: nat
  cancelled :: "nat list"
  tickers :: "ticker list"
  env :: 'e

type_synonym ('e, 'a) act = "'e world \<Rightarrow> 'a res \<times> 'e world"

text \<open>Sequencing: a panic skips the rest.\<close>

definition andThen :: "('e, 'a) act \<Rightarrow> ('a \<Rightarrow> ('e, 'b) act) \<Rightarrow> ('e, 'b) act" where
  "andThen m k w = (case m w of (Ret a, w') \<Rightarrow> k a w' | (Panic p, w') \<Rightarrow> (Panic p, w'))"

text \<open>\<open>defer f()\<close> of an \<open>f\<close> that cannot fail: it runs on a return and on a panic.\<close>

definition deferring :: "('e world \<Rightarrow> 'e world) \<Rightarrow> ('e, 'a) act \<Rightarrow> ('e, 'a) act" where
  "deferring f m w = (case m w of (r, w') \<Rightarrow> (r, f w'))"

text \<open>The same world around another environment.\<close>

definition with_env :: "'f \<Rightarrow> 'e world \<Rightarrow> 'f world" where
  "with_env f w = \<lparr>heap_maps = heap_maps w, heap_msgs = heap_msgs w, clock = clock w, tokens = tokens w,
     cancelled = cancelled w, tickers = tickers w, env = f\<rparr>"

definition get_msg :: "'e world \<Rightarrow> addr \<Rightarrow> message" where
  "get_msg w a = heap_msgs w ! a"

definition upd_msg :: "addr \<Rightarrow> (message \<Rightarrow> message) \<Rightarrow> 'e world \<Rightarrow> 'e world" where
  "upd_msg a f w = w\<lparr>heap_msgs := (heap_msgs w)[a := f (heap_msgs w ! a)]\<rparr>"

definition new_msg :: "message \<Rightarrow> 'e world \<Rightarrow> addr \<times> 'e world" where
  "new_msg m w = (length (heap_msgs w), w\<lparr>heap_msgs := heap_msgs w @ [m]\<rparr>)"

definition new_map :: "(string, gval) gomap \<Rightarrow> 'e world \<Rightarrow> addr \<times> 'e world" where
  "new_map m w = (length (heap_maps w), w\<lparr>heap_maps := heap_maps w @ [m]\<rparr>)"

text \<open>Reading a map through a reference; the nil map reads as the empty map.\<close>

definition read_map :: "'e world \<Rightarrow> addr option \<Rightarrow> (string, gval) gomap" where
  "read_map w r = (case r of None \<Rightarrow> [] | Some a \<Rightarrow> heap_maps w ! a)"

abbreviation meta_of :: "'e world \<Rightarrow> addr \<Rightarrow> (string, gval) gomap" where
  "meta_of w a \<equiv> read_map w (Metadata (get_msg w a))"

definition nil_map_panic :: pval where
  "nil_map_panic = PErr (ErrRuntime ''assignment to entry in nil map'')"

text \<open>\<open>m[k] = v\<close> through a reference: a write to the nil map panics.\<close>

definition map_assign :: "addr option \<Rightarrow> string \<Rightarrow> gval \<Rightarrow> ('e, unit) act" where
  "map_assign r k v w =
     (case r of
        None \<Rightarrow> (Panic nil_map_panic, w)
      | Some a \<Rightarrow> (Ret (), w\<lparr>heap_maps := (heap_maps w)[a := AList.update k v (heap_maps w ! a)]\<rparr>))"

abbreviation is_done :: "'e world \<Rightarrow> ctx \<Rightarrow> bool" where
  "is_done w c \<equiv> ctx_done (clock w) (cancelled w) c"

text \<open>\<open>context.WithTimeout\<close> and the cancel function it returns.\<close>

definition WithTimeout :: "ctx \<Rightarrow> int \<Rightarrow> 'e world \<Rightarrow> (ctx \<times> nat) \<times> 'e world" where
  "WithTimeout c d w = ((WithDeadline c (clock w + d) (tokens w), tokens w), w\<lparr>tokens := Suc (tokens w)\<rparr>)"

definition cancel :: "nat \<Rightarrow> 'e world \<Rightarrow> 'e world" where
  "cancel t w = w\<lparr>cancelled := t # cancelled w\<rparr>"

text \<open>\<open>time.NewTicker\<close>; the panic for an interval that is not positive.\<close>

definition NewTicker :: "int \<Rightarrow> ('e, nat) act" where
  "NewTicker d w =
     (if d \<le> 0 then (Panic (PVal (VString ''non-positive interval for NewTicker'')), w)
      else (Ret (length (tickers w)),
            w\<lparr>tickers := tickers w @ [\<lparr>period = d, next_tick = clock w + d\<rparr>]\<rparr>))"

text \<open>
  \<open><-ticker.C\<close>. The channel holds one tick: a tick that is due is taken at once and the ticks
  dropped while it waited are skipped; otherwise the receiver sleeps until the next tick.
\<close>

definition tick_recv :: "nat \<Rightarrow> 'e world \<Rightarrow> 'e world" where
  "tick_recv i w =
     (let t = tickers w ! i;
          now = max (clock w) (next_tick t);
          nxt = next_tick t + period t * ((now - next_tick t) div period t + 1)
      in w\<lparr>clock := now, tickers := (tickers w)[i := t\<lparr>next_tick := nxt\<rparr>]\<rparr>)"

lemma with_env_frame [simp]:
  "heap_maps (with_env f w) = heap_maps w" "heap_msgs (with_env f w) = heap_msgs w" "clock (with_env f w) = clock w"
  "env (with_env f w) = f" "get_msg (with_env f w) = get_msg w" "read_map (with_env f w) r = read_map w r"
  "with_env f (with_env g w) = with_env f w" "with_env (env w) w = w"
  by (simp_all add: with_env_def get_msg_def read_map_def fun_eq_iff split: option.split)

lemma with_env_same: "with_env g w = w\<lparr>env := g\<rparr>"
  by (cases w) (simp add: with_env_def)

lemma with_env_update [simp]: "with_env f (w\<lparr>env := g\<rparr>) = with_env f w"
  by (simp add: with_env_def)

section \<open>Well-formed worlds\<close>

text \<open>
  No reference dangles and every map of the heap has distinct keys. Go guarantees it; the model's
  operations keep it.
\<close>

definition wf_world :: "'e world \<Rightarrow> bool" where
  "wf_world w \<longleftrightarrow>
     (\<forall>m \<in> set (heap_maps w). wf_map m) \<and>
     (\<forall>m \<in> set (heap_msgs w). \<forall>a. Metadata m = Some a \<longrightarrow> a < length (heap_maps w)) \<and>
     (\<forall>t \<in> set (cancelled w). t < tokens w) \<and>
     (\<forall>t \<in> set (tickers w). 0 < period t)"

definition valid_msg :: "'e world \<Rightarrow> addr \<Rightarrow> bool" where
  "valid_msg w a \<longleftrightarrow> a < length (heap_msgs w)"

text \<open>A world in which nothing has happened yet.\<close>

definition start_world :: "'e \<Rightarrow> 'e world" where
  "start_world e = \<lparr>heap_maps = [], heap_msgs = [], clock = 0, tokens = 0, cancelled = [],
                    tickers = [], env = e\<rparr>"

lemmas world_defs = get_msg_def upd_msg_def new_msg_def new_map_def read_map_def valid_msg_def

lemma andThen_Ret: "m w = (Ret a, w') \<Longrightarrow> andThen m k w = k a w'"
  by (simp add: andThen_def)

lemma andThen_Panic: "m w = (Panic p, w') \<Longrightarrow> andThen m k w = (Panic p, w')"
  by (simp add: andThen_def)

lemma upd_msg_same [simp]: "valid_msg w a \<Longrightarrow> get_msg (upd_msg a f w) a = f (get_msg w a)"
  by (simp add: world_defs)

lemma upd_msg_other [simp]: "a \<noteq> b \<Longrightarrow> get_msg (upd_msg a f w) b = get_msg w b"
  by (simp add: world_defs)

lemma upd_msg_valid [simp]: "valid_msg (upd_msg a f w) b \<longleftrightarrow> valid_msg w b"
  by (simp add: world_defs)

lemma upd_msg_frame [simp]:
  "heap_maps (upd_msg a f w) = heap_maps w" "clock (upd_msg a f w) = clock w"
  "cancelled (upd_msg a f w) = cancelled w" "tokens (upd_msg a f w) = tokens w"
  "tickers (upd_msg a f w) = tickers w" "env (upd_msg a f w) = env w"
  "read_map (upd_msg a f w) r = read_map w r"
  "length (heap_msgs (upd_msg a f w)) = length (heap_msgs w)"
  by (simp_all add: world_defs split: option.split)

lemma cancel_frame [simp]:
  "heap_maps (cancel t w) = heap_maps w" "heap_msgs (cancel t w) = heap_msgs w"
  "clock (cancel t w) = clock w" "cancelled (cancel t w) = t # cancelled w"
  "tokens (cancel t w) = tokens w" "tickers (cancel t w) = tickers w" "env (cancel t w) = env w"
  "get_msg (cancel t w) a = get_msg w a" "read_map (cancel t w) r = read_map w r"
  by (simp_all add: cancel_def get_msg_def read_map_def split: option.split)

lemma wf_world_ref:
  assumes "wf_world w" "valid_msg w a" "Metadata (get_msg w a) = Some r"
  shows "r < length (heap_maps w)"
proof -
  from assms(2) have "get_msg w a \<in> set (heap_msgs w)" by (simp add: world_defs)
  with assms(1,3) show ?thesis by (simp add: wf_world_def)
qed

lemma wf_world_meta: "wf_world w \<Longrightarrow> valid_msg w a \<Longrightarrow> wf_map (meta_of w a)"
  by (auto simp: read_map_def wf_world_ref wf_world_def [of w] split: option.split)

lemma wf_world_upd_msg:
  assumes "wf_world w"
    and "\<And>r. valid_msg w a \<Longrightarrow> Metadata (f (get_msg w a)) = Some r \<Longrightarrow> r < length (heap_maps w)"
  shows "wf_world (upd_msg a f w)"
proof (cases "valid_msg w a")
  case True
  with assms show ?thesis
    by (auto simp: wf_world_def upd_msg_def get_msg_def
        dest!: set_update_subset_insert [THEN subsetD])
next
  case False
  with assms show ?thesis
    by (simp add: wf_world_def upd_msg_def valid_msg_def list_update_beyond)
qed

text \<open>A message update that leaves the metadata reference alone keeps the world well-formed.\<close>

lemma wf_world_upd_keep:
  "wf_world w \<Longrightarrow> (\<And>m. Metadata (f m) = Metadata m) \<Longrightarrow> wf_world (upd_msg a f w)"
  by (rule wf_world_upd_msg) (auto dest: wf_world_ref)

end
