(* ===== verification/Message.thy ===== *)
theory Message
  imports Go_Runtime
begin

text \<open>
  \<open>core/message/message.go\<close> and \<open>core/message/handler.go\<close>: the operations of a message on the
  heap, its copy, its comparison, and the handler that asserts the payload's type. A message
  pointer is an address of the heap of messages; its metadata is a reference into the heap of
  maps, so sharing between messages is visible.
\<close>

section \<open>Messages\<close>

definition NewMessage :: "ctx \<Rightarrow> gval \<Rightarrow> 'e world \<Rightarrow> addr \<times> 'e world" where
  "NewMessage c payload w =
     (let (r, w1) = new_map [] w
      in new_msg \<lparr>ID = [], Metadata = Some r, Payload = payload, msg_ctx = c\<rparr> w1)"

definition WithMetadata :: "addr \<Rightarrow> string \<Rightarrow> gval \<Rightarrow> ('e, addr) act" where
  "WithMetadata m key value =
     andThen (\<lambda>w. map_assign (Metadata (get_msg w m)) key value w) (\<lambda>_ w. (Ret m, w))"

definition Context :: "'e world \<Rightarrow> addr \<Rightarrow> ctx" where
  "Context w m = msg_ctx (get_msg w m)"

definition SetContext :: "addr \<Rightarrow> ctx \<Rightarrow> 'e world \<Rightarrow> 'e world" where
  "SetContext m c w = upd_msg m (\<lambda>x. x\<lparr>msg_ctx := c\<rparr>) w"

text \<open>\<open>maps.Clone\<close>: nil for nil, otherwise a fresh map with the same entries.\<close>

definition maps_Clone :: "addr option \<Rightarrow> 'e world \<Rightarrow> addr option \<times> 'e world" where
  "maps_Clone r w =
     (case r of None \<Rightarrow> (None, w)
      | Some a \<Rightarrow> (let (b, w1) = new_map (heap_maps w ! a) w in (Some b, w1)))"

definition Copy :: "addr \<Rightarrow> 'e world \<Rightarrow> addr \<times> 'e world" where
  "Copy m w =
     (let (b, w1) = NewMessage (Context w m) (Payload (get_msg w m)) w;
          w2 = upd_msg b (\<lambda>x. x\<lparr>ID := ID (get_msg w m)\<rparr>) w1;
          (r, w3) = maps_Clone (Metadata (get_msg w2 m)) w2
      in (b, upd_msg b (\<lambda>x. x\<lparr>Metadata := r\<rparr>) w3))"

definition Equals :: "'e world \<Rightarrow> addr \<Rightarrow> addr \<Rightarrow> bool" where
  "Equals w m toCompare =
     (if ID (get_msg w m) \<noteq> ID (get_msg w toCompare) then False
      else if length (meta_of w m) \<noteq> length (meta_of w toCompare) then False
      else if (\<exists>(key, v) \<in> set (meta_of w m).
                 case map_of (meta_of w toCompare) key of
                   None \<Rightarrow> True
                 | Some u \<Rightarrow> \<not> deep_equal (heap_maps w) [] v u) then False
      else deep_equal (heap_maps w) [] (Payload (get_msg w m)) (Payload (get_msg w toCompare)))"

lemmas message_defs = NewMessage_def WithMetadata_def Context_def SetContext_def maps_Clone_def Copy_def

text \<open>A write through a map reference keeps the world well-formed.\<close>

lemma wf_world_map_assign:
  assumes "wf_world w"
  shows "wf_world (snd (map_assign r k v w))"
proof (cases "\<exists>a. r = Some a \<and> a < length (heap_maps w)")
  case True
  then obtain a where a: "r = Some a" "a < length (heap_maps w)" by blast
  with assms have "wf_map (AList.update k v (heap_maps w ! a))" by (simp add: wf_world_def)
  with assms a show ?thesis
    by (auto simp: wf_world_def map_assign_def dest!: set_update_subset_insert [THEN subsetD])
next
  case False
  with assms show ?thesis
    by (auto simp: wf_world_def map_assign_def list_update_beyond split: option.split)
qed

lemma wf_world_WithMetadata: "wf_world w \<Longrightarrow> wf_world (snd (WithMetadata m k v w))"
  using wf_world_map_assign [of w "Metadata (get_msg w m)" k v]
  by (auto simp: WithMetadata_def andThen_def split: prod.splits res.splits)

lemma WithMetadata_reads:
  assumes "wf_world w" "valid_msg w m" "Metadata (get_msg w m) = Some r"
  shows "fst (WithMetadata m k v w) = Ret m"
    and "heap_msgs (snd (WithMetadata m k v w)) = heap_msgs w"
    and "heap_maps (snd (WithMetadata m k v w)) =
           (heap_maps w)[r := AList.update k v (heap_maps w ! r)]"
  using assms by (simp_all add: WithMetadata_def andThen_def map_assign_def)

text \<open>What \<open>Copy\<close> builds, as one equation on the heaps.\<close>

lemma Copy_heaps:
  assumes "valid_msg w m"
  shows "Copy m w = (length (heap_msgs w),
     w\<lparr>heap_maps := heap_maps w @ [] # (case Metadata (get_msg w m) of None \<Rightarrow> []
                                         | Some a \<Rightarrow> [(heap_maps w @ [[]]) ! a]),
       heap_msgs := heap_msgs w @
         [(get_msg w m)\<lparr>Metadata := (case Metadata (get_msg w m) of None \<Rightarrow> None
                                     | Some a \<Rightarrow> Some (Suc (length (heap_maps w))))\<rparr>]\<rparr>)"
  using assms
  by (auto simp: message_defs world_defs Let_def nth_append split: option.splits prod.splits)

text \<open>A write through one reference leaves what other references read.\<close>

lemma read_map_WithMetadata:
  assumes "r \<noteq> Metadata (get_msg w m)"
  shows "read_map (snd (WithMetadata m k v w)) r = read_map w r"
  using assms
  by (auto simp: WithMetadata_def andThen_def map_assign_def read_map_def split: option.splits)

lemma get_msg_WithMetadata [simp]: "get_msg (snd (WithMetadata m k v w)) x = get_msg w x"
  by (auto simp: WithMetadata_def andThen_def map_assign_def get_msg_def split: option.splits)

lemma read_map_append:
  "(\<And>a. r = Some a \<Longrightarrow> a < length (heap_maps w)) \<Longrightarrow>
   read_map (w\<lparr>heap_maps := heap_maps w @ ms, heap_msgs := y\<rparr>) r = read_map w r"
  by (auto simp: read_map_def nth_append split: option.split)

text \<open>The facts of a copy that its clients use: old messages keep, and the copy's map is its own.\<close>

lemma Copy_facts:
  assumes wf: "wf_world w" and m: "valid_msg w m" and copy: "Copy m w = (c, w1)"
  shows "c = length (heap_msgs w)" and "valid_msg w1 c"
    and "valid_msg w x \<Longrightarrow> valid_msg w1 x"
    and "valid_msg w x \<Longrightarrow> get_msg w1 x = get_msg w x"
    and "valid_msg w x \<Longrightarrow> meta_of w1 x = meta_of w x"
    and "meta_of w1 c = meta_of w m"
    and "ID (get_msg w1 c) = ID (get_msg w m)"
    and "Payload (get_msg w1 c) = Payload (get_msg w m)"
    and "msg_ctx (get_msg w1 c) = msg_ctx (get_msg w m)"
    and "valid_msg w x \<Longrightarrow> Metadata (get_msg w1 c) = Some r \<Longrightarrow> Metadata (get_msg w1 x) \<noteq> Some r"
    and "wf_world w1"
proof -
  have heaps: "c = length (heap_msgs w)"
    "w1 = w\<lparr>heap_maps := heap_maps w @ [] # (case Metadata (get_msg w m) of None \<Rightarrow> []
                                               | Some a \<Rightarrow> [(heap_maps w @ [[]]) ! a]),
             heap_msgs := heap_msgs w @
               [(get_msg w m)\<lparr>Metadata := (case Metadata (get_msg w m) of None \<Rightarrow> None
                                           | Some a \<Rightarrow> Some (Suc (length (heap_maps w))))\<rparr>]\<rparr>"
    using copy by (simp_all add: Copy_heaps [OF m])
  have bound: "Metadata (get_msg w x) = Some r \<Longrightarrow> valid_msg w x \<Longrightarrow> r < length (heap_maps w)" for x r
    using wf by (rule wf_world_ref)
  show c: "c = length (heap_msgs w)" using heaps by simp
  show "valid_msg w1 c" "valid_msg w x \<Longrightarrow> valid_msg w1 x" for x
    using heaps by (auto simp: valid_msg_def)
  show old: "get_msg w1 x = get_msg w x" if "valid_msg w x" for x
    using heaps that by (simp add: get_msg_def valid_msg_def nth_append)
  show "meta_of w1 x = meta_of w x" if "valid_msg w x" for x
    unfolding old [OF that] unfolding heaps(2) by (rule read_map_append) (rule bound [OF _ that])
  have new: "get_msg w1 c = (get_msg w m)\<lparr>Metadata := (case Metadata (get_msg w m) of None \<Rightarrow> None
      | Some a \<Rightarrow> Some (Suc (length (heap_maps w))))\<rparr>"
    using heaps by (simp add: get_msg_def nth_append)
  then show "ID (get_msg w1 c) = ID (get_msg w m)" "Payload (get_msg w1 c) = Payload (get_msg w m)"
    "msg_ctx (get_msg w1 c) = msg_ctx (get_msg w m)" by simp_all
  show "meta_of w1 c = meta_of w m"
    using heaps new bound [OF _ m]
    by (auto simp: read_map_def nth_append split: option.splits)
  show "Metadata (get_msg w1 x) \<noteq> Some r"
    if "valid_msg w x" "Metadata (get_msg w1 c) = Some r" for x r
    using that new bound [of x r] by (auto simp: old split: option.splits)
  show "wf_world w1"
    using wf heaps bound [OF _ m] m
    by (auto simp: wf_world_def nth_append get_msg_def split: option.splits)
qed

text \<open>C29: \<open>Copy\<close> gives a new message with the ID, payload, context and metadata of the original
  and a metadata map of its own: no message changes, a later metadata write through the copy is
  not seen by any other message, and a write through another message is not seen by the copy.\<close>

theorem copy_is_isolated:
  assumes "wf_world w" "valid_msg w m" "Copy m w = (c, w1)"
  shows "\<not> valid_msg w c \<and> valid_msg w1 c \<and> wf_world w1
    \<and> ID (get_msg w1 c) = ID (get_msg w m) \<and> Payload (get_msg w1 c) = Payload (get_msg w m)
    \<and> Context w1 c = Context w m \<and> meta_of w1 c = meta_of w m
    \<and> (\<forall>x. valid_msg w x \<longrightarrow> get_msg w1 x = get_msg w x \<and> meta_of w1 x = meta_of w x
         \<and> (\<forall>k v. meta_of (snd (WithMetadata c k v w1)) x = meta_of w x
                \<and> meta_of (snd (WithMetadata x k v w1)) c = meta_of w m))"
proof -
  note facts = Copy_facts [OF assms]
  have rest: "Context w1 c = Context w m"
    by (simp add: Context_def facts(9))
  have apart: "read_map (snd (WithMetadata c k v w1)) (Metadata (get_msg w1 x)) = meta_of w1 x"
    "read_map (snd (WithMetadata x k v w1)) (Metadata (get_msg w1 c)) = meta_of w1 c"
    if "valid_msg w x" for x k v
  proof -
    show "read_map (snd (WithMetadata c k v w1)) (Metadata (get_msg w1 x)) = meta_of w1 x"
    proof (cases "Metadata (get_msg w1 x) = Metadata (get_msg w1 c)")
      case True
      then have "Metadata (get_msg w1 x) = None" using facts(10) [OF that] by (metis not_None_eq)
      then show ?thesis by (simp add: read_map_def)
    qed (simp add: read_map_WithMetadata)
    show "read_map (snd (WithMetadata x k v w1)) (Metadata (get_msg w1 c)) = meta_of w1 c"
    proof (cases "Metadata (get_msg w1 c) = Metadata (get_msg w1 x)")
      case True
      then have "Metadata (get_msg w1 c) = None" using facts(10) [OF that] by (metis not_None_eq)
      then show ?thesis by (simp add: read_map_def)
    qed (simp add: read_map_WithMetadata)
  qed
  show ?thesis using facts rest apart by (auto simp: valid_msg_def)
qed

theorem copy_is_isolated_witness:
  "let w = snd (WithMetadata 0 ''k'' (VBool True)
                 (snd (NewMessage Background (VString ''p'') (start_world ()))));
       (c, w1) = Copy 0 w
   in meta_of w1 c = [(''k'', VBool True)]
      \<and> meta_of (snd (WithMetadata c ''k'' VNil w1)) 0 = [(''k'', VBool True)]"
proof -
  define w where "w = snd (WithMetadata 0 ''k'' (VBool True)
                 (snd (NewMessage Background (VString ''p'') (start_world ()))))"
  then have w: "wf_world w" "valid_msg w 0" "meta_of w 0 = [(''k'', VBool True)]"
    by (simp_all add: wf_world_def world_defs message_defs andThen_def map_assign_def start_world_def)
  obtain c w1 where copy: "Copy 0 w = (c, w1)" by fastforce
  note isolated = copy_is_isolated [OF w(1,2) copy]
  then have "meta_of w1 c = meta_of w 0"
    and "meta_of (snd (WithMetadata c ''k'' VNil w1)) 0 = meta_of w 0"
    using w(2) by blast+
  then show ?thesis unfolding w_def [symmetric] using copy w(3) by simp
qed

lemma guard_chain:
  "(if a \<noteq> b then False else if c \<noteq> d then False else if r then False else s)
   \<longleftrightarrow> a = b \<and> c = d \<and> \<not> r \<and> s"
  by simp

lemma not_ex_case:
  "\<not> (\<exists>(k, v) \<in> S. case f k of None \<Rightarrow> True | Some u \<Rightarrow> \<not> D v u)
   \<longleftrightarrow> (\<forall>(k, v) \<in> S. case f k of None \<Rightarrow> False | Some u \<Rightarrow> D v u)"
  by (fastforce split: option.splits)

lemma equals_unfold:
  assumes "wf_world w" "valid_msg w a" "valid_msg w b"
  shows "Equals w a b \<longleftrightarrow> ID (get_msg w a) = ID (get_msg w b)
    \<and> dom (map_of (meta_of w a)) = dom (map_of (meta_of w b))
    \<and> (\<forall>k v u. map_of (meta_of w a) k = Some v \<longrightarrow> map_of (meta_of w b) k = Some u \<longrightarrow>
         deep_equal (heap_maps w) [] v u)
    \<and> deep_equal (heap_maps w) [] (Payload (get_msg w a)) (Payload (get_msg w b))"
    (is "?lhs \<longleftrightarrow> ?id \<and> ?dom \<and> ?vals \<and> ?pay")
proof -
  let ?A = "meta_of w a" and ?B = "meta_of w b"
  have wfs: "wf_map ?A" "wf_map ?B" using assms by (simp_all add: wf_world_meta)
  note lens = wfs [THEN wf_map_card]
  have loop: "(\<forall>(k, v) \<in> set ?A. case map_of ?B k of None \<Rightarrow> False
                | Some u \<Rightarrow> deep_equal (heap_maps w) [] v u)
      \<longleftrightarrow> dom (map_of ?A) \<subseteq> dom (map_of ?B) \<and> ?vals"
    using wfs(1) by (fastforce simp: wf_map_of_in [symmetric] split: option.splits)
  have "length ?A = length ?B \<and> dom (map_of ?A) \<subseteq> dom (map_of ?B) \<longleftrightarrow> ?dom"
    unfolding lens by (metis card_seteq finite_dom_map_of order_refl)
  moreover have "Equals w a b \<longleftrightarrow> ?id \<and> length ?A = length ?B \<and>
      (\<forall>(k, v) \<in> set ?A. case map_of ?B k of None \<Rightarrow> False
         | Some u \<Rightarrow> deep_equal (heap_maps w) [] v u) \<and> ?pay"
    by (simp only: Equals_def guard_chain not_ex_case)
  ultimately show ?thesis unfolding loop by blast
qed

text \<open>\<open>Equals\<close> compares exactly the ID, the metadata as maps (same keys, deeply equal values,
  in whatever order the maps are iterated) and the payload; the context does not matter.\<close>

theorem equals_compares_contents:
  assumes "wf_world w" "valid_msg w a" "valid_msg w b"
  shows "Equals w a b \<longleftrightarrow> ID (get_msg w a) = ID (get_msg w b)
    \<and> dom (map_of (meta_of w a)) = dom (map_of (meta_of w b))
    \<and> (\<forall>k v u. map_of (meta_of w a) k = Some v \<longrightarrow> map_of (meta_of w b) k = Some u \<longrightarrow>
         deep_equal (heap_maps w) [] v u)
    \<and> deep_equal (heap_maps w) [] (Payload (get_msg w a)) (Payload (get_msg w b))"
  using assms by (rule equals_unfold)

theorem equals_compares_contents_witness:
  "let w = snd (NewMessage (WithCancel Background 3) (VString ''p'')
             (snd (NewMessage Background (VString ''p'') (start_world ()))))
   in Equals w 0 1"
proof -
  let ?w = "snd (NewMessage (WithCancel Background 3) (VString ''p'')
             (snd (NewMessage Background (VString ''p'') (start_world ()))))"
  have w: "wf_world ?w" "valid_msg ?w 0" "valid_msg ?w 1"
    "meta_of ?w 0 = []" "meta_of ?w 1 = []" "ID (get_msg ?w 0) = ID (get_msg ?w 1)"
    "Payload (get_msg ?w 0) = Payload (get_msg ?w 1)" "nan_free (Payload (get_msg ?w 1))"
    by (auto simp: wf_world_def world_defs message_defs andThen_def map_assign_def start_world_def
        less_Suc_eq nth_Cons')
  show ?thesis using equals_compares_contents [OF w(1,2,3)] w by (simp add: deep_equal_refl)
qed

text \<open>A copy equals its original, in both directions, as long as no metadata value and no
  payload holds a NaN (with one, a message does not even equal itself).\<close>

theorem copy_equals_original:
  assumes "wf_world w" "valid_msg w m" "Copy m w = (c, w1)"
    and "\<forall>(k, v) \<in> set (meta_of w m). nan_free v" "nan_free (Payload (get_msg w m))"
  shows "Equals w1 m c \<and> Equals w1 c m"
proof -
  note facts = Copy_facts [OF assms(1-3)]
  have same: "ID (get_msg w1 c) = ID (get_msg w1 m)" "Payload (get_msg w1 c) = Payload (get_msg w1 m)"
    "meta_of w1 c = meta_of w1 m"
    using facts(4,5) [OF assms(2)] facts(6-8) by simp_all
  have free: "nan_free v" if "map_of (meta_of w1 m) k = Some v" for k v
    using that assms(4) facts(5) [OF assms(2)] by (auto dest!: map_of_SomeD)
  from facts(4) [OF assms(2)] assms(5) have pay: "nan_free (Payload (get_msg w1 m))" by simp
  from free pay same show ?thesis
    by (simp add: equals_unfold facts(11) facts(2) facts(3) assms(2) deep_equal_refl)
qed

theorem copy_equals_original_witness:
  "let w = snd (WithMetadata 0 ''k'' (VBool True)
                 (snd (NewMessage Background (VString ''p'') (start_world ()))));
       (c, w1) = Copy 0 w
   in Equals w1 0 c \<and> Equals w1 c 0"
proof -
  let ?w = "snd (WithMetadata 0 ''k'' (VBool True)
                 (snd (NewMessage Background (VString ''p'') (start_world ()))))"
  have w: "wf_world ?w" "valid_msg ?w 0"
    "\<forall>(k, v) \<in> set (meta_of ?w 0). nan_free v" "nan_free (Payload (get_msg ?w 0))"
    by (simp_all add: wf_world_def world_defs message_defs andThen_def map_assign_def start_world_def)
  obtain c w1 where copy: "Copy 0 ?w = (c, w1)" by fastforce
  from copy_equals_original [OF w(1,2) copy w(3,4)] show ?thesis by (simp add: copy)
qed

end
