(* ===== verification/Middleware.thy ===== *)
theory Middleware
  imports Message
begin

text \<open>
  \<open>core/message/handler.go\<close> and \<open>core/message/middleware\<close>: handlers, middlewares, the chain and
  the middlewares the library ships. A handler is a function of the message and the world that
  returns an error (or nil) or panics; a middleware is a function between handlers. User supplied
  functions (handlers, conditions, error callbacks) are arbitrary: they may change the world and
  panic. A handler that never returns is outside this model.
\<close>

section \<open>Handlers\<close>

type_synonym 'e handler = "addr \<Rightarrow> ('e, gerr option) act"

type_synonym 'e middleware = "'e handler \<Rightarrow> 'e handler"

definition nil_deref_panic :: pval where
  "nil_deref_panic = PErr (ErrRuntime ''invalid memory address or nil pointer dereference'')"

text \<open>
  \<open>HandleWithPayload[T]\<close>. After a failed assertion \<open>payload\<close> is the zero value of \<open>T\<close>, so its
  type is \<open>T\<close> again (and \<open>reflect.TypeOf\<close> of a nil interface has no name to ask for), and
  \<open>expectedType\<close> is a pointer, whose type has the empty name.
\<close>

definition HandleWithPayload :: "gtype \<Rightarrow> (addr \<Rightarrow> gval \<Rightarrow> ('e, gerr option) act) \<Rightarrow> 'e handler" where
  "HandleWithPayload T handler msg w =
     (let payload = Payload (get_msg w msg) in
      if \<not> type_assert T payload then
        (if T = TAny then (Panic nil_deref_panic, w)
         else (let payloadType = type_name T; expectedTypeName = ''''
               in (Ret (Some (ErrNew (''payload type ['' @ payloadType
                     @ ''] does not match handler expected payload type [''
                     @ expectedTypeName @ '']''))), w)))
      else handler msg payload w)"

section \<open>The chain\<close>

record 'e chain =
  middlewares :: "'e middleware list"

definition NewChain :: "'e chain" where
  "NewChain = \<lparr>middlewares = []\<rparr>"

definition Add :: "'e chain \<Rightarrow> 'e middleware \<Rightarrow> 'e chain" where
  "Add c m = c\<lparr>middlewares := middlewares c @ [m]\<rparr>"

text \<open>The loop \<open>for i := len - 1; i >= 0; i--\<close>; the number is \<open>i + 1\<close>.\<close>

fun wrap_loop :: "'e middleware list \<Rightarrow> nat \<Rightarrow> 'e handler \<Rightarrow> 'e handler" where
  "wrap_loop ms 0 final = final"
| "wrap_loop ms (Suc i) final = wrap_loop ms i ((ms ! i) final)"

definition Wrap :: "'e chain \<Rightarrow> 'e handler \<Rightarrow> 'e handler" where
  "Wrap c h = wrap_loop (middlewares c) (length (middlewares c)) h"

section \<open>The middlewares\<close>

definition ConvertPanicToError :: "(gval \<Rightarrow> string) \<Rightarrow> 'e middleware" where
  "ConvertPanicToError fv next msg w =
     (case next msg w of
        (Panic (PErr e), w') \<Rightarrow> (Ret (Some e), w')
      | (Panic (PVal v), w') \<Rightarrow> (Ret (Some (ErrNew (''panic recovered: '' @ sprint_v fv v))), w')
      | (Ret err, w') \<Rightarrow> (Ret err, w'))"

definition OnError :: "(addr \<Rightarrow> gerr \<Rightarrow> ('e, unit) act) \<Rightarrow> 'e middleware" where
  "OnError errHandler next msg =
     andThen (next msg) (\<lambda>err.
       case err of
         None \<Rightarrow> (\<lambda>w. (Ret None, w))
       | Some e \<Rightarrow> andThen (errHandler msg e) (\<lambda>_ w. (Ret (Some e), w)))"

definition ContextTimeout :: "int \<Rightarrow> 'e middleware" where
  "ContextTimeout timeout next msg w =
     (let ((c, tok), w1) = WithTimeout (Context w msg) timeout w
      in deferring (cancel tok) (\<lambda>w. next msg (SetContext msg c w)) w1)"

definition div_zero_panic :: pval where
  "div_zero_panic = PErr (ErrRuntime ''integer divide by zero'')"

text \<open>Go's integer division truncates towards zero.\<close>

definition trunc_div :: "int \<Rightarrow> int \<Rightarrow> int" where
  "trunc_div a b = sgn a * sgn b * (\<bar>a\<bar> div \<bar>b\<bar>)"

definition throttle_with :: "nat \<Rightarrow> 'e middleware" where
  "throttle_with i next msg w = next msg (tick_recv i w)"

definition Throttle :: "int \<Rightarrow> int \<Rightarrow> ('e, 'e middleware) act" where
  "Throttle max_n perDuration w =
     (if max_n = 0 then (Panic div_zero_panic, w)
      else andThen (NewTicker (trunc_div perDuration max_n)) (\<lambda>i w. (Ret (throttle_with i), w)) w)"

definition ConditionalExecute :: "(addr \<Rightarrow> ('e, bool) act) \<Rightarrow> 'e handler \<Rightarrow> 'e middleware" where
  "ConditionalExecute shouldExec exec next msg =
     andThen (shouldExec msg) (\<lambda>b. if b then exec msg else next msg)"

definition ConditionalSkip :: "(addr \<Rightarrow> ('e, bool) act) \<Rightarrow> 'e middleware" where
  "ConditionalSkip shouldSkipFn = ConditionalExecute shouldSkipFn (\<lambda>msg w. (Ret None, w))"

definition ContextKeyToMetadata :: "string \<Rightarrow> gval \<Rightarrow> 'e middleware" where
  "ContextKeyToMetadata metadataKey ctxKey next msg w =
     (case ctx_Value (Context w msg) ctxKey of
        VString i \<Rightarrow>
          andThen (map_assign (Metadata (get_msg w msg)) metadataKey (VString i)) (\<lambda>_. next msg) w
      | _ \<Rightarrow> next msg w)"

lemmas act_defs = andThen_def deferring_def

lemmas middleware_defs = ConvertPanicToError_def OnError_def ContextTimeout_def throttle_with_def
  ConditionalExecute_def ConditionalSkip_def ContextKeyToMetadata_def

section \<open>Facts on the chain\<close>

text \<open>The loop is the right fold: the first middleware added is the outermost.\<close>

lemma wrap_loop_foldr: "i \<le> length ms \<Longrightarrow> wrap_loop ms i h = foldr (\<lambda>m. m) (take i ms) h"
  by (induction i arbitrary: h) (simp_all add: take_Suc_conv_app_nth)

lemma Wrap_foldr: "Wrap c h = foldr (\<lambda>m. m) (middlewares c) h"
  by (simp add: Wrap_def wrap_loop_foldr)

lemma Wrap_NewChain [simp]: "Wrap NewChain h = h"
  by (simp add: Wrap_foldr NewChain_def)

lemma Wrap_Add [simp]: "Wrap (Add c m) h = Wrap c (m h)"
  by (simp add: Wrap_foldr Add_def)

lemma middlewares_Add [simp]: "middlewares (Add c m) = middlewares c @ [m]"
  by (simp add: Add_def)

lemma Wrap_more: "Wrap \<lparr>middlewares = ms @ ns\<rparr> h = Wrap \<lparr>middlewares = ms\<rparr> (Wrap \<lparr>middlewares = ns\<rparr> h)"
  by (simp add: Wrap_foldr)

lemma foldl_Add: "middlewares (foldl Add c ms) = middlewares c @ ms"
  by (induction ms arbitrary: c) simp_all

section \<open>Middlewares that run the next handler once\<close>

text \<open>
  The contract most middlewares share: something before, exactly one call of the next handler on
  the same message, something after; the result of that call, a panic included, is the result.
\<close>

locale around_middleware =
  fixes mw :: "'e middleware"
    and before :: "addr \<Rightarrow> 'e world \<Rightarrow> 'e world"
    and after :: "addr \<Rightarrow> 'e world \<Rightarrow> gerr option res \<Rightarrow> 'e world \<Rightarrow> 'e world"
  assumes form: "mw next m w = (case next m (before m w) of (r, w') \<Rightarrow> (r, after m w r w'))"
begin

lemma same_result: "fst (mw next m w) = fst (next m (before m w))"
  by (simp add: form split: prod.split)

lemma world_after: "next m (before m w) = (r, w') \<Longrightarrow> snd (mw next m w) = after m w r w'"
  by (simp add: form)

lemma passes_through: "\<exists>b a. \<forall>next m w. mw next m w = (case next m (b m w) of (r, w') \<Rightarrow> (r, a m w r w'))"
  using form by blast

end

definition around :: "'e middleware \<Rightarrow> bool" where
  "around mw \<longleftrightarrow> (\<exists>b a. \<forall>next m w. mw next m w = (case next m (b m w) of (r, w') \<Rightarrow> (r, a m w r w')))"

lemma around_id: "around (\<lambda>h. h)"
  unfolding around_def
  by (rule exI [of _ "\<lambda>m w. w"], rule exI [of _ "\<lambda>m w r w'. w'"]) simp

lemma around_comp:
  assumes "around f" "around g"
  shows "around (\<lambda>h. f (g h))"
proof -
  obtain bf af where f: "\<And>next m w. f next m w = (case next m (bf m w) of (r, w') \<Rightarrow> (r, af m w r w'))"
    using assms(1) unfolding around_def by blast
  obtain bg ag where g: "\<And>next m w. g next m w = (case next m (bg m w) of (r, w') \<Rightarrow> (r, ag m w r w'))"
    using assms(2) unfolding around_def by blast
  show ?thesis
    unfolding around_def
    by (rule exI [of _ "\<lambda>m w. bg m (bf m w)"],
        rule exI [of _ "\<lambda>m w r w'. af m w r (ag m (bf m w) r w')"])
      (simp add: f g split: prod.split)
qed

lemma around_foldr: "\<forall>m \<in> set ms. around m \<Longrightarrow> around (\<lambda>h. foldr (\<lambda>m. m) ms h)"
  by (induction ms) (simp_all add: around_id around_comp id_def comp_def)

lemma aroundD: "around mw \<Longrightarrow> \<exists>w1 w2. mw next m w = (fst (next m w1), w2) \<and> (\<exists>w3. next m w1 = (fst (next m w1), w3))"
  unfolding around_def by (metis (mono_tags, lifting) prod.case_eq_if prod.collapse)

interpretation timeout: around_middleware "ContextTimeout d"
  "\<lambda>m w. SetContext m (WithDeadline (Context w m) (clock w + d) (tokens w)) (w\<lparr>tokens := Suc (tokens w)\<rparr>)"
  "\<lambda>m w r w'. cancel (tokens w) w'" for d :: int
  by unfold_locales
    (simp add: ContextTimeout_def WithTimeout_def deferring_def split: prod.split)

interpretation throttle: around_middleware "throttle_with i" "\<lambda>m. tick_recv i" "\<lambda>m w r w'. w'" for i :: nat
  by unfold_locales (simp add: throttle_with_def split: prod.split)

text \<open>An error callback that does not panic makes \<open>OnError\<close> a middleware of this kind.\<close>

definition report :: "(addr \<Rightarrow> gerr \<Rightarrow> 'e world \<Rightarrow> 'e world) \<Rightarrow> addr \<Rightarrow> gerr \<Rightarrow> ('e, unit) act" where
  "report f m e w = (Ret (), f m e w)"

interpretation on_error: around_middleware "OnError (report f)" "\<lambda>m w. w"
  "\<lambda>m w r w'. case r of Ret (Some e) \<Rightarrow> f m e w' | _ \<Rightarrow> w'" for f
  by unfold_locales
    (auto simp: OnError_def act_defs report_def split: prod.split res.split option.split)

lemma around_shipped:
  "around (ContextTimeout d)" "around (throttle_with i)" "around (OnError (report f))"
  unfolding around_def
  by (rule timeout.passes_through throttle.passes_through on_error.passes_through)+

section \<open>Properties of the chain\<close>

text \<open>C28: Adding the middlewares \<open>ms\<close> to a new chain and wrapping a handler runs them in the
  order they were added, the first one outermost and the handler innermost; the loop of
  \<open>Wrap\<close>, which counts down, is the right fold.\<close>

theorem chain_first_added_outermost:
  "Wrap (foldl Add NewChain ms) h = foldr (\<lambda>m inner. m inner) ms h
   \<and> Wrap (foldl Add NewChain (ms @ ns)) h = Wrap (foldl Add NewChain ms) (Wrap (foldl Add NewChain ns) h)"
  by (simp add: Wrap_foldr foldl_Add NewChain_def)

text \<open>A chain of timeouts, throttles and error reporters calls the handler exactly once, on the
  same message, and returns exactly what that call returned (nil, an error or a panic): there is
  one preparation of the world before the call and one clean-up after it, whatever the handler.\<close>

theorem chain_calls_handler_once:
  assumes "\<forall>m \<in> set (middlewares c).
    (\<exists>d. m = ContextTimeout d) \<or> (\<exists>i. m = throttle_with i) \<or> (\<exists>f. m = OnError (report f))"
  shows "\<exists>before after. \<forall>h msg w.
    Wrap c h msg w = (case h msg (before msg w) of (r, w') \<Rightarrow> (r, after msg w r w'))"
proof -
  have "\<forall>m \<in> set (middlewares c). around m" by (metis assms around_shipped)
  then have "around (\<lambda>h. foldr (\<lambda>m. m) (middlewares c) h)" by (rule around_foldr)
  then show ?thesis by (simp add: around_def Wrap_foldr)
qed

theorem chain_calls_handler_once_witness:
  "\<exists>before after. \<forall>h msg (w :: unit world).
    Wrap \<lparr>middlewares = [ContextTimeout 5, OnError (report (\<lambda>m e w. w))]\<rparr> h msg w
      = (case h msg (before msg w) of (r, w') \<Rightarrow> (r, after msg w r w'))"
  by (rule chain_calls_handler_once) auto

text \<open>With \<open>ConvertPanicToError\<close> outermost no panic leaves the chain: a panic of anything
  inside becomes a non-nil error (the panic value itself when it is an error), and a result
  without a panic passes unchanged.\<close>

theorem convert_panic_total:
  "case Wrap \<lparr>middlewares = ms\<rparr> h msg w of
     (Ret err, w') \<Rightarrow> Wrap \<lparr>middlewares = ConvertPanicToError fv # ms\<rparr> h msg w = (Ret err, w')
   | (Panic (PErr e), w') \<Rightarrow>
       Wrap \<lparr>middlewares = ConvertPanicToError fv # ms\<rparr> h msg w = (Ret (Some e), w')
   | (Panic (PVal v), w') \<Rightarrow>
       Wrap \<lparr>middlewares = ConvertPanicToError fv # ms\<rparr> h msg w
         = (Ret (Some (ErrNew (''panic recovered: '' @ sprint_v fv v))), w')"
  by (auto simp: Wrap_foldr ConvertPanicToError_def split: prod.split res.split pval.split)

text \<open>\<open>ContextTimeout\<close> runs the next handler once, on a message whose context keeps the values
  of the old one, has the earlier of the old deadline and the timeout as its deadline and is done
  when the old one is; when the handler returns or panics the new context is cancelled, so a
  message whose context the handler leaves alone comes back with a context that is done.\<close>

theorem context_timeout_scopes_deadline:
  assumes "valid_msg w msg" "ContextTimeout d next msg w = (r, w')"
  shows "\<exists>w1 w2. next msg w1 = (r, w2)
    \<and> (\<forall>k. ctx_Value (Context w1 msg) k = ctx_Value (Context w msg) k)
    \<and> ctx_Deadline (Context w1 msg) = Some (case ctx_Deadline (Context w msg) of
        None \<Rightarrow> clock w + d | Some d' \<Rightarrow> min (clock w + d) d')
    \<and> (is_done w (Context w msg) \<longrightarrow> is_done w1 (Context w1 msg))
    \<and> (Context w2 msg = Context w1 msg \<longrightarrow> is_done w' (Context w' msg))"
proof -
  let ?c = "WithDeadline (Context w msg) (clock w + d) (tokens w)"
  let ?w1 = "SetContext msg ?c (w\<lparr>tokens := Suc (tokens w)\<rparr>)"
  have valid: "valid_msg (w\<lparr>tokens := Suc (tokens w)\<rparr>) msg" using assms(1) by (simp add: valid_msg_def)
  then have ctx1: "Context ?w1 msg = ?c" by (simp add: Context_def SetContext_def)
  obtain w2 where next1: "next msg ?w1 = (r, w2)" and w': "w' = cancel (tokens w) w2"
    using assms(2) by (auto simp: timeout.form split: prod.splits)
  have "is_done ?w1 ?c = is_done (w\<lparr>tokens := Suc (tokens w)\<rparr>) ?c" by (simp add: SetContext_def)
  with next1 ctx1 w' show ?thesis
    by (intro exI [of _ ?w1] exI [of _ w2]) (auto simp: Context_def split: option.split)
qed

theorem context_timeout_scopes_deadline_witness:
  "let w = snd (NewMessage Background VNil (start_world ()));
       w' = snd (ContextTimeout 10 (\<lambda>m w. (Ret None, w)) 0 w)
   in is_done w' (Context w' 0)"
proof -
  define w where "w = snd (NewMessage Background VNil (start_world ()))"
  then have valid: "valid_msg w 0" by (simp add: message_defs world_defs start_world_def)
  define w' where "w' = snd (ContextTimeout 10 (\<lambda>m w. (Ret None, w)) 0 w)"
  have run: "ContextTimeout 10 (\<lambda>m w. (Ret None, w)) 0 w = (Ret None, w')"
    by (simp add: w'_def timeout.form)
  from context_timeout_scopes_deadline [OF valid run] have "is_done w' (Context w' 0)" by auto
  then show ?thesis by (simp add: w_def w'_def)
qed

section \<open>The throttle\<close>

text \<open>
  Times at which successive calls pass a throttle, when the program does \<open>f\<close> before each call:
  \<open>f\<close> may take time and may do anything but use this ticker.
\<close>

fun pass_times :: "nat \<Rightarrow> ('e world \<Rightarrow> 'e world) list \<Rightarrow> 'e world \<Rightarrow> int list" where
  "pass_times i [] w = []"
| "pass_times i (f # fs) w = (let w1 = tick_recv i (f w) in clock w1 # pass_times i fs w1)"

definition idles :: "nat \<Rightarrow> ('e world \<Rightarrow> 'e world) \<Rightarrow> bool" where
  "idles i f \<longleftrightarrow> (\<forall>w. clock w \<le> clock (f w) \<and> tickers (f w) ! i = tickers w ! i
                   \<and> length (tickers w) \<le> length (tickers (f w)))"

lemma tick_recv_facts:
  assumes "i < length (tickers w)" "0 < period (tickers w ! i)"
  defines "w1 \<equiv> tick_recv i w"
  shows "next_tick (tickers w ! i) \<le> clock w1" "clock w \<le> clock w1"
    "clock w1 < next_tick (tickers w1 ! i)"
    "next_tick (tickers w1 ! i) \<le> clock w1 + period (tickers w ! i)"
    "next_tick (tickers w ! i) + period (tickers w ! i) \<le> next_tick (tickers w1 ! i)"
    "period (tickers w1 ! i) = period (tickers w ! i)" "length (tickers w1) = length (tickers w)"
proof -
  define p n c where "p = period (tickers w ! i)" and "n = next_tick (tickers w ! i)"
    and "c = max (clock w) n"
  have p: "0 < p" and nc: "n \<le> c" using assms by (simp_all add: p_def c_def)
  then have mod: "p * ((c - n) div p) = (c - n) - (c - n) mod p" "0 \<le> (c - n) mod p" "(c - n) mod p < p"
    by (simp_all add: minus_mod_eq_mult_div)
  then have grid: "c < n + p * ((c - n) div p + 1)" "n + p * ((c - n) div p + 1) \<le> c + p"
    unfolding distrib_left mod(1) using mod(2,3) by simp_all
  have "0 \<le> p * ((c - n) div p)" using p nc by (simp add: pos_imp_zdiv_nonneg_iff)
  then have step: "n + p \<le> n + p * ((c - n) div p + 1)" by (simp add: algebra_simps)
  have w1: "clock w1 = c" "tickers w1 = (tickers w)[i := (tickers w ! i)\<lparr>next_tick := n + p * ((c - n) div p + 1)\<rparr>]"
    by (simp_all add: w1_def tick_recv_def Let_def p_def n_def c_def)
  show "next_tick (tickers w ! i) \<le> clock w1" "clock w \<le> clock w1"
    "clock w1 < next_tick (tickers w1 ! i)"
    "next_tick (tickers w1 ! i) \<le> clock w1 + period (tickers w ! i)"
    "next_tick (tickers w ! i) + period (tickers w ! i) \<le> next_tick (tickers w1 ! i)"
    "period (tickers w1 ! i) = period (tickers w ! i)" "length (tickers w1) = length (tickers w)"
    using assms(1) grid step nc by (simp_all add: w1 c_def p_def n_def)
qed

text \<open>Pass \<open>n\<close> of a run waits for the tick \<open>n\<close> periods after the first one that is due.\<close>

lemma pass_times_lower:
  assumes "i < length (tickers w)" "0 < period (tickers w ! i)" "\<forall>f \<in> set fs. idles i f"
    and "n < length fs"
  shows "next_tick (tickers w ! i) + int n * period (tickers w ! i) \<le> pass_times i fs w ! n"
  using assms
proof (induction fs arbitrary: w n)
  case (Cons f fs)
  let ?w1 = "tick_recv i (f w)"
  have f: "i < length (tickers (f w))" "tickers (f w) ! i = tickers w ! i"
    using Cons.prems(1,3) unfolding idles_def by (simp_all, meson less_le_trans)
  with Cons.prems(2) have "0 < period (tickers (f w) ! i)" by simp
  note tick = tick_recv_facts [OF f(1) this, unfolded f(2)]
  show ?case
  proof (cases n)
    case 0
    with tick(1) show ?thesis by (simp add: Let_def)
  next
    case (Suc k)
    have "next_tick (tickers ?w1 ! i) + int k * period (tickers w ! i) \<le> pass_times i fs ?w1 ! k"
      using Cons.IH [of ?w1 k] Cons.prems f tick(6,7) Suc by simp
    with Suc tick(5) show ?thesis by (simp add: Let_def algebra_simps)
  qed
qed simp

lemma pass_times_length [simp]: "length (pass_times i fs w) = length fs"
  by (induction fs arbitrary: w) (simp_all add: Let_def)

lemma pass_times_gap:
  assumes "i < length (tickers w)" "0 < period (tickers w ! i)" "\<forall>f \<in> set fs. idles i f"
    and "k + n < length fs" "0 < n"
  shows "pass_times i fs w ! k + (int n - 1) * period (tickers w ! i) < pass_times i fs w ! (k + n)"
  using assms
proof (induction fs arbitrary: w k)
  case (Cons f fs)
  let ?w1 = "tick_recv i (f w)"
  have f: "i < length (tickers (f w))" "tickers (f w) ! i = tickers w ! i"
    using Cons.prems(1,3) unfolding idles_def by (simp_all, meson less_le_trans)
  with Cons.prems(2) have "0 < period (tickers (f w) ! i)" by simp
  note tick = tick_recv_facts [OF f(1) this, unfolded f(2)]
  have w1: "i < length (tickers ?w1)" "0 < period (tickers ?w1 ! i)" "\<forall>f \<in> set fs. idles i f"
    using Cons.prems f tick(6,7) by simp_all
  show ?case
  proof (cases k)
    case 0
    obtain j where n: "n = Suc j" using Cons.prems(5) by (cases n) auto
    have "next_tick (tickers ?w1 ! i) + int j * period (tickers ?w1 ! i) \<le> pass_times i fs ?w1 ! j"
      by (rule pass_times_lower [OF w1]) (use Cons.prems(4) 0 n in simp)
    with 0 n tick(3,6) show ?thesis by (simp add: Let_def)
  next
    case (Suc l)
    have "pass_times i fs ?w1 ! l + (int n - 1) * period (tickers ?w1 ! i) < pass_times i fs ?w1 ! (l + n)"
      by (rule Cons.IH [OF w1]) (use Cons.prems(4,5) Suc in simp_all)
    with Suc tick(6) show ?thesis by (simp add: Let_def)
  qed
qed simp

text \<open>From the gap: how many calls a window of a given length holds.\<close>

lemma window_count:
  assumes "a + (int n - 1) * d < b" "b < a + per" "0 < d" "0 < n"
  shows "int n \<le> (per - 2) div d + 1"
proof -
  have "(int n - 1) * d \<le> per - 2" using assms(1,2) by linarith
  then have "int n - 1 \<le> (per - 2) div d" using zdiv_mono1 [of "(int n - 1) * d" "per - 2" d] assms(3) by simp
  then show ?thesis by simp
qed

lemma window_count_exact:
  assumes "int n \<le> (max_n * d - 2) div d + 1" "0 < d"
  shows "int n \<le> max_n"
proof -
  have "(int n - 1) * d \<le> (max_n * d - 2) div d * d" using assms by (intro mult_right_mono) simp_all
  also have "\<dots> \<le> max_n * d - 2" using assms(2) by (simp add: minus_mod_eq_div_mult [symmetric])
  finally have "(int n - 1) * d < max_n * d" by simp
  then show ?thesis using assms(2) by (simp add: mult_less_cancel_right)
qed

text \<open>C34: \<open>Throttle(max, perDuration)\<close> panics when \<open>max\<close> is 0 or the interval \<open>perDuration / max\<close>, rounded
  towards zero, is not positive. Otherwise, however the calls are spaced, more than \<open>n - 1\<close> intervals lie
  between a call that passes and the \<open>n\<close>-th call after it. So within one \<open>perDuration\<close> at most \<open>max + 1\<close>
  calls pass if \<open>max\<close> divides \<open>perDuration\<close>. If it does not, the rounded interval is too short for that,
  and the bound is \<open>(perDuration - 2) / interval + 2\<close>.\<close>

theorem throttle_limits_rate:
  "case Throttle max_n per w of
     (Panic p, w') \<Rightarrow> w' = w \<and> (max_n = 0 \<or> trunc_div per max_n \<le> 0)
   | (Ret mw, w') \<Rightarrow> 0 < trunc_div per max_n \<and>
       (\<exists>i. (\<forall>next msg v. mw next msg v = next msg (tick_recv i v))
          \<and> (\<forall>fs k n. (\<forall>f \<in> set fs. idles i f) \<longrightarrow> k + n < length fs \<longrightarrow> 0 < n \<longrightarrow>
               pass_times i fs w' ! k + (int n - 1) * trunc_div per max_n < pass_times i fs w' ! (k + n)
             \<and> (pass_times i fs w' ! (k + n) < pass_times i fs w' ! k + per \<longrightarrow>
                  int n + 1 \<le> (per - 2) div trunc_div per max_n + 2
                \<and> (max_n dvd per \<longrightarrow> int n + 1 \<le> max_n + 1))))"
proof (cases "max_n = 0 \<or> trunc_div per max_n \<le> 0")
  case True
  then show ?thesis by (auto simp: Throttle_def NewTicker_def andThen_def)
next
  case False
  let ?d = "trunc_div per max_n"
  let ?i = "length (tickers w)"
  let ?w' = "w\<lparr>tickers := tickers w @ [\<lparr>period = ?d, next_tick = clock w + ?d\<rparr>]\<rparr>"
  have run: "Throttle max_n per w = (Ret (throttle_with ?i), ?w')"
    using False by (simp add: Throttle_def NewTicker_def andThen_def)
  have d: "0 < ?d" using False by simp
  have even: "per = max_n * ?d" if "max_n dvd per"
    using that False by (auto simp: trunc_div_def dvd_def abs_mult sgn_mult mult_sgn_abs sgn_if split: if_splits)
  have gap: "pass_times ?i fs ?w' ! k + (int n - 1) * ?d < pass_times ?i fs ?w' ! (k + n)"
    if "\<forall>f \<in> set fs. idles ?i f" "k + n < length fs" "0 < n" for fs k n
    using pass_times_gap [of ?i ?w' fs k n] that d by simp
  have "int n + 1 \<le> (per - 2) div ?d + 2 \<and> (max_n dvd per \<longrightarrow> int n + 1 \<le> max_n + 1)"
    if "\<forall>f \<in> set fs. idles ?i f" "k + n < length fs" "0 < n" "pass_times ?i fs ?w' ! (k + n) < pass_times ?i fs ?w' ! k + per" for fs k n
  proof -
    have count: "int n \<le> (per - 2) div ?d + 1" by (rule window_count [OF gap [OF that(1-3)] that(4) d that(3)])
    moreover have "int n \<le> max_n" if "max_n dvd per"
      by (rule window_count_exact [OF _ d]) (use count even [OF that] in simp)
    ultimately show ?thesis by simp
  qed
  with gap show ?thesis
    unfolding run using d by (auto simp: throttle_with_def intro!: exI [of _ ?i])
qed

theorem throttle_limits_rate_witness:
  "\<exists>mw w'. Throttle 2 10 (start_world ()) = (Ret mw, w')
     \<and> pass_times 0 [\<lambda>w. w, \<lambda>w. w, \<lambda>w. w] w' = [5, 10, 15]
     \<and> (\<exists>i. pass_times i [\<lambda>w. w, \<lambda>w. w, \<lambda>w. w] w' ! 0 + 5 < pass_times i [\<lambda>w. w, \<lambda>w. w, \<lambda>w. w] w' ! 2)"
proof -
  have d: "trunc_div 10 2 = 5" by (simp add: trunc_div_def)
  define w' :: "unit world" where "w' = (start_world ())\<lparr>tickers := [\<lparr>period = 5, next_tick = 5\<rparr>]\<rparr>"
  have run: "Throttle 2 10 (start_world ()) = (Ret (throttle_with 0), w')"
    by (simp add: Throttle_def NewTicker_def andThen_def d w'_def start_world_def)
  have times: "pass_times 0 [\<lambda>w. w, \<lambda>w. w, \<lambda>w. w] w' = [5, 10, 15]"
    by (simp add: w'_def tick_recv_def Let_def start_world_def)
  note rate = throttle_limits_rate [where max_n = 2 and per = 10 and w = "start_world ()", unfolded run d, simplified]
  then obtain i where gap: "\<And>fs k n. (\<forall>f \<in> set fs. idles i f) \<Longrightarrow> k + n < length fs \<Longrightarrow> 0 < n \<Longrightarrow>
      pass_times i fs w' ! k + (int n * 5 - 5) < pass_times i fs w' ! (k + n)"
    by blast
  define fs :: "(unit world \<Rightarrow> unit world) list" where "fs = [\<lambda>w. w, \<lambda>w. w, \<lambda>w. w]"
  have "\<forall>f \<in> set fs. idles i f" "0 + 2 < length fs" by (auto simp: fs_def idles_def)
  from gap [OF this] have "pass_times i fs w' ! 0 + 5 < pass_times i fs w' ! 2"
    by (simp add: numeral_2_eq_2)
  then show ?thesis unfolding fs_def [symmetric] using run times [folded fs_def] by blast
qed

text \<open>The bound is reached: a throttle of seven calls a second lets nine calls pass within a second, the
  first of them taking a tick that was waiting.\<close>

theorem throttle_seven_passes_nine:
  "\<exists>mw w' fs. Throttle 7 1000000000 (start_world ()) = (Ret mw, w') \<and> (\<forall>f \<in> set fs. idles 0 f) \<and> length fs = 9
     \<and> pass_times 0 fs w' ! 8 < pass_times 0 fs w' ! 0 + 1000000000"
proof -
  let ?late = "\<lambda>w :: unit world. w\<lparr>clock := max (clock w) 285714283\<rparr>" and ?d = "142857142 :: int"
  define state where "state c n = (start_world ())\<lparr>clock := c, tickers := [\<lparr>period = ?d, next_tick = n\<rparr>]\<rparr>" for c n
  have tick: "tick_recv 0 (state c n) = state (max c n) (n + ?d * ((max c n - n) div ?d + 1))"
    "clock (state c n) = c" "(state c n)\<lparr>clock := x\<rparr> = state x n" for c n x
    by (simp_all add: state_def tick_recv_def Let_def)
  have pass: "pass_times 0 (f # fs) w = clock (tick_recv 0 (f w)) # pass_times 0 fs (tick_recv 0 (f w))" for f fs and w :: "unit world"
    by (simp add: Let_def)
  have d: "trunc_div 1000000000 7 = ?d" by (simp add: trunc_div_def)
  let ?w' = "(start_world ())\<lparr>tickers := [\<lparr>period = ?d, next_tick = ?d\<rparr>]\<rparr>"
  have w': "?w' = state 0 ?d" by (simp add: state_def start_world_def)
  have "Throttle 7 1000000000 (start_world ()) = (Ret (throttle_with 0), ?w')"
    by (simp add: Throttle_def NewTicker_def andThen_def d start_world_def)
  moreover have "pass_times 0 (?late # replicate 8 (\<lambda>w. w)) ?w'
      = [285714283, 285714284, 428571426, 571428568, 714285710, 857142852, 999999994, 1142857136, 1285714278]"
    unfolding w' by (simp add: eval_nat_numeral pass tick del: pass_times.simps(2))
  ultimately show ?thesis
    by (intro exI [of _ "throttle_with 0"] exI [of _ ?w'] exI [of _ "?late # replicate 8 (\<lambda>w. w)"])
      (simp add: idles_def)
qed

end
