(* ===== verification/Router.thy ===== *)
theory Router
  imports Middleware
begin

text \<open>
  \<open>core/subscriber/router.go\<close>: the routing key generators, the options, the handler builders and
  the router. A builder is shared by reference between the router's map and the caller of
  \<open>AddHandler\<close>, and the map is shared by the copies of the router struct, so both live in a store.
  A nil handler is \<open>None\<close>.
\<close>

section \<open>State\<close>

type_synonym 'e key_generator = "addr \<Rightarrow> ('e, string) act"

record 'e builder =
  hb_handler :: "'e handler option"
  hb_mc :: "'e chain"

record router_options =
  ackOnUnknownRoute :: bool

record 'e rstore =
  route_maps :: "(string, nat) gomap list"
  builders :: "'e builder list"

record 'e router =
  generator :: "'e key_generator"
  routesByType :: nat
  defaultRoute :: "'e handler option"
  router_opts :: router_options

section \<open>Operations\<close>

definition RouteFromMetadataKey :: "(gval \<Rightarrow> string) \<Rightarrow> string \<Rightarrow> 'e key_generator" where
  "RouteFromMetadataKey fv metadataKey msg w =
     (let val = (case map_of (meta_of w msg) metadataKey of None \<Rightarrow> VNil | Some v \<Rightarrow> v)
      in (Ret (sprint_v fv val), w))"

definition WithAckOnUnknownRoute :: "router_options \<Rightarrow> router_options" where
  "WithAckOnUnknownRoute opts = opts\<lparr>ackOnUnknownRoute := True\<rparr>"

definition NewRouter ::
  "'e key_generator \<Rightarrow> (router_options \<Rightarrow> router_options) list \<Rightarrow> 'e rstore \<Rightarrow> 'e router \<times> 'e rstore"
where
  "NewRouter gen opts st =
     (let options = fold (\<lambda>opt o'. opt o') opts \<lparr>ackOnUnknownRoute = False\<rparr>
      in (\<lparr>generator = gen, routesByType = length (route_maps st), defaultRoute = None,
           router_opts = options\<rparr>,
          st\<lparr>route_maps := route_maps st @ [[]]\<rparr>))"

definition HandlerBuilder_AddMiddleware :: "nat \<Rightarrow> 'e middleware \<Rightarrow> 'e rstore \<Rightarrow> 'e rstore" where
  "HandlerBuilder_AddMiddleware hb m st =
     st\<lparr>builders := (builders st)[hb := (builders st ! hb)\<lparr>hb_mc := Add (hb_mc (builders st ! hb)) m\<rparr>]\<rparr>"

definition HandlerBuilder_Handle :: "nat \<Rightarrow> 'e handler option \<Rightarrow> 'e rstore \<Rightarrow> 'e rstore" where
  "HandlerBuilder_Handle hb handler st = st\<lparr>builders := (builders st)[hb := (builders st ! hb)\<lparr>hb_handler := handler\<rparr>]\<rparr>"

definition AddHandler :: "'e router \<Rightarrow> string \<Rightarrow> 'e rstore \<Rightarrow> nat \<times> 'e rstore" where
  "AddHandler d value st =
     (let builder = length (builders st); r = routesByType d
      in (builder,
          st\<lparr>builders := builders st @ [\<lparr>hb_handler = None, hb_mc = NewChain\<rparr>],
             route_maps := (route_maps st)[r := AList.update value builder (route_maps st ! r)]\<rparr>))"

definition AddDefaultHandler :: "'e router \<Rightarrow> 'e handler option \<Rightarrow> 'e router res" where
  "AddDefaultHandler d handler =
     (if defaultRoute d \<noteq> None then Panic (PVal (VString ''default handler already set''))
      else if ackOnUnknownRoute (router_opts d) then
        Panic (PVal (VString ''cannot set both AckOnUnknownRoute and a default handler''))
      else Ret (d\<lparr>defaultRoute := handler\<rparr>))"

definition no_route_panic :: "string \<Rightarrow> pval" where
  "no_route_panic routeKey = PVal (VString (''no handler found for route ['' @ routeKey
     @ ''], and no default route defined.''))"

definition HandlerFunc :: "'e rstore \<Rightarrow> 'e router \<Rightarrow> 'e handler" where
  "HandlerFunc st d msg =
     andThen (generator d msg) (\<lambda>routeKey.
       let fallback = (case defaultRoute d of
             Some h \<Rightarrow> h msg
           | None \<Rightarrow> if ackOnUnknownRoute (router_opts d) then (\<lambda>w. (Ret None, w))
                     else (\<lambda>w. (Panic (no_route_panic routeKey), w)))
       in case map_of (route_maps st ! routesByType d) routeKey of
            None \<Rightarrow> fallback
          | Some hb \<Rightarrow>
              (case hb_handler (builders st ! hb) of
                 None \<Rightarrow> fallback
               | Some h \<Rightarrow> Wrap (hb_mc (builders st ! hb)) h msg))"

lemmas router_defs = RouteFromMetadataKey_def NewRouter_def HandlerBuilder_AddMiddleware_def HandlerBuilder_Handle_def AddHandler_def
  AddDefaultHandler_def HandlerFunc_def

section \<open>The route table\<close>

text \<open>
  What the router holds for a key, and the usual way to fill it:
  \<open>router.AddHandler(key).AddMiddleware(m1)...AddMiddleware(mn).Handle(h)\<close>.
\<close>

definition route :: "'e router \<Rightarrow> 'e rstore \<Rightarrow> string \<Rightarrow> ('e middleware list \<times> 'e handler) option" where
  "route d st key =
     (case map_of (route_maps st ! routesByType d) key of
        None \<Rightarrow> None
      | Some hb \<Rightarrow> map_option (\<lambda>h. (middlewares (hb_mc (builders st ! hb)), h))
                      (hb_handler (builders st ! hb)))"

definition register ::
  "'e router \<Rightarrow> string \<Rightarrow> 'e middleware list \<times> 'e handler \<Rightarrow> 'e rstore \<Rightarrow> 'e rstore"
where
  "register d key r st =
     (case r of (ms, h) \<Rightarrow>
       let (hb, st1) = AddHandler d key st
       in HandlerBuilder_Handle hb (Some h) (fold (HandlerBuilder_AddMiddleware hb) ms st1))"

text \<open>The router's map exists and its builders do.\<close>

definition router_ok :: "'e router \<Rightarrow> 'e rstore \<Rightarrow> bool" where
  "router_ok d st \<longleftrightarrow> routesByType d < length (route_maps st)
     \<and> (\<forall>m \<in> set (route_maps st). \<forall>hb \<in> snd ` set m. hb < length (builders st))"

lemma AddMiddlewares_builders:
  "hb < length (builders st) \<Longrightarrow> fold (HandlerBuilder_AddMiddleware hb) ms st =
     st\<lparr>builders := (builders st)[hb := (builders st ! hb)\<lparr>hb_mc :=
        \<lparr>middlewares = middlewares (hb_mc (builders st ! hb)) @ ms\<rparr>\<rparr>]\<rparr>"
proof (induction ms arbitrary: st)
  case Nil
  have "(builders st ! hb)\<lparr>hb_mc := \<lparr>middlewares = middlewares (hb_mc (builders st ! hb))\<rparr>\<rparr>
      = builders st ! hb"
    by (rule builder.equality) (simp_all add: chain.equality)
  note same = this
  show ?case unfolding fold_simps id_apply append_Nil2 same list_update_id by simp
next
  case (Cons m ms)
  then show ?case by (simp add: HandlerBuilder_AddMiddleware_def)
qed

lemma register_unfold:
  "register d key (ms, h) st =
     st\<lparr>builders := builders st @ [\<lparr>hb_handler = Some h, hb_mc = \<lparr>middlewares = ms\<rparr>\<rparr>],
        route_maps := (route_maps st)[routesByType d :=
          AList.update key (length (builders st)) (route_maps st ! routesByType d)]\<rparr>"
  by (simp add: register_def AddHandler_def Let_def AddMiddlewares_builders HandlerBuilder_Handle_def NewChain_def)

lemma map_of_bound:
  "router_ok d st \<Longrightarrow> map_of (route_maps st ! routesByType d) key = Some hb \<Longrightarrow> hb < length (builders st)"
  by (force simp: router_ok_def dest: map_of_SomeD)

lemma route_register_same: "router_ok d st \<Longrightarrow> route d (register d key r st) key = Some r"
  by (cases r) (simp add: route_def register_unfold router_ok_def go_maps)

lemma route_register_other:
  assumes "router_ok d st" "key' \<noteq> key"
  shows "route d (register d key r st) key' = route d st key'"
proof (cases r)
  case (Pair ms h)
  have "routesByType d < length (route_maps st)" using assms(1) by (simp add: router_ok_def)
  then show ?thesis
    using assms(2) map_of_bound [OF assms(1), of key']
    by (auto simp: Pair route_def register_unfold go_maps nth_append split: option.split)
qed

lemma set_update_snd: "snd ` set (AList.update k v m) \<subseteq> insert v (snd ` set m)"
  by (induction m) auto

lemma router_ok_register:
  assumes "router_ok d st"
  shows "router_ok d (register d key r st)"
proof (cases r)
  case (Pair ms h)
  have "hb < Suc (length (builders st))"
    if "m = AList.update key (length (builders st)) (route_maps st ! routesByType d)" "hb \<in> snd ` set m" for m hb
    using that assms set_update_snd [of key "length (builders st)" "route_maps st ! routesByType d"]
    by (fastforce simp: router_ok_def)
  with assms show ?thesis
    by (fastforce simp: Pair router_ok_def register_unfold
        dest!: set_update_subset_insert [THEN subsetD])
qed

interpretation routes: keyed_store "\<lambda>st. route d st" "register d" "router_ok d" for d
  by unfold_locales (rule route_register_same route_register_other router_ok_register; assumption)+

lemma router_ok_New:
  "NewRouter gen opts \<lparr>route_maps = [], builders = []\<rparr> = (d, st) \<Longrightarrow> router_ok d st"
  by (auto simp: NewRouter_def router_ok_def Let_def)

lemma HandlerFunc_route:
  "HandlerFunc st d msg w =
     (case generator d msg w of
        (Panic p, w1) \<Rightarrow> (Panic p, w1)
      | (Ret key, w1) \<Rightarrow>
          (case route d st key of
             Some (ms, h) \<Rightarrow> Wrap \<lparr>middlewares = ms\<rparr> h msg w1
           | None \<Rightarrow>
               (case defaultRoute d of
                  Some h \<Rightarrow> h msg w1
                | None \<Rightarrow> if ackOnUnknownRoute (router_opts d) then (Ret None, w1)
                          else (Panic (no_route_panic key), w1))))"
  by (auto simp: HandlerFunc_def andThen_def route_def Let_def Wrap_foldr
      split: prod.split res.split option.split)

section \<open>Properties\<close>

lemma fold_WithAck:
  "(WithAckOnUnknownRoute ^^ n) o0 =
     (if n = 0 then o0 else o0\<lparr>ackOnUnknownRoute := True\<rparr>)"
  by (induction n arbitrary: o0) (simp_all add: WithAckOnUnknownRoute_def)

text \<open>C17: A router filled with any sequence of registrations (a key, its middlewares, its handler)
  delivers a message to the handler registered last under the message's routing key, inside that
  registration's middlewares in order. Without one the default handler gets it, else it is
  acked when the router was built so, else the router panics naming the key.\<close>

theorem router_delivers_to_last_registration:
  assumes "NewRouter gen (replicate n WithAckOnUnknownRoute) \<lparr>route_maps = [], builders = []\<rparr> = (d, st)"
  shows "HandlerFunc (fold (\<lambda>(key, r). register d key r) regs st) (d\<lparr>defaultRoute := dh\<rparr>) msg w =
    (case gen msg w of
       (Panic p, w1) \<Rightarrow> (Panic p, w1)
     | (Ret key, w1) \<Rightarrow>
         (case map_of (rev regs) key of
            Some (ms, h) \<Rightarrow> foldr (\<lambda>m inner. m inner) ms h msg w1
          | None \<Rightarrow>
              (case dh of
                 Some h \<Rightarrow> h msg w1
               | None \<Rightarrow> if 0 < n then (Ret None, w1) else (Panic (no_route_panic key), w1))))"
proof -
  let ?d = "d\<lparr>defaultRoute := dh\<rparr>"
  have ok: "router_ok d st" using assms by (rule router_ok_New)
  have gen: "generator ?d = gen" "defaultRoute ?d = dh" "ackOnUnknownRoute (router_opts ?d) = (0 < n)"
    and none: "route d st key = None" for key
    using assms by (auto simp: NewRouter_def Let_def route_def fold_WithAck split: if_splits)
  have "route ?d (fold (\<lambda>(key, r). register d key r) regs st) key = map_of (rev regs) key" for key
    using routes.get_puts [OF ok, of regs key] none [of key]
    by (simp add: route_def split: option.splits)
  with gen show ?thesis
    by (auto simp: HandlerFunc_route Wrap_foldr split: prod.split res.split option.split)
qed

theorem router_delivers_to_last_registration_witness:
  "let (d, st) = NewRouter (RouteFromMetadataKey (\<lambda>_. []) ''type'') [] \<lparr>route_maps = [], builders = []\<rparr>;
       h = (\<lambda>r m w. (Ret (Some (ErrNew r)), w));
       st' = fold (\<lambda>(key, r). register d key r) [(''a'', [], h ''1''), (''b'', [], h ''2''), (''a'', [], h ''3'')] st;
       w = snd (WithMetadata 0 ''type'' (VString ''a'') (snd (NewMessage Background VNil (start_world ()))))
   in fst (HandlerFunc st' (d\<lparr>defaultRoute := None\<rparr>) 0 w) = Ret (Some (ErrNew ''3''))"
proof -
  define w where "w = snd (WithMetadata 0 ''type'' (VString ''a'')
      (snd (NewMessage Background VNil (start_world ()))))"
  have key: "RouteFromMetadataKey (\<lambda>_. []) ''type'' 0 w = (Ret ''a'', w)"
    by (simp add: w_def RouteFromMetadataKey_def message_defs world_defs start_world_def
        andThen_def map_assign_def)
  obtain d :: "unit router" and st where new: "NewRouter (RouteFromMetadataKey (\<lambda>_. []) ''type'') []
      \<lparr>route_maps = [], builders = []\<rparr> = (d, st)" by fastforce
  then have new0: "NewRouter (RouteFromMetadataKey (\<lambda>_. []) ''type'') (replicate 0 WithAckOnUnknownRoute)
      \<lparr>route_maps = [], builders = []\<rparr> = (d, st)" by simp
  show ?thesis
    unfolding Let_def new prod.case w_def [symmetric] router_delivers_to_last_registration [OF new0]
    by (simp add: key)
qed

text \<open>A message without the routing key in its metadata, or with a nil metadata map, is not
  routed to the default handler as such: its key is the text of a nil value, so a handler
  registered under that text gets it.\<close>

theorem missing_key_routes_as_nil:
  assumes "NewRouter (RouteFromMetadataKey fv k) [] \<lparr>route_maps = [], builders = []\<rparr> = (d, st)"
    and "map_of (meta_of w msg) k = None"
  shows "HandlerFunc (register d ''<nil>'' (ms, h) st) d msg w = foldr (\<lambda>m inner. m inner) ms h msg w"
proof -
  have ok: "router_ok d st" using assms(1) by (rule router_ok_New)
  have "generator d = RouteFromMetadataKey fv k" using assms(1) by (auto simp: NewRouter_def Let_def)
  moreover have "RouteFromMetadataKey fv k msg w = (Ret ''<nil>'', w)"
    by (simp add: RouteFromMetadataKey_def assms(2))
  ultimately show ?thesis by (simp add: HandlerFunc_route route_register_same [OF ok] Wrap_foldr)
qed

theorem missing_key_routes_as_nil_witness:
  "let (d, st) = NewRouter (RouteFromMetadataKey (\<lambda>_. []) ''type'') [] \<lparr>route_maps = [], builders = []\<rparr>;
       w = snd (NewMessage Background VNil (start_world ()))
   in fst (HandlerFunc (register d ''<nil>'' ([], \<lambda>m w. (Ret None, w)) st) d 0 w) = Ret None"
proof -
  define w where "w = snd (NewMessage Background VNil (start_world ()))"
  have none: "map_of (meta_of w 0) ''type'' = None"
    by (simp add: w_def message_defs world_defs start_world_def)
  obtain d :: "unit router" and st where new: "NewRouter (RouteFromMetadataKey (\<lambda>_. []) ''type'') []
      \<lparr>route_maps = [], builders = []\<rparr> = (d, st)" by fastforce
  show ?thesis
    unfolding Let_def new prod.case w_def [symmetric] missing_key_routes_as_nil [OF new none] by simp
qed

end
