(* ===== verification/Engines.thy ===== *)
theory Engines
  imports Router
begin

text \<open>
  \<open>core/publisher/engine.go\<close> and \<open>core/subscriber/engine.go\<close>. The mutex of an engine makes each
  operation up to the call of the handler one step, so an engine is a value its operations
  return updated. The publisher of a publishing engine is its \<open>Publish\<close> function, the subscriber
  of a subscription engine its \<open>Receive\<close> function. A subscription engine holds a copy of the
  router struct, and its handler reads the shared route store when a message arrives.
\<close>

section \<open>Publishing engine\<close>

record 'e publishing_engine =
  pe_pub :: "'e handler"
  pe_mc :: "'e chain"
  pe_handlerFn :: "'e handler option"

definition NewPublishingEngine :: "'e handler \<Rightarrow> 'e publishing_engine" where
  "NewPublishingEngine pub = \<lparr>pe_pub = pub, pe_mc = NewChain, pe_handlerFn = None\<rparr>"

definition add_after_publish :: pval where
  "add_after_publish = PVal (VString ''cannot add middleware after publishing has started'')"

definition PublishingEngine_AddMiddleware ::
  "'e publishing_engine \<Rightarrow> 'e middleware \<Rightarrow> unit res \<times> 'e publishing_engine"
where
  "PublishingEngine_AddMiddleware p m =
     (if pe_handlerFn p \<noteq> None then (Panic add_after_publish, p)
      else (Ret (), p\<lparr>pe_mc := Add (pe_mc p) m\<rparr>))"

definition PublishingEngine_Publish ::
  "'e publishing_engine \<Rightarrow> addr \<Rightarrow> 'e world \<Rightarrow> (gerr option res \<times> 'e world) \<times> 'e publishing_engine"
where
  "PublishingEngine_Publish p msg w =
     (let p1 = (case pe_handlerFn p of
                  None \<Rightarrow> p\<lparr>pe_handlerFn := Some (Wrap (pe_mc p) (\<lambda>msg. pe_pub p msg))\<rparr>
                | Some h \<Rightarrow> p)
      in (case pe_handlerFn p1 of
            None \<Rightarrow> (Panic nil_deref_panic, w)
          | Some handlerFn \<Rightarrow> handlerFn msg w, p1))"

text \<open>A sequence of uses of one engine, and what each use returned.\<close>

datatype 'e pub_use = UseAdd "'e middleware" | UsePublish addr

fun pe_uses ::
  "'e pub_use list \<Rightarrow> 'e publishing_engine \<Rightarrow> 'e world \<Rightarrow> gerr option res list \<times> 'e world"
where
  "pe_uses [] p w = ([], w)"
| "pe_uses (UseAdd m # us) p w =
     (let (r, p1) = PublishingEngine_AddMiddleware p m;
          (rs, w') = pe_uses us p1 w
      in ((case r of Ret _ \<Rightarrow> Ret None | Panic q \<Rightarrow> Panic q) # rs, w'))"
| "pe_uses (UsePublish msg # us) p w =
     (let ((r, w1), p1) = PublishingEngine_Publish p msg w;
          (rs, w') = pe_uses us p1 w1
      in (r # rs, w'))"

text \<open>The specification: one fixed handler, and middlewares that are refused.\<close>

fun fixed_uses :: "'e handler \<Rightarrow> 'e pub_use list \<Rightarrow> 'e world \<Rightarrow> gerr option res list \<times> 'e world" where
  "fixed_uses h [] w = ([], w)"
| "fixed_uses h (UseAdd m # us) w =
     (let (rs, w') = fixed_uses h us w in (Panic add_after_publish # rs, w'))"
| "fixed_uses h (UsePublish msg # us) w =
     (let (r, w1) = h msg w; (rs, w') = fixed_uses h us w1 in (r # rs, w'))"

lemma pe_uses_started:
  "pe_handlerFn p = Some h \<Longrightarrow> pe_uses us p w = fixed_uses h us w"
proof (induction us arbitrary: w)
  case (Cons u us)
  then show ?case
    by (cases u) (simp_all add: PublishingEngine_AddMiddleware_def PublishingEngine_Publish_def
        split: prod.split)
qed simp

lemma pe_uses_adds:
  "pe_handlerFn p = None \<Longrightarrow> pe_uses (map UseAdd ms @ us) p w =
     (let (rs, w') = pe_uses us (p\<lparr>pe_mc := foldl Add (pe_mc p) ms\<rparr>) w
      in (replicate (length ms) (Ret None) @ rs, w'))"
proof (induction ms arbitrary: p)
  case (Cons m ms)
  then show ?case
    by (simp add: PublishingEngine_AddMiddleware_def split: prod.split)
qed simp

text \<open>C27: The engine freezes on its first publish. Whatever the uses that follow, it behaves as
  the one handler made of the middlewares added before (first added outermost) around the
  publisher, and every later attempt to add a middleware panics and has no effect.\<close>

theorem publishing_engine_freezes:
  "pe_uses (map UseAdd ms @ UsePublish msg # us) (NewPublishingEngine pub) w =
     (let (rs, w') = fixed_uses (foldr (\<lambda>m inner. m inner) ms pub) (UsePublish msg # us) w
      in (replicate (length ms) (Ret None) @ rs, w'))"
proof -
  let ?p = "(NewPublishingEngine pub)\<lparr>pe_mc := foldl Add NewChain ms\<rparr>"
  let ?h = "foldr (\<lambda>m inner. m inner) ms pub"
  have "pe_uses (UsePublish msg # us) ?p w = fixed_uses ?h (UsePublish msg # us) w"
    by (simp add: PublishingEngine_Publish_def NewPublishingEngine_def pe_uses_started Wrap_foldr
        foldl_Add NewChain_def split: prod.split)
  then show ?thesis
    by (simp add: pe_uses_adds NewPublishingEngine_def del: pe_uses.simps fixed_uses.simps)
qed

section \<open>Subscription engine\<close>

record 'e subscription_engine =
  se_Receive :: "ctx \<Rightarrow> ('e rstore \<Rightarrow> 'e handler) \<Rightarrow> ('e, gerr option) act"
  se_router :: "'e router"
  se_mc :: "'e chain"
  se_handlerFn :: "('e rstore \<Rightarrow> 'e handler) option"

definition NewSubscriptionEngine ::
  "(ctx \<Rightarrow> ('e rstore \<Rightarrow> 'e handler) \<Rightarrow> ('e, gerr option) act) \<Rightarrow> 'e router \<Rightarrow> 'e subscription_engine"
where
  "NewSubscriptionEngine sub router =
     \<lparr>se_Receive = sub, se_router = router, se_mc = NewChain, se_handlerFn = None\<rparr>"

definition SubscriptionEngine_AddMiddleware ::
  "'e subscription_engine \<Rightarrow> 'e middleware \<Rightarrow> unit res \<times> 'e subscription_engine"
where
  "SubscriptionEngine_AddMiddleware p m =
     (if se_handlerFn p \<noteq> None then
        (Panic (PVal (VString ''cannot add middleware after subscription has started'')), p)
      else (Ret (), p\<lparr>se_mc := Add (se_mc p) m\<rparr>))"

definition Start ::
  "'e subscription_engine \<Rightarrow> ctx \<Rightarrow> 'e world \<Rightarrow> (gerr option res \<times> 'e world) \<times> 'e subscription_engine"
where
  "Start e c w =
     (if se_handlerFn e \<noteq> None then
        ((Panic (PVal (VString ''cannot start subscription engine twice'')), w), e)
      else
        let handlerFn = (\<lambda>st. Wrap (se_mc e) (HandlerFunc st (se_router e)))
        in (se_Receive e c handlerFn w, e\<lparr>se_handlerFn := Some handlerFn\<rparr>))"

definition add_all :: "'e subscription_engine \<Rightarrow> 'e middleware list \<Rightarrow> 'e subscription_engine" where
  "add_all e ms = foldl (\<lambda>e m. snd (SubscriptionEngine_AddMiddleware e m)) e ms"

lemma add_all_fresh:
  "se_handlerFn e = None \<Longrightarrow> add_all e ms = e\<lparr>se_mc := foldl Add (se_mc e) ms\<rparr>"
  unfolding add_all_def
  by (induction ms arbitrary: e) (simp_all add: SubscriptionEngine_AddMiddleware_def)

text \<open>Starting an engine hands \<open>Receive\<close> the engine's middlewares around the router's handler
  and freezes it: a second start panics without receiving, and a later middleware panics. The
  engine works on its own copy of the router struct: a route registered on the original router
  after the engine was built is served, a default handler set on it is not (an unrouted message
  still panics).\<close>

theorem subscription_engine_starts_once:
  assumes "NewRouter gen [] \<lparr>route_maps = [], builders = []\<rparr> = (d, st)"
    and "e = add_all (NewSubscriptionEngine sub d) ms" "Start e c w = (out, e1)"
    and "AddDefaultHandler d (Some dh) = Ret d1"
    and "gen msg v = (Ret key, v1)" "key' \<noteq> key"
  shows "out = sub c (\<lambda>st'. foldr (\<lambda>m inner. m inner) ms (HandlerFunc st' d)) w
    \<and> Start e1 c' w' = ((Panic (PVal (VString ''cannot start subscription engine twice'')), w'), e1)
    \<and> SubscriptionEngine_AddMiddleware e1 m
        = (Panic (PVal (VString ''cannot add middleware after subscription has started'')), e1)
    \<and> HandlerFunc (register d1 key (rms, h) st) (se_router e1) msg v = foldr (\<lambda>m inner. m inner) rms h msg v1
    \<and> HandlerFunc (register d1 key' (rms, h) st) d1 msg v = dh msg v1
    \<and> HandlerFunc (register d1 key' (rms, h) st) (se_router e1) msg v = (Panic (no_route_panic key), v1)"
proof -
  have ok: "router_ok d st" using assms(1) by (rule router_ok_New)
  have e: "e = (NewSubscriptionEngine sub d)\<lparr>se_mc := foldl Add NewChain ms\<rparr>"
    using assms(2) by (simp add: add_all_fresh NewSubscriptionEngine_def)
  have wrap: "Wrap (foldl Add NewChain ms) x = foldr (\<lambda>m inner. m inner) ms x" for x
    by (simp add: Wrap_foldr foldl_Add NewChain_def)
  from assms(3) have start: "out = sub c (\<lambda>st'. foldr (\<lambda>m inner. m inner) ms (HandlerFunc st' d)) w"
    "se_handlerFn e1 \<noteq> None" "se_router e1 = d"
    by (auto simp: Start_def e NewSubscriptionEngine_def wrap Let_def)
  from assms(1) have d: "generator d = gen" "defaultRoute d = None"
    "\<not> ackOnUnknownRoute (router_opts d)" "route d st k = None" for k
    by (auto simp: NewRouter_def Let_def route_def)
  from assms(4) d have d1: "d1 = d\<lparr>defaultRoute := Some dh\<rparr>" by (simp add: AddDefaultHandler_def)
  have reg: "register d1 k r st = register d k r st" for k r
    by (cases r) (simp add: register_unfold d1)
  have "generator d1 = gen" "defaultRoute d1 = Some dh" "route d1 st' = route d st'" for st'
    by (simp_all add: route_def d1 d fun_eq_iff)
  with start d assms(5,6) show ?thesis
    by (simp add: Start_def SubscriptionEngine_AddMiddleware_def HandlerFunc_route reg
        route_register_same [OF ok] route_register_other [OF ok] Wrap_foldr)
qed

theorem subscription_engine_starts_once_witness:
  "let (d, st) = NewRouter (\<lambda>m (w :: unit world). (Ret ''k'', w)) [] \<lparr>route_maps = [], builders = []\<rparr>;
       e = NewSubscriptionEngine (\<lambda>c h w. (Ret None, w)) d;
       e1 = snd (Start e Background (start_world ()))
   in fst (fst (Start e Background (start_world ()))) = Ret None
      \<and> fst (fst (Start e1 Background (start_world ())))
          = Panic (PVal (VString ''cannot start subscription engine twice''))"
proof -
  obtain d st where new: "NewRouter (\<lambda>m (w :: unit world). (Ret ''k'', w)) []
      \<lparr>route_maps = [], builders = []\<rparr> = (d, st)" by fastforce
  define e where "e = NewSubscriptionEngine (\<lambda>c h (w :: unit world). (Ret None, w)) d"
  then have e: "e = add_all (NewSubscriptionEngine (\<lambda>c h w. (Ret None, w)) d) []"
    by (simp add: add_all_def)
  obtain out e1 where run: "Start e Background (start_world ()) = (out, e1)" by fastforce
  from new have dh: "AddDefaultHandler d (Some (\<lambda>m w. (Ret None, w)))
      = Ret (d\<lparr>defaultRoute := Some (\<lambda>m w. (Ret None, w))\<rparr>)"
    by (auto simp: NewRouter_def Let_def AddDefaultHandler_def)
  note once = subscription_engine_starts_once [OF new e run dh refl, of "''j''"]
  show ?thesis
    unfolding Let_def new prod.case e_def [symmetric] run snd_conv fst_conv
    using once by simp
qed

end
