(* ===== verification/Message_Publisher.thy ===== *)
theory Message_Publisher
  imports Middleware
begin

text \<open>
  \<open>core/publisher/publisher.go\<close>: the routing helpers and \<open>MessagePublisher\<close>, the helper every
  broker's publisher is built from. The functions given to it and the destination publishers it
  caches are arguments of the definitions (two records of functions), the fields it mutates are
  a record threaded through. A lock section is one step; \<open>getPublisher\<close> is split at the point
  where it gives up the read lock, so that \<open>Publisher_Concurrency\<close> can interleave the parts.
  The pointer to the broker's message is owned by one publish, so it is threaded as a value.
\<close>

section \<open>Routing and option helpers\<close>

type_synonym 'e routing_func = "addr \<Rightarrow> ('e, gerr + string) act"

definition ConstantDestination :: "string \<Rightarrow> 'e routing_func" where
  "ConstantDestination d msg w = (Ret (Inr d), w)"

definition ConstantBoolMsgFn :: "bool \<Rightarrow> addr \<Rightarrow> ('e, gerr + bool) act" where
  "ConstantBoolMsgFn value msg w = (Ret (Inr value), w)"

definition ConstantStringMsgFn :: "string \<Rightarrow> addr \<Rightarrow> ('e, gerr + string) act" where
  "ConstantStringMsgFn s msg w = (Ret (Inr s), w)"

definition ConstantIntMsgFn :: "64 word \<Rightarrow> addr \<Rightarrow> ('e, gerr + 64 word) act" where
  "ConstantIntMsgFn i msg w = (Ret (Inr i), w)"

section \<open>State and interfaces\<close>

definition ErrClosed :: gerr where
  "ErrClosed = ErrVar ''publisher.ErrClosed''"

text \<open>\<open>MessagesPublisherImpl[T]\<close>, the operations of a destination publisher.\<close>

record ('t, 'p, 'e) impl =
  impl_Publish :: "'p \<Rightarrow> ctx \<Rightarrow> 't \<Rightarrow> ('e, gerr option \<times> 't) act"
  GetMessageID :: "'p \<Rightarrow> 't \<Rightarrow> string"
  impl_Close :: "'p \<Rightarrow> ('e, gerr option) act"

text \<open>The exported fields of \<open>MessagePublisher[T]\<close>.\<close>

record ('t, 'p, 'e) mp_config =
  RoutingFunc :: "'e routing_func"
  MessageMarshaller :: "addr \<Rightarrow> ('e, gerr + 't) act"
  GetDestinationPublisher :: "string \<Rightarrow> ('e, gerr + 'p) act"

text \<open>Its private fields; \<open>None\<close> is the nil map.\<close>

record 'p mp_state =
  publishers :: "(string, 'p) gomap option"
  closed :: bool

definition mp_zero :: "'p mp_state" where
  "mp_zero = \<lparr>publishers = None, closed = False\<rparr>"

definition cached :: "'p mp_state \<Rightarrow> string \<Rightarrow> 'p option" where
  "cached s dest = (case publishers s of None \<Rightarrow> None | Some m \<Rightarrow> map_of m dest)"

section \<open>Operations\<close>

text \<open>The section under the read lock: the answer, or \<open>None\<close> to go on to the write lock.\<close>

definition gp_read :: "'p mp_state \<Rightarrow> string \<Rightarrow> (gerr + 'p) option" where
  "gp_read s dest =
     (let was_closed = closed s; pub = cached s dest
      in if was_closed then Some (Inl ErrClosed)
         else case pub of Some p \<Rightarrow> Some (Inr p) | None \<Rightarrow> None)"

text \<open>The section under the write lock, with its second look at the state.\<close>

definition gp_write ::
  "('t, 'p, 'e) mp_config \<Rightarrow> string \<Rightarrow> 'p mp_state \<Rightarrow> 'e world \<Rightarrow> ((gerr + 'p) res \<times> 'e world) \<times> 'p mp_state"
where
  "gp_write cfg dest s w =
     (if closed s then ((Ret (Inl ErrClosed), w), s)
      else case cached s dest of
        Some p \<Rightarrow> ((Ret (Inr p), w), s)
      | None \<Rightarrow>
          (case GetDestinationPublisher cfg dest w of
             (Panic q, w1) \<Rightarrow> ((Panic q, w1), s)
           | (Ret (Inl e), w1) \<Rightarrow> ((Ret (Inl e), w1), s)
           | (Ret (Inr p), w1) \<Rightarrow>
               (let m = (case publishers s of None \<Rightarrow> [] | Some m \<Rightarrow> m)
                in ((Ret (Inr p), w1), s\<lparr>publishers := Some (AList.update dest p m)\<rparr>))))"

definition getPublisher ::
  "('t, 'p, 'e) mp_config \<Rightarrow> string \<Rightarrow> 'p mp_state \<Rightarrow> 'e world \<Rightarrow> ((gerr + 'p) res \<times> 'e world) \<times> 'p mp_state"
where
  "getPublisher cfg dest s w =
     (case gp_read s dest of
        Some r \<Rightarrow> ((Ret r, w), s)
      | None \<Rightarrow> gp_write cfg dest s w)"

text \<open>The part of \<open>Publish\<close> after the destination publisher is known.\<close>

definition publish_to ::
  "('t, 'p, 'e) mp_config \<Rightarrow> ('t, 'p, 'e) impl \<Rightarrow> addr \<Rightarrow> 'p \<Rightarrow> ('e, gerr option) act"
where
  "publish_to cfg I message pub =
     andThen (MessageMarshaller cfg message) (\<lambda>m.
       case m of
         Inl e \<Rightarrow> (\<lambda>w. (Ret (Some e), w))
       | Inr msgImpl \<Rightarrow>
           (\<lambda>w. andThen (impl_Publish I pub (Context w message) msgImpl) (\<lambda>(err, msgImpl') w1.
              case err of
                Some e \<Rightarrow> (Ret (Some e), w1)
              | None \<Rightarrow>
                  (let i = GetMessageID I pub msgImpl'
                   in (Ret None, if i \<noteq> [] then upd_msg message (\<lambda>m. m\<lparr>ID := i\<rparr>) w1 else w1))) w))"

definition MessagePublisher_Publish ::
  "('t, 'p, 'e) mp_config \<Rightarrow> ('t, 'p, 'e) impl \<Rightarrow> addr \<Rightarrow> 'p mp_state \<Rightarrow> 'e world
     \<Rightarrow> (gerr option res \<times> 'e world) \<times> 'p mp_state"
where
  "MessagePublisher_Publish cfg I message s w =
     (case RoutingFunc cfg message w of
        (Panic q, w1) \<Rightarrow> ((Panic q, w1), s)
      | (Ret (Inl e), w1) \<Rightarrow> ((Ret (Some e), w1), s)
      | (Ret (Inr destName), w1) \<Rightarrow>
          (case getPublisher cfg destName s w1 of
             ((Panic q, w2), s1) \<Rightarrow> ((Panic q, w2), s1)
           | ((Ret (Inl e), w2), s1) \<Rightarrow> ((Ret (Some e), w2), s1)
           | ((Ret (Inr pub), w2), s1) \<Rightarrow> (publish_to cfg I message pub w2, s1)))"

text \<open>The loop of \<open>Close\<close>: every publisher is closed, the errors are collected.\<close>

fun close_all :: "('t, 'p, 'e) impl \<Rightarrow> (string, 'p) gomap \<Rightarrow> gerr list \<Rightarrow> ('e, gerr list) act" where
  "close_all I [] errs w = (Ret errs, w)"
| "close_all I ((_, pub) # m) errs w =
     (case impl_Close I pub w of
        (Panic q, w1) \<Rightarrow> (Panic q, w1)
      | (Ret (Some e), w1) \<Rightarrow> close_all I m (errs @ [e]) w1
      | (Ret None, w1) \<Rightarrow> close_all I m errs w1)"

definition MessagePublisher_Close ::
  "('t, 'p, 'e) impl \<Rightarrow> 'p mp_state \<Rightarrow> 'e world \<Rightarrow> (gerr option res \<times> 'e world) \<times> 'p mp_state"
where
  "MessagePublisher_Close I s w =
     (if closed s then ((Ret None, w), s)
      else
        let s1 = s\<lparr>closed := True\<rparr>;
            m = (case publishers s of None \<Rightarrow> [] | Some m \<Rightarrow> m)
        in case close_all I m [] w of
             (Panic q, w1) \<Rightarrow> ((Panic q, w1), s1)
           | (Ret errs, w1) \<Rightarrow> ((Ret (errors_Join errs), w1), s1\<lparr>publishers := None\<rparr>))"

lemmas mp_defs = gp_read_def gp_write_def getPublisher_def MessagePublisher_Publish_def

section \<open>The cache of destination publishers\<close>

text \<open>Storing a fresh destination publisher, as \<open>gp_write\<close> does.\<close>

definition cache_put :: "string \<Rightarrow> 'p \<Rightarrow> 'p mp_state \<Rightarrow> 'p mp_state" where
  "cache_put dest p s =
     s\<lparr>publishers := Some (AList.update dest p (case publishers s of None \<Rightarrow> [] | Some m \<Rightarrow> m))\<rparr>"

definition cache_ok :: "'p mp_state \<Rightarrow> bool" where
  "cache_ok s \<longleftrightarrow> (case publishers s of None \<Rightarrow> True | Some m \<Rightarrow> wf_map m)"

interpretation cache: keyed_store cached cache_put cache_ok
  by unfold_locales (auto simp: cached_def cache_put_def cache_ok_def go_maps split: option.splits)

lemma cache_put_closed [simp]: "closed (cache_put d p s) = closed s"
  by (simp add: cache_put_def)

lemma cache_ok_zero [simp]: "cache_ok mp_zero"
  by (simp add: cache_ok_def mp_zero_def)

lemma cached_zero [simp]: "cached mp_zero d = None"
  by (simp add: cached_def mp_zero_def)

lemma gp_write_put:
  "gp_write cfg dest s w =
     (if closed s then ((Ret (Inl ErrClosed), w), s)
      else case cached s dest of
        Some p \<Rightarrow> ((Ret (Inr p), w), s)
      | None \<Rightarrow> (case GetDestinationPublisher cfg dest w of
          (Ret (Inr p), w1) \<Rightarrow> ((Ret (Inr p), w1), cache_put dest p s)
        | r \<Rightarrow> (r, s)))"
  by (auto simp: gp_write_def cache_put_def Let_def
      split: option.splits prod.splits res.splits sum.splits)

text \<open>On one thread the second look never differs from the first.\<close>

lemma getPublisher_write: "getPublisher cfg dest s w = gp_write cfg dest s w"
  by (auto simp: mp_defs Let_def split: option.splits)

lemma getPublisher_closed: "closed s \<Longrightarrow> getPublisher cfg dest s w = ((Ret (Inl ErrClosed), w), s)"
  by (simp add: getPublisher_write gp_write_put)

lemma getPublisher_cached:
  "\<not> closed s \<Longrightarrow> cached s dest = Some p \<Longrightarrow> getPublisher cfg dest s w = ((Ret (Inr p), w), s)"
  by (simp add: getPublisher_write gp_write_put)

lemma getPublisher_keeps:
  assumes "getPublisher cfg dest s w = ((r, w1), s1)" "cache_ok s"
  shows "cache_ok s1" "closed s1 = closed s" "\<And>d p. cached s d = Some p \<Longrightarrow> cached s1 d = Some p"
    "\<And>p. r = Ret (Inr p) \<Longrightarrow> cached s1 dest = Some p"
  using assms
  by (auto simp: getPublisher_write gp_write_put cache.put_keeps cache.get_put_same
      cache.get_put_other split: option.splits prod.splits res.splits sum.splits if_splits)
    (metis cache.get_put_other option.distinct(1))+

section \<open>Properties\<close>

lemma publish_to_unfold:
  "publish_to cfg I message pub w =
     (case MessageMarshaller cfg message w of
        (Panic q, w1) \<Rightarrow> (Panic q, w1)
      | (Ret (Inl e), w1) \<Rightarrow> (Ret (Some e), w1)
      | (Ret (Inr t), w1) \<Rightarrow>
          (case impl_Publish I pub (Context w1 message) t w1 of
             (Panic q, w2) \<Rightarrow> (Panic q, w2)
           | (Ret (Some e, t'), w2) \<Rightarrow> (Ret (Some e), w2)
           | (Ret (None, t'), w2) \<Rightarrow>
               (Ret None, if GetMessageID I pub t' \<noteq> []
                          then upd_msg message (\<lambda>m. m\<lparr>ID := GetMessageID I pub t'\<rparr>) w2 else w2)))"
  by (auto simp: publish_to_def andThen_def Let_def split: prod.split res.split sum.split option.split)

text \<open>C15: A publish that returns nil went through every stage in order: the routing function named
  a destination, the open publisher had (or created and cached) the destination's publisher, the
  message was marshalled, and that destination publisher sent the result under the message's
  context; only then is the message's ID replaced, by the broker's ID if that is not empty.\<close>

theorem publish_success_stages:
  assumes "MessagePublisher_Publish cfg I message s w = ((Ret None, w'), s')" "cache_ok s"
  shows "\<exists>dest w1 pub w2 t w3 t' w4.
      RoutingFunc cfg message w = (Ret (Inr dest), w1)
    \<and> getPublisher cfg dest s w1 = ((Ret (Inr pub), w2), s')
    \<and> cached s' dest = Some pub \<and> \<not> closed s'
    \<and> MessageMarshaller cfg message w2 = (Ret (Inr t), w3)
    \<and> impl_Publish I pub (Context w3 message) t w3 = (Ret (None, t'), w4)
    \<and> w' = (if GetMessageID I pub t' = [] then w4
            else upd_msg message (\<lambda>m. m\<lparr>ID := GetMessageID I pub t'\<rparr>) w4)"
proof -
  obtain dest w1 pub w2 where route: "RoutingFunc cfg message w = (Ret (Inr dest), w1)"
    and get: "getPublisher cfg dest s w1 = ((Ret (Inr pub), w2), s')"
    and send: "publish_to cfg I message pub w2 = (Ret None, w')"
    using assms(1) unfolding MessagePublisher_Publish_def
    by (auto split: prod.splits res.splits sum.splits)
  have "\<not> closed s" using get by (auto simp: getPublisher_closed)
  with getPublisher_keeps [OF get assms(2)] have "cached s' dest = Some pub" "\<not> closed s'" by simp_all
  with route get send show ?thesis
    unfolding publish_to_unfold
    by (fastforce split: prod.splits res.splits sum.splits option.splits if_splits)
qed

text \<open>A small configuration for the witnesses: one destination, publishers named by it.\<close>

definition demo_cfg :: "(gval, string, string list) mp_config" where
  "demo_cfg = \<lparr>RoutingFunc = ConstantDestination ''q'', MessageMarshaller = (\<lambda>m w. (Ret (Inr (Payload (get_msg w m))), w)),
               GetDestinationPublisher = (\<lambda>d w. (Ret (Inr d), w))\<rparr>"

definition demo_impl :: "gerr option \<Rightarrow> (gval, string, string list) impl" where
  "demo_impl err = \<lparr>impl_Publish = (\<lambda>p c t w. (Ret (err, t), w)), GetMessageID = (\<lambda>p t. ''id''),
                    impl_Close = (\<lambda>p w. (Ret err, w\<lparr>env := env w @ [p]\<rparr>))\<rparr>"

lemmas demo_defs = demo_cfg_def demo_impl_def ConstantDestination_def

theorem publish_success_stages_witness:
  "let w = snd (NewMessage Background VNil (start_world []));
       ((r, w'), s') = MessagePublisher_Publish demo_cfg (demo_impl None) 0 mp_zero w
   in r = Ret None \<and> cached s' ''q'' = Some ''q'' \<and> ID (get_msg w' 0) = ''id''"
proof -
  define w where "w = snd (NewMessage Background VNil (start_world ([] :: string list)))"
  then have valid: "valid_msg w 0" by (simp add: message_defs world_defs start_world_def)
  define s' where "s' = cache_put ''q'' ''q'' mp_zero"
  define w' where "w' = upd_msg 0 (\<lambda>m. m\<lparr>ID := ''id''\<rparr>) w"
  have run: "MessagePublisher_Publish demo_cfg (demo_impl None) 0 mp_zero w = ((Ret None, w'), s')"
    by (simp add: MessagePublisher_Publish_def getPublisher_write gp_write_put publish_to_unfold
        demo_defs s'_def w'_def mp_zero_def cached_def)
  from publish_success_stages [OF run cache_ok_zero] have "cached s' ''q'' = Some ''q''"
    by (auto simp: demo_defs getPublisher_write gp_write_put mp_zero_def cached_def)
  with valid show ?thesis by (simp add: w_def [symmetric] run w'_def)
qed

text \<open>C16: A publish that returns an error returns the error of the first stage that failed (routing,
  finding the destination's publisher, marshalling, sending), leaves the world exactly as that
  stage left it (no later stage runs, the message's ID is not written), and never loses a cached
  destination publisher.\<close>

theorem publish_failure_stage:
  assumes "MessagePublisher_Publish cfg I message s w = ((Ret (Some e), w'), s')" "cache_ok s"
  shows "(RoutingFunc cfg message w = (Ret (Inl e), w') \<and> s' = s
      \<or> (\<exists>dest w1. RoutingFunc cfg message w = (Ret (Inr dest), w1)
          \<and> (getPublisher cfg dest s w1 = ((Ret (Inl e), w'), s')
             \<or> (\<exists>pub w2. getPublisher cfg dest s w1 = ((Ret (Inr pub), w2), s')
                 \<and> (MessageMarshaller cfg message w2 = (Ret (Inl e), w')
                    \<or> (\<exists>t w3 t'. MessageMarshaller cfg message w2 = (Ret (Inr t), w3)
                         \<and> impl_Publish I pub (Context w3 message) t w3 = (Ret (Some e, t'), w')))))))
    \<and> (\<forall>d p. cached s d = Some p \<longrightarrow> cached s' d = Some p)"
proof -
  have keeps: "\<forall>d p. cached s d = Some p \<longrightarrow> cached s' d = Some p"
    using assms getPublisher_keeps(3) unfolding MessagePublisher_Publish_def
    by (fastforce split: prod.splits res.splits sum.splits)
  from assms(1) keeps show ?thesis
    unfolding MessagePublisher_Publish_def publish_to_unfold
    by (fastforce split: prod.splits res.splits sum.splits option.splits)
qed

theorem publish_failure_stage_witness:
  "let w = snd (NewMessage Background VNil (start_world []));
       ((r, w'), s') = MessagePublisher_Publish demo_cfg (demo_impl (Some ErrClosed)) 0 (cache_put ''a'' ''b'' mp_zero) w
   in r = Ret (Some ErrClosed) \<and> ID (get_msg w' 0) = [] \<and> cached s' ''a'' = Some ''b''"
proof -
  define w where "w = snd (NewMessage Background VNil (start_world ([] :: string list)))"
  then have w: "ID (get_msg w 0) = []" by (simp add: message_defs world_defs start_world_def)
  define s where "s = cache_put ''a'' ''b'' (mp_zero :: string mp_state)"
  have s: "cache_ok s" "cached s ''a'' = Some ''b''" "cached s ''q'' = None" "\<not> closed s"
    by (simp_all add: s_def cache.put_keeps cache.get_put_same cache.get_put_other) (simp add: mp_zero_def)
  have run: "MessagePublisher_Publish demo_cfg (demo_impl (Some ErrClosed)) 0 s w
      = ((Ret (Some ErrClosed), w), cache_put ''q'' ''q'' s)"
    using s by (simp add: MessagePublisher_Publish_def getPublisher_write gp_write_put publish_to_unfold
        demo_defs)
  from publish_failure_stage [OF run s(1)] s(2) have "cached (cache_put ''q'' ''q'' s) ''a'' = Some ''b''"
    by blast
  with w show ?thesis by (simp add: w_def [symmetric] s_def [symmetric] run)
qed

text \<open>A close that does not panic, seen as what it logs and the error it returns, if any.\<close>

fun closing_errors :: "('p \<Rightarrow> 'p list \<Rightarrow> gerr option) \<Rightarrow> 'p list \<Rightarrow> 'p list \<Rightarrow> gerr list" where
  "closing_errors f log [] = []"
| "closing_errors f log (p # ps) =
     (case f p log of None \<Rightarrow> [] | Some e \<Rightarrow> [e]) @ closing_errors f (log @ [p]) ps"

lemma close_all_run:
  assumes "\<forall>p w. impl_Close I p w = (Ret (f p (env w)), w\<lparr>env := env w @ [p]\<rparr>)"
  shows "close_all I m errs w =
    (Ret (errs @ closing_errors f (env w) (map snd m)), w\<lparr>env := env w @ map snd m\<rparr>)"
  using assms
proof (induction I m errs w rule: close_all.induct)
  case (1 I errs w)
  then show ?case by simp
next
  case (2 I d pub m errs w)
  then show ?case by (cases "f pub (env w)") simp_all
qed

text \<open>C25: Closing closes every cached destination publisher exactly once, in the map's order, even
  when some of them fail; the error it returns joins exactly the errors of those that failed (nil
  if none did). Afterwards the cache is gone, a second close does nothing, and every publish that
  gets past routing fails with \<open>ErrClosed\<close> without touching the broker.\<close>

theorem close_closes_each_publisher_once:
  assumes "\<forall>p w. impl_Close I p w = (Ret (f p (env w)), w\<lparr>env := env w @ [p]\<rparr>)"
    and "\<not> closed s" "publishers s = Some m"
    and "MessagePublisher_Close I s w = ((r, w'), s')"
  shows "r = Ret (errors_Join (closing_errors f (env w) (map snd m)))
    \<and> w' = w\<lparr>env := env w @ map snd m\<rparr>
    \<and> s' = \<lparr>publishers = None, closed = True\<rparr>
    \<and> MessagePublisher_Close I s' w' = ((Ret None, w'), s')
    \<and> (\<forall>cfg message v dest v1. RoutingFunc cfg message v = (Ret (Inr dest), v1) \<longrightarrow>
         MessagePublisher_Publish cfg I message s' v = ((Ret (Some ErrClosed), v1), s'))"
proof -
  have "closed s' \<Longrightarrow> RoutingFunc cfg message v = (Ret (Inr dest), v1) \<Longrightarrow>
      MessagePublisher_Publish cfg I message s' v = ((Ret (Some ErrClosed), v1), s')"
    for cfg message v dest v1
    by (simp add: MessagePublisher_Publish_def getPublisher_closed)
  moreover have "s' = \<lparr>publishers = None, closed = True\<rparr>"
    "r = Ret (errors_Join (closing_errors f (env w) (map snd m)))" "w' = w\<lparr>env := env w @ map snd m\<rparr>"
    using assms(2-4) by (auto simp: MessagePublisher_Close_def close_all_run [OF assms(1)] Let_def
        intro: mp_state.equality)
  ultimately show ?thesis by (simp add: MessagePublisher_Close_def)
qed

theorem close_closes_each_publisher_once_witness:
  "let s = cache_put ''a'' ''x'' (cache_put ''b'' ''y'' mp_zero);
       ((r, w'), s') = MessagePublisher_Close (demo_impl (Some (ErrNew ''e''))) s (start_world [])
   in r = Ret (Some (ErrJoin [ErrNew ''e'', ErrNew ''e''])) \<and> env w' = [''y'', ''x''] \<and> closed s'"
proof -
  define s :: "string mp_state" where "s = cache_put ''a'' ''x'' (cache_put ''b'' ''y'' mp_zero)"
  have s: "\<not> closed s" "publishers s = Some [(''b'', ''y''), (''a'', ''x'')]"
    by (simp_all add: s_def cache_put_def mp_zero_def)
  have log: "\<forall>p w. impl_Close (demo_impl (Some (ErrNew ''e''))) p w
      = (Ret ((\<lambda>p log. Some (ErrNew ''e'')) p (env w)), w\<lparr>env := env w @ [p]\<rparr>)"
    by (simp add: demo_impl_def)
  obtain r w' s' where run: "MessagePublisher_Close (demo_impl (Some (ErrNew ''e''))) s (start_world [])
      = ((r, w'), s')" by (metis prod.exhaust)
  from close_closes_each_publisher_once [OF log s run]
  show ?thesis unfolding Let_def s_def [symmetric] run prod.case by (simp add: errors_Join_def start_world_def)
qed

end
