(* ===== verification/Publisher_Concurrency.thy ===== *)
theory Publisher_Concurrency
  imports Message_Publisher
begin

text \<open>
  \<open>MessagePublisher\<close> used by many goroutines at once: \<open>getPublisher\<close> with its read section, its
  write section and the gap between them, and \<open>Close\<close>. A lock section is atomic, which is what
  \<open>sync.RWMutex\<close> provides; everything else, and anything the other goroutines do to the world,
  interleaves freely. The calls of \<open>GetDestinationPublisher\<close> and the answers handed to callers are
  recorded in two histories the code does not have.
\<close>

section \<open>The record of the calls of \<open>GetDestinationPublisher\<close>\<close>

text \<open>
  A configuration whose \<open>GetDestinationPublisher\<close> writes down each of its calls, with its result, beside
  the environment. It is the function itself that writes, so the record holds every call, wherever the
  program makes it. Nothing else touches it.
\<close>

type_synonym 'p calls = "(string \<times> (gerr + 'p) res) list"

definition beside :: "('e, 'a) act \<Rightarrow> ('e \<times> 'l, 'a) act" where
  "beside f w = (case f (with_env (fst (env w)) w) of (r, v) \<Rightarrow> (r, with_env (env v, snd (env w)) v))"

definition recorded_cfg :: "('t, 'p, 'e) mp_config \<Rightarrow> ('t, 'p, 'e \<times> 'p calls) mp_config" where
  "recorded_cfg cfg =
     \<lparr>RoutingFunc = (\<lambda>m. beside (RoutingFunc cfg m)), MessageMarshaller = (\<lambda>m. beside (MessageMarshaller cfg m)),
      GetDestinationPublisher = (\<lambda>d w. case beside (GetDestinationPublisher cfg d) w of
        (r, v) \<Rightarrow> (r, v\<lparr>env := (fst (env v), snd (env v) @ [(d, r)])\<rparr>))\<rparr>"

definition recorded_impl :: "('t, 'p, 'e) impl \<Rightarrow> ('t, 'p, 'e \<times> 'p calls) impl" where
  "recorded_impl I =
     \<lparr>impl_Publish = (\<lambda>p c t. beside (impl_Publish I p c t)), GetMessageID = GetMessageID I,
      impl_Close = (\<lambda>p. beside (impl_Close I p))\<rparr>"

text \<open>The publishers that calls made, with their destinations.\<close>

definition made_by :: "'p calls \<Rightarrow> (string \<times> 'p) list" where
  "made_by l = concat (map (\<lambda>(d, r). case r of Ret (Inr p) \<Rightarrow> [(d, p)] | _ \<Rightarrow> []) l)"

section \<open>Interleavings\<close>

datatype gp_pc = Idle | Calling string | Missed string

record ('p, 'e) pub_sys =
  mp :: "'p mp_state"
  wld :: "('e \<times> 'p calls) world"
  pcs :: "nat \<Rightarrow> gp_pc"
  handed :: "(string \<times> (gerr + 'p)) list" \<comment> \<open>history of answers\<close>

abbreviation calls :: "('p, 'e) pub_sys \<Rightarrow> 'p calls" where
  "calls s \<equiv> snd (env (wld s))"

abbreviation made :: "('p, 'e) pub_sys \<Rightarrow> (string \<times> 'p) list" where
  "made s \<equiv> made_by (calls s)"

inductive pub_step ::
  "('t, 'p, 'e) mp_config \<Rightarrow> ('t, 'p, 'e) impl \<Rightarrow> ('p, 'e) pub_sys \<Rightarrow> ('p, 'e) pub_sys \<Rightarrow> bool"
  for cfg I
where
  call: "pcs s i = Idle \<Longrightarrow> pub_step cfg I s (s\<lparr>pcs := (pcs s)(i := Calling d)\<rparr>)"
| read_hit: "pcs s i = Calling d \<Longrightarrow> gp_read (mp s) d = Some r \<Longrightarrow>
     pub_step cfg I s (s\<lparr>pcs := (pcs s)(i := Idle), handed := handed s @ [(d, r)]\<rparr>)"
| read_miss: "pcs s i = Calling d \<Longrightarrow> gp_read (mp s) d = None \<Longrightarrow>
     pub_step cfg I s (s\<lparr>pcs := (pcs s)(i := Missed d)\<rparr>)"
| write_done: "pcs s i = Missed d \<Longrightarrow> gp_write (recorded_cfg cfg) d (mp s) (wld s) = ((Ret r, w'), m') \<Longrightarrow>
     pub_step cfg I s (s\<lparr>pcs := (pcs s)(i := Idle), mp := m', wld := w', handed := handed s @ [(d, r)]\<rparr>)"
| write_panic: "pcs s i = Missed d \<Longrightarrow> gp_write (recorded_cfg cfg) d (mp s) (wld s) = ((Panic q, w'), m') \<Longrightarrow>
     pub_step cfg I s (s\<lparr>pcs := (pcs s)(i := Idle), mp := m', wld := w'\<rparr>)"
| close: "pcs s i = Idle \<Longrightarrow> MessagePublisher_Close (recorded_impl I) (mp s) (wld s) = ((r, w'), m') \<Longrightarrow>
     pub_step cfg I s (s\<lparr>mp := m', wld := w'\<rparr>)"
| other: "snd (env w') = calls s \<Longrightarrow> pub_step cfg I s (s\<lparr>wld := w'\<rparr>)"

definition pub_init :: "('p, 'e) pub_sys \<Rightarrow> bool" where
  "pub_init s \<longleftrightarrow> mp s = mp_zero \<and> pcs s = (\<lambda>_. Idle) \<and> calls s = [] \<and> handed s = []"

text \<open>
  The invariant: the cache is what was made, as long as the publisher is open; nothing is made
  twice for one destination; and every publisher handed to a caller was made for its destination.
\<close>

definition pub_inv :: "('p, 'e) pub_sys \<Rightarrow> bool" where
  "pub_inv s \<longleftrightarrow> cache_ok (mp s) \<and> distinct (map fst (made s))
     \<and> (\<not> closed (mp s) \<longrightarrow> cached (mp s) = map_of (made s))
     \<and> (\<forall>d p. (d, Inr p) \<in> set (handed s) \<longrightarrow> (d, p) \<in> set (made s))"

lemma gp_read_cases:
  "gp_read s d = Some r \<Longrightarrow> closed s \<and> r = Inl ErrClosed \<or> \<not> closed s \<and> (\<exists>p. r = Inr p \<and> cached s d = Some p)"
  "gp_read s d = None \<Longrightarrow> \<not> closed s \<and> cached s d = None"
  by (cases "closed s"; cases "cached s d"; simp add: gp_read_def Let_def)+

lemma beside_calls: "beside f w = (r, v) \<Longrightarrow> snd (env v) = snd (env w)"
  by (cases "f (with_env (fst (env w)) w)") (auto simp: beside_def)

lemma recorded_call:
  "GetDestinationPublisher (recorded_cfg cfg) d w = (r, v) \<Longrightarrow> snd (env v) = snd (env w) @ [(d, r)]"
  using beside_calls [of "GetDestinationPublisher cfg d" w]
  by (cases "beside (GetDestinationPublisher cfg d) w") (auto simp: recorded_cfg_def)

lemma made_by_snoc [simp]:
  "made_by [] = []" "made_by (l @ [(d, r)]) = made_by l @ (case r of Ret (Inr p) \<Rightarrow> [(d, p)] | _ \<Rightarrow> [])"
  by (simp_all add: made_by_def)

text \<open>What the write section does: it calls \<open>GetDestinationPublisher\<close> at most once.\<close>

lemma gp_write_cases:
  assumes "gp_write (recorded_cfg cfg) d s w = ((r, w'), s')"
  obtains (shut) "closed s" "r = Ret (Inl ErrClosed)" "s' = s" "snd (env w') = snd (env w)"
    | (hit) p where "\<not> closed s" "cached s d = Some p" "r = Ret (Inr p)" "s' = s" "snd (env w') = snd (env w)"
    | (create) "\<not> closed s" "cached s d = None" "snd (env w') = snd (env w) @ [(d, r)]"
        "s' = (case r of Ret (Inr p) \<Rightarrow> cache_put d p s | _ \<Rightarrow> s)"
proof (cases "closed s")
  case True
  with assms have "r = Ret (Inl ErrClosed)" "s' = s" "w' = w" by (simp_all add: gp_write_put)
  with True show ?thesis by (intro that(1)) simp_all
next
  case open_s: False
  show ?thesis
  proof (cases "cached s d")
    case (Some p)
    with open_s assms have "r = Ret (Inr p)" "s' = s" "w' = w" by (simp_all add: gp_write_put)
    with open_s Some show ?thesis by (intro that(2)) simp_all
  next
    case None
    obtain q v where call: "GetDestinationPublisher (recorded_cfg cfg) d w = (q, v)" by fastforce
    with open_s None assms have "r = q" "w' = v" "s' = (case r of Ret (Inr p) \<Rightarrow> cache_put d p s | _ \<Rightarrow> s)"
      by (auto simp: gp_write_put split: res.splits sum.splits)
    with recorded_call [OF call] show ?thesis by (intro that(3) open_s None) simp_all
  qed
qed

lemma close_all_calls: "close_all (recorded_impl I) m errs w = (r, w') \<Longrightarrow> snd (env w') = snd (env w)"
proof (induction m arbitrary: errs w)
  case (Cons x m)
  obtain d p where x: "x = (d, p)" by fastforce
  obtain q v where call: "impl_Close (recorded_impl I) p w = (q, v)" by fastforce
  then have "snd (env v) = snd (env w)" by (auto simp: recorded_impl_def dest: beside_calls)
  with Cons call x show ?case by (auto split: res.splits option.splits)
qed simp

lemma MessagePublisher_Close_state:
  assumes "MessagePublisher_Close (recorded_impl I) s w = ((r, w'), s')"
  shows "closed s'" "cache_ok s \<Longrightarrow> cache_ok s'" "snd (env w') = snd (env w)"
  using assms
  by (auto simp: MessagePublisher_Close_def Let_def cache_ok_def dest!: close_all_calls split: if_splits prod.splits res.splits)

lemma cached_made:
  "pub_inv s \<Longrightarrow> \<not> closed (mp s) \<Longrightarrow> cached (mp s) d = Some p \<Longrightarrow> (d, p) \<in> set (made s)"
  by (auto simp: pub_inv_def dest: map_of_SomeD)

lemma pub_inv_init: "pub_init s \<Longrightarrow> pub_inv s"
  by (simp add: pub_init_def pub_inv_def fun_eq_iff)

lemma pub_inv_write:
  assumes inv: "pub_inv s" and wr: "gp_write (recorded_cfg cfg) d (mp s) (wld s) = ((r, w'), m')"
  shows "pub_inv (s\<lparr>pcs := x, mp := m', wld := w', handed := handed s @ (case r of Ret a \<Rightarrow> [(d, a)] | Panic q \<Rightarrow> [])\<rparr>)"
  using wr
proof (cases rule: gp_write_cases)
  case create
  from create(1,2) inv have fresh: "d \<notin> fst ` set (made s)" and ok: "cache_ok (mp s)"
    by (auto simp: pub_inv_def map_of_eq_None_iff)
  show ?thesis
  proof (cases "\<exists>p. r = Ret (Inr p)")
    case True
    then obtain p where r: "r = Ret (Inr p)" by blast
    have "cached m' = (cached (mp s))(d \<mapsto> p)"
      using create(4) ok r by (auto simp: fun_eq_iff cache.get_put_same cache.get_put_other)
    moreover have "map_of (made s @ [(d, p)]) = (map_of (made s))(d \<mapsto> p)"
      using fresh by (rule map_of_snoc)
    ultimately show ?thesis
      using inv create fresh r by (auto simp: pub_inv_def cache.put_keeps)
  next
    case False
    with create inv show ?thesis by (auto simp: pub_inv_def split: res.splits sum.splits)
  qed
qed (use inv in \<open>auto simp: pub_inv_def dest: map_of_SomeD\<close>)

lemma pub_step_inv:
  assumes "pub_inv s" "pub_step cfg I s t"
  shows "pub_inv t"
  using assms(2)
proof (cases rule: pub_step.cases)
  case (read_hit i d r)
  with assms(1) show ?thesis
    by (auto simp: pub_inv_def dest!: gp_read_cases(1) dest: map_of_SomeD)
next
  case (write_done i d r w' m')
  with pub_inv_write [OF assms(1) write_done(3)] show ?thesis by simp
next
  case (write_panic i d q w' m')
  with pub_inv_write [OF assms(1) write_panic(3)] show ?thesis by simp
next
  case (close i r w' m')
  with assms(1) MessagePublisher_Close_state [OF close(3)] show ?thesis by (auto simp: pub_inv_def)
qed (use assms(1) in \<open>auto simp: pub_inv_def\<close>)

interpretation pub: invariant_system pub_init "pub_step cfg I" pub_inv for cfg I
  by unfold_locales (rule pub_inv_init pub_step_inv; assumption)+

text \<open>C4: However many goroutines publish at once, and however their read and write sections
  interleave, at most one call of \<open>GetDestinationPublisher\<close> succeeds for a destination as long as the
  engine lives, every publisher handed to a caller is the one that call made, and the cache holds
  exactly the publishers made until the publisher is closed. The calls are those that the function
  itself writes down.\<close>

theorem one_publisher_per_destination:
  assumes "pub_init s0" "steps (pub_step cfg I) s0 s"
  shows "distinct (map fst (made s))
    \<and> (\<forall>d p. (d, Inr p) \<in> set (handed s) \<longrightarrow> (d, p) \<in> set (made s))
    \<and> (\<forall>d p q. (d, Inr p) \<in> set (handed s) \<longrightarrow> (d, Inr q) \<in> set (handed s) \<longrightarrow> p = q)
    \<and> (\<not> closed (mp s) \<longrightarrow> cached (mp s) = map_of (made s))"
proof -
  from pub.reachable [OF assms] have inv: "pub_inv s" .
  have "p = q" if "(d, Inr p) \<in> set (handed s)" "(d, Inr q) \<in> set (handed s)" for d p q
    using inv that unfolding pub_inv_def by (metis eq_key_imp_eq_value)
  with inv show ?thesis unfolding pub_inv_def by blast
qed

text \<open>Two goroutines that both miss the cache, for the witnesses.\<close>

definition both_missed :: "(string, string list) pub_sys" where
  "both_missed = \<lparr>mp = mp_zero, wld = start_world ([], []), pcs = (\<lambda>_. Idle)(0 := Missed ''q'', 1 := Missed ''q''),
                  handed = []\<rparr>"

lemma both_missed_reached:
  "\<exists>s0. pub_init s0 \<and> steps (pub_step demo_cfg I) s0 both_missed"
proof -
  let ?st = "\<lambda>p. \<lparr>mp = mp_zero, wld = start_world ([], []), pcs = p, handed = []\<rparr> :: (string, string list) pub_sys"
  have call: "pub_step demo_cfg I (?st p) (?st (p(i := Calling ''q'')))" if "p i = Idle" for p and i :: nat
    using pub_step.call [of "?st p" i demo_cfg I "''q''"] that by simp
  have miss: "pub_step demo_cfg I (?st p) (?st (p(i := Missed ''q'')))" if "p i = Calling ''q''" for p and i :: nat
    using pub_step.read_miss [of "?st p" i "''q''" demo_cfg I] that by (simp add: gp_read_def mp_zero_def cached_def)
  let ?p1 = "(\<lambda>_. Idle)(0 := Calling ''q'')" and ?p2 = "(\<lambda>_. Idle)(0 := Calling ''q'', 1 := Calling ''q'')"
  let ?p3 = "(\<lambda>_. Idle)(0 := Calling ''q'', 1 := Calling ''q'', 0 := Missed ''q'')"
  have "steps (pub_step demo_cfg I) (?st (\<lambda>_. Idle)) (?st ?p1)"
    by (rule steps_single [of "pub_step demo_cfg I"]) (rule call, simp)
  moreover have "pub_step demo_cfg I (?st ?p1) (?st ?p2)" by (rule call) simp
  moreover have "pub_step demo_cfg I (?st ?p2) (?st ?p3)" by (rule miss) simp
  moreover have "pub_step demo_cfg I (?st ?p3) (?st (?p3(1 := Missed ''q'')))" by (rule miss) simp
  ultimately have "steps (pub_step demo_cfg I) (?st (\<lambda>_. Idle)) (?st (?p3(1 := Missed ''q'')))"
    by (meson steps_step)
  moreover have "?st (?p3(1 := Missed ''q'')) = both_missed"
    by (simp add: both_missed_def fun_eq_iff)
  moreover have "pub_init (?st (\<lambda>_. Idle))" by (simp add: pub_init_def start_world_def)
  ultimately show ?thesis by metis
qed

text \<open>The first of them makes the publisher, the second finds it.\<close>

definition first_made :: "(string, string list) pub_sys" where
  "first_made = both_missed\<lparr>pcs := (pcs both_missed)(0 := Idle), mp := cache_put ''q'' ''q'' mp_zero,
     wld := start_world ([], [(''q'', Ret (Inr ''q''))]), handed := [(''q'', Inr ''q'')]\<rparr>"

lemma both_missed_write: "pub_step demo_cfg I both_missed first_made"
proof -
  have call: "GetDestinationPublisher (recorded_cfg demo_cfg) ''q'' (start_world ([], []))
      = (Ret (Inr ''q''), start_world ([], [(''q'', Ret (Inr ''q''))]))"
    by (simp add: recorded_cfg_def beside_def demo_cfg_def start_world_def with_env_def)
  have "gp_write (recorded_cfg demo_cfg) ''q'' mp_zero (start_world ([], []))
      = ((Ret (Inr ''q''), start_world ([], [(''q'', Ret (Inr ''q''))])), cache_put ''q'' ''q'' mp_zero)"
    by (simp add: gp_write_put call) (simp add: mp_zero_def)
  then show ?thesis
    using pub_step.write_done [of both_missed 0 "''q''" demo_cfg "Inr ''q''" "start_world ([], [(''q'', Ret (Inr ''q''))])"
        "cache_put ''q'' ''q'' mp_zero" I]
    by (simp add: both_missed_def first_made_def)
qed

theorem one_publisher_per_destination_witness:
  "\<exists>s0 s. pub_init s0 \<and> steps (pub_step demo_cfg (demo_impl None)) s0 s
     \<and> calls s = [(''q'', Ret (Inr ''q''))] \<and> handed s = [(''q'', Inr ''q''), (''q'', Inr ''q'')]
     \<and> distinct (map fst (made s))"
proof -
  obtain s0 where init: "pub_init s0" and miss: "steps (pub_step demo_cfg (demo_impl None)) s0 both_missed"
    using both_missed_reached by blast
  let ?t = "first_made\<lparr>pcs := (pcs first_made)(1 := Idle), handed := [(''q'', Inr ''q''), (''q'', Inr ''q'')]\<rparr>"
  have "gp_write (recorded_cfg demo_cfg) ''q'' (mp first_made) (wld first_made) = ((Ret (Inr ''q''), wld first_made), mp first_made)"
    by (simp add: gp_write_put first_made_def cache.get_put_same) (simp add: mp_zero_def)
  then have "pub_step demo_cfg (demo_impl None) first_made ?t"
    using pub_step.write_done [of first_made 1 "''q''" demo_cfg "Inr ''q''" "wld first_made" "mp first_made" "demo_impl None"]
    by (simp add: first_made_def both_missed_def)
  with miss both_missed_write have run: "steps (pub_step demo_cfg (demo_impl None)) s0 ?t"
    by (meson steps_step)
  from one_publisher_per_destination [OF init run] have "distinct (map fst (made ?t))" by blast
  with init run show ?thesis
    by (intro exI [of _ s0] exI [of _ ?t]) (simp add: first_made_def start_world_def)
qed

section \<open>After a close\<close>

lemma closed_step:
  assumes "pub_step cfg I s t" "closed (mp s)"
  shows "closed (mp t) \<and> calls t = calls s
    \<and> (handed t = handed s \<or> (\<exists>d. handed t = handed s @ [(d, Inl ErrClosed)]))"
  using assms
proof (cases rule: pub_step.cases)
  case (write_panic i d q w' m')
  from write_panic(3) assms(2) show ?thesis by (cases rule: gp_write_cases) auto
next
  case (write_done i d r w' m')
  from write_done(3) assms(2) write_done(1) show ?thesis by (cases rule: gp_write_cases) auto
next
  case (close i r w' m')
  with MessagePublisher_Close_state [OF close(3)] show ?thesis by simp
qed (auto dest: gp_read_cases)

text \<open>C26: Once the publisher is closed it stays closed: from then on \<open>GetDestinationPublisher\<close> is not called
  again, not even for a goroutine that was already past the read lock when the close came, and every
  answer to a caller is \<open>ErrClosed\<close>.\<close>

theorem closed_publisher_answers_ErrClosed:
  assumes "steps (pub_step cfg I) s t" "closed (mp s)"
  shows "closed (mp t) \<and> calls t = calls s
    \<and> (\<exists>later. handed t = handed s @ later \<and> (\<forall>(d, r) \<in> set later. r = Inl ErrClosed))"
  using assms
proof (induction rule: steps.induct)
  case (steps_step s t u)
  then obtain later where "closed (mp t)" "calls t = calls s" "handed t = handed s @ later"
    "\<forall>(d, r) \<in> set later. r = Inl ErrClosed" by blast
  with closed_step [OF steps_step.hyps(2)] show ?case by fastforce
qed simp

theorem closed_publisher_answers_ErrClosed_witness:
  "\<exists>s t. steps (pub_step demo_cfg (demo_impl None)) s t \<and> closed (mp s) \<and> pcs s 0 = Missed ''q''
     \<and> handed t = [(''q'', Inl ErrClosed)] \<and> calls t = []"
proof -
  let ?s = "both_missed\<lparr>mp := \<lparr>publishers = None, closed = True\<rparr>\<rparr>"
  let ?t = "?s\<lparr>pcs := (pcs ?s)(0 := Idle), handed := [(''q'', Inl ErrClosed)]\<rparr>"
  have "pub_step demo_cfg (demo_impl None) ?s ?t"
    using pub_step.write_done [of ?s 0 "''q''" demo_cfg "Inl ErrClosed" "wld ?s" "mp ?s" "demo_impl None"]
    by (simp add: gp_write_put both_missed_def)
  then have run: "steps (pub_step demo_cfg (demo_impl None)) ?s ?t" by (rule steps_single)
  from closed_publisher_answers_ErrClosed [OF run] have "calls ?t = calls ?s" by simp
  with run show ?thesis by (intro exI [of _ ?s] exI [of _ ?t]) (simp add: both_missed_def start_world_def)
qed

end
