(* ===== verification/Dispatcher.thy ===== *)
theory Dispatcher
  imports Message
begin

text \<open>
  \<open>core/subscriber/dispatcher.go\<close>, the part that runs in the goroutine of one delivery: the
  handler's context, the handler, its acknowledgement and the deferred recovery. The slots and the
  wait group shared by the goroutines are in the theory \<open>Dispatcher_Slots\<close>. The broker's functions
  of a delivery and the two error callbacks are arguments of the definitions.
\<close>

section \<open>Data\<close>

record 'e delivery =
  dl_Message :: addr
  dl_Ack :: "ctx \<Rightarrow> ('e, gerr option) act"
  dl_Nack :: "ctx \<Rightarrow> ('e, gerr option) act"

definition DefaultMaxInFlight :: int where
  "DefaultMaxInFlight = 10"

record 'e dispatch_options =
  MaxInFlight :: int
  ProcessingTimeout :: int
  OnAckError :: "(addr \<Rightarrow> gerr \<Rightarrow> ('e, unit) act) option"
  OnNackError :: "(addr \<Rightarrow> gerr \<Rightarrow> ('e, unit) act) option"

record 'e dispatcher =
  d_handler :: "addr \<Rightarrow> ('e, gerr option) act"
  d_opts :: "'e dispatch_options"
  d_slots :: int \<comment> \<open>the capacity of the channel of slots\<close>

definition NewDispatcher ::
  "(addr \<Rightarrow> ('e, gerr option) act) \<Rightarrow> 'e dispatch_options \<Rightarrow> 'e dispatcher"
where
  "NewDispatcher handler opts =
     (let opts = (if MaxInFlight opts \<le> 0 then opts\<lparr>MaxInFlight := DefaultMaxInFlight\<rparr> else opts)
      in \<lparr>d_handler = handler, d_opts = opts, d_slots = MaxInFlight opts\<rparr>)"

section \<open>Handling a delivery\<close>

text \<open>A callback that may be nil, called with an error that may be nil.\<close>

definition report_error ::
  "(addr \<Rightarrow> gerr \<Rightarrow> ('e, unit) act) option \<Rightarrow> addr \<Rightarrow> gerr option \<Rightarrow> ('e, unit) act"
where
  "report_error callback msg err =
     (case err of
        None \<Rightarrow> (\<lambda>w. (Ret (), w))
      | Some e \<Rightarrow> (case callback of None \<Rightarrow> (\<lambda>w. (Ret (), w)) | Some f \<Rightarrow> f msg e))"

definition dispatcher_nack :: "'e dispatcher \<Rightarrow> ctx \<Rightarrow> 'e delivery \<Rightarrow> ('e, unit) act" where
  "dispatcher_nack d c delivery =
     andThen (dl_Nack delivery c) (report_error (OnNackError (d_opts d)) (dl_Message delivery))"

text \<open>
  \<open>Handle\<close> up to \<open>msg.SetContext(msgCtx)\<close>: the acknowledgement's context and the deferred cancel.
\<close>

definition handle_prepare ::
  "'e dispatcher \<Rightarrow> 'e delivery \<Rightarrow> 'e world \<Rightarrow> (ctx \<times> ('e world \<Rightarrow> 'e world)) \<times> 'e world"
where
  "handle_prepare d delivery w =
     (let msg = dl_Message delivery;
          ackCtx = WithoutCancel (Context w msg);
          (msgCtx, cancelFn, w1) =
            (if ProcessingTimeout (d_opts d) > 0
             then (let ((c, t), w1) = WithTimeout ackCtx (ProcessingTimeout (d_opts d)) w
                   in (c, cancel t, w1))
             else (ackCtx, (\<lambda>w. w), w))
      in ((ackCtx, cancelFn), SetContext msg msgCtx w1))"

text \<open>The handler and the acknowledgement, without the deferred functions.\<close>

definition handle_body :: "'e dispatcher \<Rightarrow> 'e delivery \<Rightarrow> ctx \<Rightarrow> ('e, unit) act" where
  "handle_body d delivery ackCtx =
     andThen (d_handler d (dl_Message delivery)) (\<lambda>err.
       case err of
         Some e \<Rightarrow> dispatcher_nack d ackCtx delivery
       | None \<Rightarrow> andThen (dl_Ack delivery ackCtx)
                   (report_error (OnAckError (d_opts d)) (dl_Message delivery)))"

text \<open>The deferred recovery: nack, then panic again with the recovered value.\<close>

definition nack_on_panic :: "'e dispatcher \<Rightarrow> 'e delivery \<Rightarrow> ctx \<Rightarrow> ('e, unit) act \<Rightarrow> ('e, unit) act" where
  "nack_on_panic d delivery ackCtx body w =
     (case body w of
        (Panic recovered, w1) \<Rightarrow>
          andThen (dispatcher_nack d ackCtx delivery) (\<lambda>_ w2. (Panic recovered, w2)) w1
      | (Ret u, w1) \<Rightarrow> (Ret u, w1))"

definition Handle :: "'e dispatcher \<Rightarrow> 'e delivery \<Rightarrow> ('e, unit) act" where
  "Handle d delivery w =
     (let ((ackCtx, cancelFn), w1) = handle_prepare d delivery w
      in deferring cancelFn (nack_on_panic d delivery ackCtx (handle_body d delivery ackCtx)) w1)"

lemmas dispatcher_defs = report_error_def dispatcher_nack_def handle_body_def nack_on_panic_def
  deferring_def andThen_def

lemma NewDispatcher_slots: "0 < d_slots (NewDispatcher h opts)"
  by (simp add: NewDispatcher_def DefaultMaxInFlight_def)

lemma handle_prepare_frame:
  assumes "handle_prepare d delivery w = ((c, fin), w1)"
  shows "env w1 = env w" "clock w1 = clock w" "heap_maps w1 = heap_maps w" "cancelled w1 = cancelled w"
    "\<And>a. a \<noteq> dl_Message delivery \<Longrightarrow> get_msg w1 a = get_msg w a" "\<And>a. valid_msg w1 a = valid_msg w a"
  using assms
  by (auto simp: handle_prepare_def WithTimeout_def SetContext_def Let_def world_defs split: if_splits)

lemma handle_prepare_message:
  assumes "handle_prepare d delivery w = ((c, fin), w1)" "valid_msg w (dl_Message delivery)"
  shows "get_msg w1 (dl_Message delivery) =
    (get_msg w (dl_Message delivery))\<lparr>msg_ctx := msg_ctx (get_msg w1 (dl_Message delivery))\<rparr>"
  using assms by (auto simp: handle_prepare_def WithTimeout_def SetContext_def Let_def world_defs split: if_splits)

lemma handle_prepare_same:
  assumes "handle_prepare d delivery w = ((c, fin), w1)" "valid_msg w (dl_Message delivery)"
  shows "ID (get_msg w1 (dl_Message delivery)) = ID (get_msg w (dl_Message delivery))"
    and "Metadata (get_msg w1 (dl_Message delivery)) = Metadata (get_msg w (dl_Message delivery))"
    and "Payload (get_msg w1 (dl_Message delivery)) = Payload (get_msg w (dl_Message delivery))"
  using arg_cong [OF handle_prepare_message [OF assms], of ID] arg_cong [OF handle_prepare_message [OF assms], of Metadata]
    arg_cong [OF handle_prepare_message [OF assms], of Payload]
  by simp_all

lemma handle_prepare_env: "handle_prepare d delivery w = ((c, fin), w1) \<Longrightarrow> env (fin v) = env v"
  by (auto simp: handle_prepare_def WithTimeout_def Let_def split: if_splits)

section \<open>The handler's context\<close>

text \<open>The handler gets the delivery's message, unchanged but for its context. That context keeps
  every value of the message's context but not its cancellation: at the handler's start it is never
  done, and its only deadline is the processing timeout from now, if one is set. The
  acknowledgement's context keeps the values too and is never done. A message's context with a
  timeout is cancelled when \<open>Handle\<close> ends, however it ends.\<close>

theorem handler_context:
  assumes "wf_world w" "valid_msg w (dl_Message delivery)"
    and "handle_prepare d delivery w = ((ackCtx, fin), w1)"
  shows "\<exists>c. get_msg w1 (dl_Message delivery) = (get_msg w (dl_Message delivery))\<lparr>msg_ctx := c\<rparr>
    \<and> (\<forall>k. ctx_Value c k = ctx_Value (Context w (dl_Message delivery)) k
          \<and> ctx_Value ackCtx k = ctx_Value (Context w (dl_Message delivery)) k)
    \<and> \<not> is_done w1 c
    \<and> (\<forall>t ts. \<not> ctx_done t ts ackCtx)
    \<and> ctx_Deadline c = (if ProcessingTimeout (d_opts d) > 0
                        then Some (clock w + ProcessingTimeout (d_opts d)) else None)
    \<and> (ProcessingTimeout (d_opts d) > 0 \<longrightarrow> (\<forall>v. is_done (fin v) c))
    \<and> Handle d delivery w = deferring fin (nack_on_panic d delivery ackCtx (handle_body d delivery ackCtx)) w1"
proof (cases "ProcessingTimeout (d_opts d) > 0")
  case True
  let ?c = "WithDeadline ackCtx (clock w + ProcessingTimeout (d_opts d)) (tokens w)"
  from assms True have "ackCtx = WithoutCancel (Context w (dl_Message delivery))" "fin = cancel (tokens w)"
    "w1 = SetContext (dl_Message delivery) ?c (w\<lparr>tokens := Suc (tokens w)\<rparr>)"
    by (auto simp: handle_prepare_def WithTimeout_def Let_def)
  moreover have "tokens w \<notin> set (cancelled w)" using assms(1) by (auto simp: wf_world_def)
  ultimately show ?thesis using True assms
    by (intro exI [of _ ?c]) (auto simp: Handle_def SetContext_def world_defs)
next
  case False
  with assms have "ackCtx = WithoutCancel (Context w (dl_Message delivery))"
    "w1 = SetContext (dl_Message delivery) ackCtx w"
    by (auto simp: handle_prepare_def Let_def)
  with False assms show ?thesis
    by (intro exI [of _ ackCtx]) (simp add: Handle_def SetContext_def)
qed

text \<open>A delivery that logs its acknowledgement and a dispatcher, for the witnesses.\<close>

definition demo_delivery :: "bool list delivery" where
  "demo_delivery = \<lparr>dl_Message = 0, dl_Ack = (\<lambda>c w. (Ret None, w\<lparr>env := env w @ [True]\<rparr>)),
                    dl_Nack = (\<lambda>c w. (Ret (Some (ErrNew ''lost'')), w\<lparr>env := env w @ [False]\<rparr>))\<rparr>"

definition demo_dispatcher :: "gerr option res \<Rightarrow> bool list dispatcher" where
  "demo_dispatcher r = NewDispatcher (\<lambda>m w. (r, w))
     \<lparr>MaxInFlight = 0, ProcessingTimeout = 5, OnAckError = None, OnNackError = Some (\<lambda>m e w. (Ret (), w))\<rparr>"

lemmas demo_dispatch_defs = demo_delivery_def demo_dispatcher_def NewDispatcher_def

definition demo_start :: "bool list world" where
  "demo_start = snd (NewMessage (WithValue Background (VString ''k'') (VInt 1)) VNil (start_world []))"

lemma demo_start_ok: "wf_world demo_start" "valid_msg demo_start 0"
  by (simp_all add: demo_start_def message_defs world_defs start_world_def wf_world_def)

theorem handler_context_witness:
  "let ((ackCtx, fin), w1) = handle_prepare (demo_dispatcher (Ret None)) demo_delivery demo_start;
       c = Context w1 0
   in ctx_Value c (VString ''k'') = VInt 1 \<and> ctx_Deadline c = Some 5 \<and> \<not> is_done w1 c \<and> is_done (fin w1) c"
proof -
  obtain a fin w1 where run: "handle_prepare (demo_dispatcher (Ret None)) demo_delivery demo_start = ((a, fin), w1)"
    by (metis prod.exhaust)
  have valid: "valid_msg demo_start (dl_Message demo_delivery)"
    by (simp add: demo_delivery_def demo_start_ok)
  have demo: "dl_Message demo_delivery = 0" "ProcessingTimeout (d_opts (demo_dispatcher r)) = 5" for r
    by (simp_all add: demo_dispatch_defs)
  have start: "clock demo_start = 0" "ctx_Value (Context demo_start 0) (VString ''k'') = VInt 1"
    by (simp_all add: demo_start_def message_defs world_defs start_world_def)
  obtain c where "get_msg w1 0 = (get_msg demo_start 0)\<lparr>msg_ctx := c\<rparr>"
    "ctx_Value c (VString ''k'') = VInt 1" "\<not> is_done w1 c" "ctx_Deadline c = Some 5" "is_done (fin w1) c"
    using handler_context [OF demo_start_ok(1) valid run] by (auto simp: demo start)
  then show ?thesis by (simp add: run Context_def Let_def)
qed

section \<open>Acknowledging exactly once\<close>

text \<open>
  The contract of a delivery: whatever the context, acknowledging it returns (an error or nil) and
  has one fixed effect on the broker, and so has refusing it. The dispatcher, the client, then
  leaves exactly one of the two effects for each delivery it handles.
\<close>

definition quiet :: "(addr \<Rightarrow> gerr \<Rightarrow> ('e, unit) act) option \<Rightarrow> bool" where
  "quiet callback \<longleftrightarrow>
     (\<forall>f. callback = Some f \<longrightarrow> (\<forall>m e w. \<exists>w'. f m e w = (Ret (), w') \<and> env w' = env w))"

lemma report_quiet:
  "quiet f \<Longrightarrow> \<exists>w'. report_error f m r w = (Ret (), w') \<and> env w' = env w"
  by (cases r; cases f) (auto simp: report_error_def quiet_def)

locale delivery_contract =
  fixes delivery :: "'e delivery" and acked nacked :: "ctx \<Rightarrow> 'e \<Rightarrow> 'e"
  assumes acks: "\<exists>r. dl_Ack delivery c w = (Ret r, w\<lparr>env := acked c (env w)\<rparr>)"
    and nacks: "\<exists>r. dl_Nack delivery c w = (Ret r, w\<lparr>env := nacked c (env w)\<rparr>)"
begin

lemma ack_reports:
  assumes "quiet f"
  shows "\<exists>w'. andThen (dl_Ack delivery c) (report_error f m) w = (Ret (), w') \<and> env w' = acked c (env w)"
proof -
  obtain r where r: "dl_Ack delivery c w = (Ret r, w\<lparr>env := acked c (env w)\<rparr>)" using acks by blast
  from report_quiet [OF assms, of m r "w\<lparr>env := acked c (env w)\<rparr>"] show ?thesis
    by (simp add: r andThen_def)
qed

lemma nack_reports:
  assumes "quiet (OnNackError (d_opts d))"
  shows "\<exists>w'. dispatcher_nack d c delivery w = (Ret (), w') \<and> env w' = nacked c (env w)"
proof -
  obtain r where r: "dl_Nack delivery c w = (Ret r, w\<lparr>env := nacked c (env w)\<rparr>)" using nacks by blast
  from report_quiet [OF assms, of "dl_Message delivery" r "w\<lparr>env := nacked c (env w)\<rparr>"] show ?thesis
    by (simp add: r andThen_def dispatcher_nack_def)
qed

lemma body_once:
  assumes "quiet (OnAckError (d_opts d))" "quiet (OnNackError (d_opts d))"
    and "d_handler d (dl_Message delivery) w = (r, w2)"
  shows "\<exists>w'. nack_on_panic d delivery c (handle_body d delivery c) w =
       ((case r of Ret _ \<Rightarrow> Ret () | Panic q \<Rightarrow> Panic q), w')
     \<and> env w' = (if r = Ret None then acked c (env w2) else nacked c (env w2))"
proof -
  obtain wa where wa: "andThen (dl_Ack delivery c) (report_error (OnAckError (d_opts d)) (dl_Message delivery)) w2
      = (Ret (), wa)" "env wa = acked c (env w2)"
    using ack_reports [OF assms(1)] by blast
  obtain wn where wn: "dispatcher_nack d c delivery w2 = (Ret (), wn)" "env wn = nacked c (env w2)"
    using nack_reports [OF assms(2)] by blast
  show ?thesis
  proof (cases r)
    case (Ret err)
    with assms(3) wa wn show ?thesis
      by (cases err) (simp_all add: nack_on_panic_def handle_body_def andThen_Ret)
  next
    case (Panic q)
    with assms(3) wn show ?thesis
      by (simp add: nack_on_panic_def handle_body_def andThen_Panic andThen_Ret)
  qed
qed

lemma handled_once:
  assumes "quiet (OnAckError (d_opts d))" "quiet (OnNackError (d_opts d))"
    and "handle_prepare d delivery w = ((c, fin), w1)"
    and "d_handler d (dl_Message delivery) w1 = (r, w2)"
  shows "\<exists>w'. Handle d delivery w = ((case r of Ret _ \<Rightarrow> Ret () | Panic q \<Rightarrow> Panic q), w')
     \<and> env w' = (if r = Ret None then acked c (env w2) else nacked c (env w2))"
proof -
  obtain w' where "nack_on_panic d delivery c (handle_body d delivery c) w1 =
       ((case r of Ret _ \<Rightarrow> Ret () | Panic q \<Rightarrow> Panic q), w')"
    "env w' = (if r = Ret None then acked c (env w2) else nacked c (env w2))"
    using body_once [OF assms(1,2,4)] by blast
  with assms(3) show ?thesis
    by (simp add: Handle_def deferring_def handle_prepare_env)
qed

end

text \<open>C1: Every delivery a dispatcher handles is settled exactly once, after its handler: it is acked if
  the handler returned nil, and nacked if the handler returned an error or panicked. Handling
  returns, unless the handler panicked, and then panics with the handler's value. This holds
  whether the broker's calls succeed or fail, as long as the error callbacks return and leave the
  broker alone.\<close>

theorem delivery_settled_once:
  assumes "\<forall>c w. \<exists>r. dl_Ack delivery c w = (Ret r, w\<lparr>env := acked c (env w)\<rparr>)"
    and "\<forall>c w. \<exists>r. dl_Nack delivery c w = (Ret r, w\<lparr>env := nacked c (env w)\<rparr>)"
    and "quiet (OnAckError (d_opts d))" "quiet (OnNackError (d_opts d))"
    and "handle_prepare d delivery w = ((c, fin), w1)"
    and "d_handler d (dl_Message delivery) w1 = (r, w2)"
  shows "\<exists>w'. Handle d delivery w = ((case r of Ret _ \<Rightarrow> Ret () | Panic q \<Rightarrow> Panic q), w')
     \<and> env w' = (if r = Ret None then acked c (env w2) else nacked c (env w2))"
proof -
  from assms(1,2) have "delivery_contract delivery acked nacked" by unfold_locales blast+
  from delivery_contract.handled_once [OF this assms(3-6)] show ?thesis .
qed

theorem delivery_settled_once_witness:
  "env (snd (Handle (demo_dispatcher (Ret None)) demo_delivery demo_start)) = [True]
   \<and> (\<exists>w'. Handle (demo_dispatcher (Panic (PVal VNil))) demo_delivery demo_start = (Panic (PVal VNil), w')
        \<and> env w' = [False])"
proof -
  have log: "\<forall>c w. \<exists>r. dl_Ack demo_delivery c w = (Ret r, w\<lparr>env := (\<lambda>c l. l @ [True]) c (env w)\<rparr>)"
    "\<forall>c w. \<exists>r. dl_Nack demo_delivery c w = (Ret r, w\<lparr>env := (\<lambda>c l. l @ [False]) c (env w)\<rparr>)"
    by (simp_all add: demo_delivery_def)
  have calm: "quiet (OnAckError (d_opts (demo_dispatcher r)))" "quiet (OnNackError (d_opts (demo_dispatcher r)))"
    and h: "d_handler (demo_dispatcher r) m w = (r, w)" for r m w
    by (simp_all add: demo_dispatch_defs quiet_def)
  have "\<exists>w'. Handle (demo_dispatcher r) demo_delivery demo_start
      = ((case r of Ret _ \<Rightarrow> Ret () | Panic q \<Rightarrow> Panic q), w') \<and> env w' = (if r = Ret None then [True] else [False])"
    for r
  proof -
    obtain a fin w1 where run: "handle_prepare (demo_dispatcher r) demo_delivery demo_start = ((a, fin), w1)"
      by (metis prod.exhaust)
    then have "env w1 = []"
      by (simp add: handle_prepare_frame(1) demo_start_def NewMessage_def new_map_def new_msg_def start_world_def)
    with delivery_settled_once [OF log calm run h] show ?thesis by (cases "r = Ret None") simp_all
  qed
  from this [of "Ret None"] this [of "Panic (PVal VNil)"] show ?thesis by auto
qed

end
