(* ===== verification/Dispatcher_Slots.thy ===== *)
theory Dispatcher_Slots
  imports Dispatcher
begin

text \<open>
  The concurrency of \<open>core/subscriber/dispatcher.go\<close>: calls of \<open>Dispatch\<close>, the goroutines they
  start, the channel of slots and the wait group. The state holds what every live call or goroutine
  is doing; a call that returned or a goroutine that ended leaves the list. The relation covers a
  run up to the first panic that leaves a goroutine, which ends the program.
\<close>

datatype job =
    Offered \<comment> \<open>\<open>Dispatch\<close> called, before \<open>ctx.Err()\<close>\<close>
  | Selecting \<comment> \<open>in the \<open>select\<close> of \<open>Dispatch\<close>\<close>
  | Refusing \<comment> \<open>in the \<open>d.nack\<close> at the end of \<open>Dispatch\<close>\<close>
  | HasSlot \<comment> \<open>sent to \<open>d.slots\<close>, before \<open>d.wg.Add\<close> and \<open>go\<close>\<close>
  | Handling \<comment> \<open>the goroutine, in \<open>d.Handle\<close>\<close>
  | Leaving \<comment> \<open>the goroutine, between \<open><-d.slots\<close> and \<open>d.wg.Done()\<close>\<close>

record disp =
  jobs :: "job list"
  slots :: nat \<comment> \<open>elements in the buffer of \<open>d.slots\<close>\<close>
  wg :: nat
  stopped :: bool \<comment> \<open>\<open>ctx.Err() != nil\<close>\<close>

inductive disp_step :: "nat \<Rightarrow> disp \<Rightarrow> disp \<Rightarrow> bool" for cap where
  offer: "disp_step cap s (s\<lparr>jobs := jobs s @ [Offered]\<rparr>)"
| stop: "disp_step cap s (s\<lparr>stopped := True\<rparr>)"
| enter: "i < length (jobs s) \<Longrightarrow> jobs s ! i = Offered \<Longrightarrow> \<not> stopped s \<Longrightarrow>
    disp_step cap s (s\<lparr>jobs := (jobs s)[i := Selecting]\<rparr>)"
| late: "i < length (jobs s) \<Longrightarrow> jobs s ! i = Offered \<Longrightarrow> stopped s \<Longrightarrow>
    disp_step cap s (s\<lparr>jobs := (jobs s)[i := Refusing]\<rparr>)"
| acquire: "i < length (jobs s) \<Longrightarrow> jobs s ! i = Selecting \<Longrightarrow> slots s < cap \<Longrightarrow>
    disp_step cap s (s\<lparr>jobs := (jobs s)[i := HasSlot], slots := Suc (slots s)\<rparr>)"
| give_up: "i < length (jobs s) \<Longrightarrow> jobs s ! i = Selecting \<Longrightarrow> stopped s \<Longrightarrow>
    disp_step cap s (s\<lparr>jobs := (jobs s)[i := Refusing]\<rparr>)"
| refused: "i < length (jobs s) \<Longrightarrow> jobs s ! i = Refusing \<Longrightarrow>
    disp_step cap s (s\<lparr>jobs := remove_at i (jobs s)\<rparr>)"
| start: "i < length (jobs s) \<Longrightarrow> jobs s ! i = HasSlot \<Longrightarrow>
    disp_step cap s (s\<lparr>jobs := (jobs s)[i := Handling], wg := Suc (wg s)\<rparr>)"
| free: "i < length (jobs s) \<Longrightarrow> jobs s ! i = Handling \<Longrightarrow> 0 < slots s \<Longrightarrow>
    disp_step cap s (s\<lparr>jobs := (jobs s)[i := Leaving], slots := slots s - 1\<rparr>)"
| leave: "i < length (jobs s) \<Longrightarrow> jobs s ! i = Leaving \<Longrightarrow> 0 < wg s \<Longrightarrow>
    disp_step cap s (s\<lparr>jobs := remove_at i (jobs s), wg := wg s - 1\<rparr>)"

definition disp_init :: "disp \<Rightarrow> bool" where
  "disp_init s \<longleftrightarrow> jobs s = [] \<and> slots s = 0 \<and> wg s = 0"

text \<open>\<open>d.wg.Wait()\<close> can return.\<close>

definition wait_returns :: "disp \<Rightarrow> bool" where
  "wait_returns s \<longleftrightarrow> wg s = 0"

definition holds_slot :: "job \<Rightarrow> bool" where
  "holds_slot j \<longleftrightarrow> j = HasSlot \<or> j = Handling"

definition in_group :: "job \<Rightarrow> bool" where
  "in_group j \<longleftrightarrow> j = Handling \<or> j = Leaving"

definition disp_inv :: "nat \<Rightarrow> disp \<Rightarrow> bool" where
  "disp_inv cap s \<longleftrightarrow> slots s = tally holds_slot (jobs s) \<and> wg s = tally in_group (jobs s) \<and> slots s \<le> cap"

lemmas job_kinds = holds_slot_def in_group_def

lemma disp_init_inv: "disp_init s \<Longrightarrow> disp_inv cap s"
  by (simp add: disp_init_def disp_inv_def)

lemma disp_step_inv:
  assumes "disp_inv cap s" "disp_step cap s t"
  shows "disp_inv cap t"
  using assms(2,1)
  by (cases rule: disp_step.cases)
    (auto simp: disp_inv_def tally_update tally_at [of _ "jobs s"] job_kinds)

interpretation disp: invariant_system disp_init "disp_step cap" "disp_inv cap" for cap
  by unfold_locales (rule disp_init_inv disp_step_inv; assumption)+

section \<open>Properties\<close>

text \<open>C2: However the calls of \<open>Dispatch\<close> and the handlers interleave, a dispatcher never handles more
  than \<open>MaxInFlight\<close> deliveries at the same time (ten when the option is not positive). Giving a
  slot back never blocks and leaving the wait group never panics, and no slot leaks: a call that
  finds no free slot waits for exactly that many deliveries that hold one.\<close>

theorem dispatcher_limits_concurrency:
  assumes "disp_init s0" "steps (disp_step (nat (d_slots (NewDispatcher h opts)))) s0 s"
  shows "tally (\<lambda>j. j = Handling) (jobs s) \<le> (if MaxInFlight opts \<le> 0 then 10 else nat (MaxInFlight opts))
    \<and> (\<forall>i < length (jobs s). (jobs s ! i = Handling \<longrightarrow> 0 < slots s) \<and> (jobs s ! i = Leaving \<longrightarrow> 0 < wg s))
    \<and> (slots s < nat (d_slots (NewDispatcher h opts))
       \<or> tally holds_slot (jobs s) = nat (d_slots (NewDispatcher h opts)))"
proof -
  let ?cap = "nat (d_slots (NewDispatcher h opts))"
  from disp.reachable [OF assms] have inv: "slots s = tally holds_slot (jobs s)"
    "wg s = tally in_group (jobs s)" "slots s \<le> ?cap"
    by (simp_all add: disp_inv_def)
  have "tally (\<lambda>j. j = Handling) (jobs s) \<le> tally holds_slot (jobs s)"
    by (rule tally_mono) (simp add: job_kinds)
  moreover have "?cap = (if MaxInFlight opts \<le> 0 then 10 else nat (MaxInFlight opts))"
    by (simp add: NewDispatcher_def DefaultMaxInFlight_def)
  moreover have "0 < slots s" if "i < length (jobs s)" "jobs s ! i = Handling" for i
    using tally_at [OF that(1), of holds_slot] that(2) inv(1) by (simp add: job_kinds)
  moreover have "0 < wg s" if "i < length (jobs s)" "jobs s ! i = Leaving" for i
    using tally_at [OF that(1), of in_group] that(2) inv(2) by (simp add: job_kinds)
  ultimately show ?thesis using inv by auto
qed

text \<open>One delivery taken as far as its handler, for the witnesses.\<close>

lemma handling_reached:
  assumes "0 < cap"
  shows "steps (disp_step cap) \<lparr>jobs = [], slots = 0, wg = 0, stopped = False\<rparr>
    \<lparr>jobs = [Handling], slots = 1, wg = 1, stopped = False\<rparr>"
proof -
  let ?st = "\<lambda>js n g. \<lparr>jobs = js, slots = n, wg = g, stopped = False\<rparr>"
  have "disp_step cap (?st [] 0 0) (?st [Offered] 0 0)"
    using disp_step.offer [of cap "?st [] 0 0"] by simp
  moreover have "disp_step cap (?st [Offered] 0 0) (?st [Selecting] 0 0)"
    using disp_step.enter [of 0 "?st [Offered] 0 0" cap] by simp
  moreover have "disp_step cap (?st [Selecting] 0 0) (?st [HasSlot] 1 0)"
    using disp_step.acquire [of 0 "?st [Selecting] 0 0" cap] assms by simp
  moreover have "disp_step cap (?st [HasSlot] 1 0) (?st [Handling] 1 1)"
    using disp_step.start [of 0 "?st [HasSlot] 1 0" cap] by simp
  ultimately show ?thesis by (meson steps.intros)
qed

definition one_at_a_time :: "unit dispatcher" where
  "one_at_a_time = NewDispatcher (\<lambda>m w. (Ret None, w))
     \<lparr>MaxInFlight = 1, ProcessingTimeout = 0, OnAckError = None, OnNackError = None\<rparr>"

theorem dispatcher_limits_concurrency_witness:
  "\<exists>s0 s. disp_init s0 \<and> steps (disp_step (nat (d_slots one_at_a_time))) s0 s
     \<and> jobs s = [Handling] \<and> tally (\<lambda>j. j = Handling) (jobs s) \<le> 1"
proof -
  let ?a = "\<lparr>jobs = [], slots = 0, wg = 0, stopped = False\<rparr>"
  let ?s = "\<lparr>jobs = [Handling], slots = 1, wg = 1, stopped = False\<rparr>"
  have init: "disp_init ?a" by (simp add: disp_init_def)
  have run: "steps (disp_step (nat (d_slots one_at_a_time))) ?a ?s"
    by (rule handling_reached) (simp add: one_at_a_time_def NewDispatcher_def)
  from dispatcher_limits_concurrency [OF init run [unfolded one_at_a_time_def]]
  have "jobs ?s = [Handling] \<and> tally (\<lambda>j. j = Handling) (jobs ?s) \<le> 1" by simp
  with init run show ?thesis by blast
qed

text \<open>\<open>Wait\<close> returns exactly when no goroutine of the dispatcher is left in \<open>Handle\<close> or on its way
  out. When the caller is not inside \<open>Dispatch\<close> either, as in a receive loop that calls \<open>Wait\<close> after
  its last \<open>Dispatch\<close>, every delivery is settled by then and all slots are free again.\<close>

theorem wait_returns_when_settled:
  assumes "disp_init s0" "steps (disp_step cap) s0 s"
  shows "(wait_returns s \<longleftrightarrow> Handling \<notin> set (jobs s) \<and> Leaving \<notin> set (jobs s))
    \<and> (wait_returns s \<longrightarrow> set (jobs s) \<inter> {Offered, Selecting, Refusing, HasSlot} = {} \<longrightarrow>
         jobs s = [] \<and> slots s = 0)"
proof -
  from disp.reachable [OF assms] have inv: "slots s = tally holds_slot (jobs s)" "wg s = tally in_group (jobs s)"
    by (simp_all add: disp_inv_def)
  have wait: "wait_returns s \<longleftrightarrow> Handling \<notin> set (jobs s) \<and> Leaving \<notin> set (jobs s)"
    by (auto simp: wait_returns_def inv tally_none job_kinds)
  have "jobs s = []" if "wait_returns s" "set (jobs s) \<inter> {Offered, Selecting, Refusing, HasSlot} = {}"
  proof (cases "jobs s")
    case (Cons j js)
    with that wait show ?thesis by (cases j) auto
  qed
  with wait inv show ?thesis by auto
qed

theorem wait_returns_when_settled_witness:
  "\<exists>s0 s. disp_init s0 \<and> steps (disp_step 1) s0 s \<and> jobs s = [Handling] \<and> \<not> wait_returns s"
proof -
  let ?a = "\<lparr>jobs = [], slots = 0, wg = 0, stopped = False\<rparr>"
  let ?s = "\<lparr>jobs = [Handling], slots = 1, wg = 1, stopped = False\<rparr>"
  have init: "disp_init ?a" by (simp add: disp_init_def)
  have run: "steps (disp_step 1) ?a ?s" by (rule handling_reached) simp
  from wait_returns_when_settled [OF init run] have "jobs ?s = [Handling] \<and> \<not> wait_returns ?s" by simp
  with init run show ?thesis by blast
qed

end
