(* ===== verification/Channel_Subscriber.thy ===== *)
theory Channel_Subscriber
  imports Dispatcher_Slots
begin

text \<open>
  \<open>core/publisher/channel.go\<close> and \<open>core/subscriber/channel.go\<close>: the publisher and the subscriber of
  a Go channel. The receive loop, its drain loop, the goroutines of its dispatcher, the retry
  channel and the publishers interleave as a step relation. The input channel is a queue without
  bound: a bound, which the caller chooses, only delays publishers. As in \<open>Dispatcher_Slots\<close>, the
  relation covers a run up to the first panic that leaves a goroutine.
\<close>

section \<open>The channel and its publisher\<close>

record gochan =
  buf :: "addr option list" \<comment> \<open>\<open>None\<close> is a nil message\<close>
  chan_closed :: bool

definition ChannelPublisher_Publish :: "addr option \<Rightarrow> gochan \<Rightarrow> gerr option res \<times> gochan" where
  "ChannelPublisher_Publish msg c =
     (if chan_closed c then (Panic (PErr (ErrRuntime ''send on closed channel'')), c)
      else (Ret None, c\<lparr>buf := buf c @ [msg]\<rparr>))"

definition ChannelPublisher_GetMessageID :: "'e world \<Rightarrow> addr option \<Rightarrow> string" where
  "ChannelPublisher_GetMessageID w msg = (case msg of None \<Rightarrow> [] | Some m \<Rightarrow> ID (get_msg w m))"

definition ChannelPublisher_Close :: "gochan \<Rightarrow> gerr option res \<times> gochan" where
  "ChannelPublisher_Close c =
     (if chan_closed c then (Panic (PErr (ErrRuntime ''close of closed channel'')), c)
      else (Ret None, c\<lparr>chan_closed := True\<rparr>))"

section \<open>One attempt\<close>

record channel_subscriber =
  maxInFlight :: int

definition NewChannelSubscriber :: "int \<Rightarrow> channel_subscriber" where
  "NewChannelSubscriber n = \<lparr>maxInFlight = (if n \<le> 0 then 1 else n)\<rparr>"

definition channel_dispatcher ::
  "channel_subscriber \<Rightarrow> (addr \<Rightarrow> ('e, gerr option) act) \<Rightarrow> 'e dispatcher"
where
  "channel_dispatcher c handler =
     NewDispatcher handler
       \<lparr>MaxInFlight = maxInFlight c, ProcessingTimeout = 0, OnAckError = None, OnNackError = None\<rparr>"

lemma channel_dispatcher_simps [simp]:
  "ProcessingTimeout (d_opts (channel_dispatcher c h)) = 0"
  "OnAckError (d_opts (channel_dispatcher c h)) = None"
  "OnNackError (d_opts (channel_dispatcher c h)) = None"
  "d_handler (channel_dispatcher c h) = h"
  "d_slots (channel_dispatcher (NewChannelSubscriber n) h) = maxInFlight (NewChannelSubscriber n)"
  by (simp_all add: channel_dispatcher_def NewDispatcher_def NewChannelSubscriber_def)

text \<open>
  The delivery given to \<open>d.Dispatch\<close>: a copy of the message, an \<open>Ack\<close> that does nothing and a \<open>Nack\<close>
  that sends the message itself to the retry channel; \<open>to_retry\<close> is the send that finds room. How
  long it waits for room is in the step relation below.
\<close>

definition channel_delivery :: "(addr \<Rightarrow> 'e \<Rightarrow> 'e) \<Rightarrow> addr \<Rightarrow> 'e world \<Rightarrow> 'e delivery \<times> 'e world" where
  "channel_delivery to_retry msg w =
     (let (copy, w1) = Copy msg w
      in (\<lparr>dl_Message = copy,
           dl_Ack = (\<lambda>c w. (Ret None, w)),
           dl_Nack = (\<lambda>c w. (Ret None, w\<lparr>env := to_retry msg (env w)\<rparr>))\<rparr>, w1))"

interpretation attempt: delivery_contract "fst (channel_delivery to_retry msg w0)" "\<lambda>c r. r" "\<lambda>c. to_retry msg"
  for to_retry msg w0
  by unfold_locales (simp_all add: channel_delivery_def split: prod.split)

text \<open>What the handler finds: a copy of the kept message, with the context of the attempt.\<close>

lemma channel_prepared:
  assumes "wf_world w" "valid_msg w msg" "channel_delivery to_retry msg w = (delivery, w1)"
    and "handle_prepare d delivery w1 = ((ackCtx, fin), w2)" "ProcessingTimeout (d_opts d) = 0"
  shows "dl_Message delivery = length (heap_msgs w)" "dl_Message delivery \<noteq> msg" "valid_msg w2 (dl_Message delivery)"
    and "get_msg w2 msg = get_msg w msg" "meta_of w2 msg = meta_of w msg"
    and "ID (get_msg w2 (dl_Message delivery)) = ID (get_msg w msg)"
    and "Payload (get_msg w2 (dl_Message delivery)) = Payload (get_msg w msg)"
    and "meta_of w2 (dl_Message delivery) = meta_of w msg"
    and "env w2 = env w" "clock w2 = clock w" "tickers w2 = tickers w" "valid_msg w2 msg"
proof -
  obtain m where copy: "Copy msg w = (m, w1)" and m: "dl_Message delivery = m"
    using assms(3) by (auto simp: channel_delivery_def split: prod.splits)
  note facts = Copy_facts [OF assms(1,2) copy]
  have w1: "env w1 = env w" "clock w1 = clock w" "tickers w1 = tickers w"
    using copy by (auto simp: Copy_heaps [OF assms(2)])
  have w2: "w2 = SetContext m ackCtx w1"
    using assms(4,5) m by (auto simp: handle_prepare_def Let_def)
  show "dl_Message delivery = length (heap_msgs w)" "dl_Message delivery \<noteq> msg"
    using assms(2) facts(1) m by (simp_all add: valid_msg_def)
  then have "m \<noteq> msg" by (simp add: m)
  then show "get_msg w2 msg = get_msg w msg" "meta_of w2 msg = meta_of w msg"
    using facts(4,5) [OF assms(2)] by (simp_all add: w2 SetContext_def)
  show "ID (get_msg w2 (dl_Message delivery)) = ID (get_msg w msg)"
    "Payload (get_msg w2 (dl_Message delivery)) = Payload (get_msg w msg)"
    "meta_of w2 (dl_Message delivery) = meta_of w msg" "valid_msg w2 (dl_Message delivery)" "valid_msg w2 msg"
    using facts(2,6-8) facts(3) [OF assms(2)] by (simp_all add: m w2 SetContext_def)
  show "env w2 = env w" "clock w2 = clock w" "tickers w2 = tickers w"
    by (simp_all add: w1 w2 SetContext_def upd_msg_def)
qed

text \<open>One attempt of the channel subscriber handles a copy: the message kept for a retry is left
  as it is up to the handler's own changes, and the handler sees the same ID, payload and metadata
  as that message. The retry channel gets the message, and not its copy, exactly if the handler
  returned an error or panicked.\<close>

theorem channel_attempt:
  assumes "wf_world w" "valid_msg w msg" "channel_delivery to_retry msg w = (delivery, w1)"
    and "handle_prepare (channel_dispatcher c h) delivery w1 = ((ackCtx, fin), w2)"
    and "h (dl_Message delivery) w2 = (r, w3)"
  shows "dl_Message delivery \<noteq> msg \<and> get_msg w2 msg = get_msg w msg \<and> meta_of w2 msg = meta_of w msg
    \<and> ID (get_msg w2 (dl_Message delivery)) = ID (get_msg w msg)
    \<and> Payload (get_msg w2 (dl_Message delivery)) = Payload (get_msg w msg)
    \<and> meta_of w2 (dl_Message delivery) = meta_of w msg
    \<and> (\<exists>w'. Handle (channel_dispatcher c h) delivery w1 = ((case r of Ret _ \<Rightarrow> Ret () | Panic q \<Rightarrow> Panic q), w')
        \<and> env w' = (if r = Ret None then env w3 else to_retry msg (env w3)))"
proof -
  have quiet: "quiet (OnAckError (d_opts (channel_dispatcher c h)))" "quiet (OnNackError (d_opts (channel_dispatcher c h)))"
    by (simp_all add: quiet_def)
  have fst_delivery: "fst (channel_delivery to_retry msg w) = delivery" using assms(3) by simp
  from attempt.handled_once [of "channel_dispatcher c h" to_retry msg w, OF quiet, unfolded fst_delivery channel_dispatcher_simps, OF assms(4,5)]
    channel_prepared [OF assms(1-4)]
  show ?thesis by simp
qed

theorem channel_attempt_witness:
  "let w = snd (WithMetadata 0 ''k'' (VInt 1) (snd (NewMessage Background VNil (start_world []))));
       c = NewChannelSubscriber 0;
       (delivery, w1) = channel_delivery (\<lambda>m ms. ms @ [m]) 0 w;
       (r, w') = Handle (channel_dispatcher c (\<lambda>m w. (Ret (Some (ErrNew ''no'')), w))) delivery w1
   in dl_Message delivery = 1 \<and> r = Ret () \<and> env w' = [0]"
proof -
  define w where "w = snd (WithMetadata 0 ''k'' (VInt 1) (snd (NewMessage Background VNil (start_world ([] :: addr list)))))"
  have ok: "wf_world w" "valid_msg w 0" "env w = []" "length (heap_msgs w) = 1"
    unfolding w_def
    by (auto intro!: wf_world_WithMetadata simp: message_defs world_defs start_world_def wf_world_def andThen_def map_assign_def)
  let ?h = "\<lambda>m w. (Ret (Some (ErrNew ''no'')), w)" and ?c = "NewChannelSubscriber 0"
  obtain d w1 where d: "channel_delivery (\<lambda>m ms. ms @ [m]) 0 w = (d, w1)" by fastforce
  obtain a fin w2 where prep: "handle_prepare (channel_dispatcher ?c ?h) d w1 = ((a, fin), w2)"
    by (metis prod.exhaust)
  note facts = channel_prepared [OF ok(1,2) d prep]
  from facts(1,9) channel_attempt [OF ok(1,2) d prep, of "Ret (Some (ErrNew ''no''))" w2] ok(3,4)
  show ?thesis by (auto simp: w_def [symmetric] d)
qed

text \<open>A handler that does not panic: the whole world after the attempt.\<close>

lemma channel_handled:
  assumes "channel_delivery to_retry msg w = (delivery, w1)"
    and "handle_prepare (channel_dispatcher c h) delivery w1 = ((ackCtx, fin), w2)"
    and "h (dl_Message delivery) w2 = (Ret err, w3)"
  shows "Handle (channel_dispatcher c h) delivery w1
    = (Ret (), case err of None \<Rightarrow> w3 | Some _ \<Rightarrow> w3\<lparr>env := to_retry msg (env w3)\<rparr>)"
proof -
  have "fin = (\<lambda>w. w)" using assms(2) by (auto simp: handle_prepare_def Let_def)
  moreover have "dl_Ack delivery = (\<lambda>c w. (Ret None, w))" "dl_Nack delivery = (\<lambda>c w. (Ret None, w\<lparr>env := to_retry msg (env w)\<rparr>))"
    using assms(1) by (auto simp: channel_delivery_def split: prod.splits)
  ultimately show ?thesis
    using assms(3) by (simp add: Handle_def assms(2) dispatcher_defs split: option.split)
qed

section \<open>The receive loop\<close>

datatype loop = Receiving | Draining

datatype main_pc =
    InSelect \<comment> \<open>the \<open>select\<close> of \<open>Receive\<close>\<close>
  | Offering loop addr \<comment> \<open>\<open>dispatch\<close> called, before \<open>ctx.Err()\<close> in \<open>Dispatch\<close>\<close>
  | AwaitSlot loop addr \<comment> \<open>the \<open>select\<close> of \<open>Dispatch\<close>\<close>
  | Refuse loop addr \<comment> \<open>\<open>d.nack\<close> in \<open>Dispatch\<close>\<close>
  | FinalWait \<comment> \<open>\<open>d.Wait()\<close> after \<open>ctx\<close> is done\<close>
  | DrainWait \<comment> \<open>\<open>d.Wait()\<close> of \<open>drain\<close>\<close>
  | DrainSelect \<comment> \<open>the \<open>select\<close> of \<open>drain\<close>\<close>
  | Returned

datatype phase =
    Running \<comment> \<open>in the handler\<close>
  | Nacking \<comment> \<open>in \<open>retry <- msg\<close>\<close>
  | Settled \<comment> \<open>acked or nacked, the slot still held\<close>
  | Freed \<comment> \<open>between \<open><-d.slots\<close> and \<open>d.wg.Done()\<close>\<close>

record chan_sys =
  input :: gochan
  retry :: "addr list"
  main :: main_pc
  workers :: "(addr \<times> phase) list"
  sem :: nat \<comment> \<open>elements in the buffer of \<open>d.slots\<close>\<close>
  group :: nat \<comment> \<open>the wait group\<close>
  ctx_over :: bool
  taken :: "addr list" \<comment> \<open>history: messages received from the input\<close>
  acked_msgs :: "addr list" \<comment> \<open>history: messages acked\<close>

text \<open>Where the loop goes on after \<open>dispatch\<close>.\<close>

fun resume :: "loop \<Rightarrow> main_pc" where
  "resume Receiving = InSelect"
| "resume Draining = DrainWait"

text \<open>The parameter is \<open>c.maxInFlight\<close>, the capacity of the slots; \<open>retry\<close> has room for one more.\<close>

inductive chan_step :: "nat \<Rightarrow> chan_sys \<Rightarrow> chan_sys \<Rightarrow> bool" for n where
  publish: "ChannelPublisher_Publish m (input s) = (Ret None, c) \<Longrightarrow> chan_step n s (s\<lparr>input := c\<rparr>)"
| close: "ChannelPublisher_Close (input s) = (Ret None, c) \<Longrightarrow> chan_step n s (s\<lparr>input := c\<rparr>)"
| stop: "chan_step n s (s\<lparr>ctx_over := True\<rparr>)"
| sel_done: "main s = InSelect \<Longrightarrow> ctx_over s \<Longrightarrow> chan_step n s (s\<lparr>main := FinalWait\<rparr>)"
| sel_retry: "main s = InSelect \<Longrightarrow> retry s = m # ms \<Longrightarrow>
    chan_step n s (s\<lparr>main := Offering Receiving m, retry := ms\<rparr>)"
| sel_input: "main s = InSelect \<Longrightarrow> buf (input s) = Some m # ms \<Longrightarrow>
    chan_step n s (s\<lparr>main := Offering Receiving m, input := (input s)\<lparr>buf := ms\<rparr>, taken := taken s @ [m]\<rparr>)"
| sel_nil: "main s = InSelect \<Longrightarrow> buf (input s) = None # ms \<Longrightarrow>
    chan_step n s (s\<lparr>input := (input s)\<lparr>buf := ms\<rparr>\<rparr>)"
| sel_closed: "main s = InSelect \<Longrightarrow> buf (input s) = [] \<Longrightarrow> chan_closed (input s) \<Longrightarrow>
    chan_step n s (s\<lparr>main := DrainWait\<rparr>)"
| offer: "main s = Offering l m \<Longrightarrow> \<not> ctx_over s \<Longrightarrow> chan_step n s (s\<lparr>main := AwaitSlot l m\<rparr>)"
| offer_late: "main s = Offering l m \<Longrightarrow> ctx_over s \<Longrightarrow> chan_step n s (s\<lparr>main := Refuse l m\<rparr>)"
| take_slot: "main s = AwaitSlot l m \<Longrightarrow> sem s < n \<Longrightarrow>
    chan_step n s (s\<lparr>main := resume l, workers := workers s @ [(m, Running)],
                     sem := Suc (sem s), group := Suc (group s)\<rparr>)"
| give_up: "main s = AwaitSlot l m \<Longrightarrow> ctx_over s \<Longrightarrow> chan_step n s (s\<lparr>main := Refuse l m\<rparr>)"
| refuse: "main s = Refuse l m \<Longrightarrow> length (retry s) < n + 1 \<Longrightarrow>
    chan_step n s (s\<lparr>main := resume l, retry := retry s @ [m]\<rparr>)"
| succeed: "i < length (workers s) \<Longrightarrow> workers s ! i = (m, Running) \<Longrightarrow>
    chan_step n s (s\<lparr>workers := (workers s)[i := (m, Settled)], acked_msgs := acked_msgs s @ [m]\<rparr>)"
| fail: "i < length (workers s) \<Longrightarrow> workers s ! i = (m, Running) \<Longrightarrow>
    chan_step n s (s\<lparr>workers := (workers s)[i := (m, Nacking)]\<rparr>)"
| nacked: "i < length (workers s) \<Longrightarrow> workers s ! i = (m, Nacking) \<Longrightarrow> length (retry s) < n + 1 \<Longrightarrow>
    chan_step n s (s\<lparr>workers := (workers s)[i := (m, Settled)], retry := retry s @ [m]\<rparr>)"
| free: "i < length (workers s) \<Longrightarrow> workers s ! i = (m, Settled) \<Longrightarrow> 0 < sem s \<Longrightarrow>
    chan_step n s (s\<lparr>workers := (workers s)[i := (m, Freed)], sem := sem s - 1\<rparr>)"
| leave: "i < length (workers s) \<Longrightarrow> workers s ! i = (m, Freed) \<Longrightarrow> 0 < group s \<Longrightarrow>
    chan_step n s (s\<lparr>workers := remove_at i (workers s), group := group s - 1\<rparr>)"
| final: "main s = FinalWait \<Longrightarrow> group s = 0 \<Longrightarrow> chan_step n s (s\<lparr>main := Returned\<rparr>)"
| drain_over: "main s = DrainWait \<Longrightarrow> group s = 0 \<Longrightarrow> ctx_over s \<Longrightarrow> chan_step n s (s\<lparr>main := Returned\<rparr>)"
| drain: "main s = DrainWait \<Longrightarrow> group s = 0 \<Longrightarrow> \<not> ctx_over s \<Longrightarrow> chan_step n s (s\<lparr>main := DrainSelect\<rparr>)"
| drain_retry: "main s = DrainSelect \<Longrightarrow> retry s = m # ms \<Longrightarrow>
    chan_step n s (s\<lparr>main := Offering Draining m, retry := ms\<rparr>)"
| drain_end: "main s = DrainSelect \<Longrightarrow> retry s = [] \<Longrightarrow> chan_step n s (s\<lparr>main := Returned\<rparr>)"

definition chan_init :: "chan_sys \<Rightarrow> bool" where
  "chan_init s \<longleftrightarrow> input s = \<lparr>buf = [], chan_closed = False\<rparr> \<and> retry s = [] \<and> main s = InSelect
     \<and> workers s = [] \<and> sem s = 0 \<and> group s = 0 \<and> \<not> ctx_over s \<and> taken s = [] \<and> acked_msgs s = []"

section \<open>The subscriber as a client of the dispatcher\<close>

text \<open>What the dispatcher of the subscriber is doing, as a state of \<open>Dispatcher_Slots\<close>.\<close>

definition worker_job :: "addr \<times> phase \<Rightarrow> job" where
  "worker_job x = (if snd x = Freed then Leaving else Handling)"

fun main_job :: "main_pc \<Rightarrow> job list" where
  "main_job (Offering l m) = [Offered]"
| "main_job (AwaitSlot l m) = [Selecting]"
| "main_job (Refuse l m) = [Refusing]"
| "main_job _ = []"

definition abs_disp :: "chan_sys \<Rightarrow> disp" where
  "abs_disp s = \<lparr>jobs = map worker_job (workers s) @ main_job (main s), slots = sem s, wg = group s,
                 stopped = ctx_over s\<rparr>"

lemma main_job_back [simp]: "main_job (resume l) = []"
  by (cases l) simp_all

lemma map_worker_same:
  "i < length ws \<Longrightarrow> worker_job x = worker_job (ws ! i) \<Longrightarrow> map worker_job (ws[i := x]) = map worker_job ws"
  by (metis list_update_id map_update nth_map)

lemma abs_disp_same: "main_job (main t) = main_job (main s) \<Longrightarrow> map worker_job (workers t) = map worker_job (workers s)
    \<Longrightarrow> sem t = sem s \<Longrightarrow> group t = group s \<Longrightarrow> ctx_over t = ctx_over s \<Longrightarrow> abs_disp t = abs_disp s"
  by (simp add: abs_disp_def)

text \<open>Every step of the subscriber is a run of its dispatcher, or does not involve it.\<close>

lemma chan_step_simulated:
  assumes "chan_step n s t"
  shows "steps (disp_step n) (abs_disp s) (abs_disp t)"
  using assms
proof (cases rule: chan_step.cases)
  case stop
  with disp_step.stop [of n "abs_disp s"] show ?thesis by (simp add: steps_single abs_disp_def)
next
  case (sel_retry m ms)
  with disp_step.offer [of n "abs_disp s"] show ?thesis by (simp add: steps_single abs_disp_def)
next
  case (sel_input m ms)
  with disp_step.offer [of n "abs_disp s"] show ?thesis by (simp add: steps_single abs_disp_def)
next
  case (drain_retry m ms)
  with disp_step.offer [of n "abs_disp s"] show ?thesis by (simp add: steps_single abs_disp_def)
next
  case (offer l m)
  with disp_step.enter [of "length (workers s)" "abs_disp s" n] show ?thesis
    by (simp add: steps_single abs_disp_def nth_append list_update_append)
next
  case (offer_late l m)
  with disp_step.late [of "length (workers s)" "abs_disp s" n] show ?thesis
    by (simp add: steps_single abs_disp_def nth_append list_update_append)
next
  case (give_up l m)
  with disp_step.give_up [of "length (workers s)" "abs_disp s" n] show ?thesis
    by (simp add: steps_single abs_disp_def nth_append list_update_append)
next
  case (take_slot l m)
  let ?u = "abs_disp s\<lparr>jobs := map worker_job (workers s) @ [HasSlot], slots := Suc (sem s)\<rparr>"
  have "disp_step n (abs_disp s) ?u"
    using disp_step.acquire [of "length (workers s)" "abs_disp s" n] take_slot
    by (simp add: abs_disp_def nth_append list_update_append)
  moreover have "disp_step n ?u (abs_disp t)"
    using disp_step.start [of "length (workers s)" ?u n] take_slot
    by (simp add: abs_disp_def nth_append list_update_append worker_job_def)
  ultimately show ?thesis by (meson steps.intros)
next
  case (refuse l m)
  with disp_step.refused [of "length (workers s)" "abs_disp s" n] show ?thesis
    using remove_at_last [of "map worker_job (workers s)"]
    by (simp add: steps_single abs_disp_def nth_append)
next
  case (free i m)
  with disp_step.free [of i "abs_disp s" n] show ?thesis
    by (simp add: steps_single abs_disp_def nth_append list_update_append worker_job_def map_update)
next
  case (leave i m)
  with disp_step.leave [of i "abs_disp s" n] show ?thesis
    by (simp add: steps_single abs_disp_def nth_append worker_job_def remove_at_append map_remove_at)
next
  case (succeed i m)
  then have "abs_disp t = abs_disp s" by (auto intro!: abs_disp_same map_worker_same simp: worker_job_def)
  then show ?thesis by (simp add: steps_refl)
next
  case (fail i m)
  then have "abs_disp t = abs_disp s" by (auto intro!: abs_disp_same map_worker_same simp: worker_job_def)
  then show ?thesis by (simp add: steps_refl)
next
  case (nacked i m)
  then have "abs_disp t = abs_disp s" by (auto intro!: abs_disp_same map_worker_same simp: worker_job_def)
  then show ?thesis by (simp add: steps_refl)
qed (simp_all add: abs_disp_def steps_refl)

lemma chan_runs_simulated: "steps (chan_step n) s t \<Longrightarrow> steps (disp_step n) (abs_disp s) (abs_disp t)"
  by (induction rule: steps.induct) (blast intro: steps_refl steps_trans chan_step_simulated)+

section \<open>Invariant\<close>

text \<open>
  Every message taken from the input is in exactly one place: acked, waiting in \<open>retry\<close>, held by
  the loop, or with a worker that has not settled it.
\<close>

fun held_by :: "main_pc \<Rightarrow> addr list" where
  "held_by (Offering l m) = [m]"
| "held_by (AwaitSlot l m) = [m]"
| "held_by (Refuse l m) = [m]"
| "held_by _ = []"

fun unsettled :: "phase \<Rightarrow> bool" where
  "unsettled Running = True"
| "unsettled Nacking = True"
| "unsettled _ = False"

definition in_workers :: "(addr \<times> phase) list \<Rightarrow> addr multiset" where
  "in_workers ws = mset (map fst (filter (\<lambda>x. unsettled (snd x)) ws))"

fun draining :: "main_pc \<Rightarrow> bool" where
  "draining (Offering l m) = (l = Draining)"
| "draining (AwaitSlot l m) = (l = Draining)"
| "draining (Refuse l m) = (l = Draining)"
| "draining pc = (pc = DrainWait \<or> pc = DrainSelect)"

definition chan_inv :: "nat \<Rightarrow> chan_sys \<Rightarrow> bool" where
  "chan_inv n s \<longleftrightarrow>
     disp_inv n (abs_disp s)
   \<and> mset (taken s) = mset (acked_msgs s) + mset (retry s) + mset (held_by (main s)) + in_workers (workers s)
   \<and> length (retry s) \<le> n + 1
   \<and> (draining (main s) \<longrightarrow> buf (input s) = [] \<and> chan_closed (input s))
   \<and> (main s = FinalWait \<longrightarrow> ctx_over s)
   \<and> (main s = DrainSelect \<or> main s = Returned \<longrightarrow> workers s = [])
   \<and> (main s = Returned \<longrightarrow> ctx_over s \<or> retry s = [] \<and> buf (input s) = [] \<and> chan_closed (input s))"

lemma in_workers_simps [simp]:
  "in_workers [] = {#}" "in_workers (ws @ [(m, p)]) = in_workers ws + (if unsettled p then {#m#} else {#})"
  by (simp_all add: in_workers_def)

lemma in_workers_at:
  "i < length ws \<Longrightarrow> in_workers ws = in_workers (remove_at i ws) +
     (if unsettled (snd (ws ! i)) then {#fst (ws ! i)#} else {#})"
  by (subst (1) id_take_nth_drop [of i ws]) (simp_all add: in_workers_def remove_at_def)

lemma in_workers_update:
  "i < length ws \<Longrightarrow> in_workers (ws[i := (m, p)]) = in_workers (remove_at i ws) +
     (if unsettled p then {#m#} else {#})"
  by (simp add: in_workers_def upd_conv_take_nth_drop remove_at_def)

lemma draining_resume [simp]: "draining (resume l) = (l = Draining)" "held_by (resume l) = []"
  "resume l \<noteq> FinalWait" "resume l \<noteq> DrainSelect" "resume l \<noteq> Returned"
  by (cases l; simp)+

lemma group_workers: "disp_inv n (abs_disp s) \<Longrightarrow> group s = length (workers s)"
proof -
  have "tally in_group (map worker_job ws) = length ws" for ws
    by (induction ws) (auto simp: worker_job_def job_kinds)
  moreover have "tally in_group (main_job pc) = 0" for pc
    by (cases pc) (simp_all add: job_kinds)
  ultimately show "disp_inv n (abs_disp s) \<Longrightarrow> group s = length (workers s)"
    by (simp add: disp_inv_def abs_disp_def del: tally_map)
qed

lemma chan_step_inv:
  assumes "chan_inv n s" "chan_step n s t"
  shows "chan_inv n t"
proof -
  have abs: "disp_inv n (abs_disp t)"
    using assms disp.steps_keep chan_step_simulated unfolding chan_inv_def by blast
  have group: "group s = length (workers s)"
    using assms(1) group_workers by (auto simp: chan_inv_def)
  note inv = assms(1) [unfolded chan_inv_def]
  show ?thesis
    using assms(2) inv abs group
    by (cases rule: chan_step.cases)
      (auto simp: chan_inv_def ChannelPublisher_Publish_def ChannelPublisher_Close_def
        in_workers_at [of _ "workers s"] in_workers_update split: if_splits)
qed

lemma chan_init_inv: "chan_init s \<Longrightarrow> chan_inv n s"
  by (simp add: chan_init_def chan_inv_def abs_disp_def disp_inv_def)

interpretation chan: invariant_system chan_init "chan_step n" "chan_inv n" for n
  by unfold_locales (rule chan_init_inv chan_step_inv; assumption)+

section \<open>Runs\<close>

text \<open>The state between two turns of the loop when no worker has settled its message.\<close>

definition turn :: "addr option list \<Rightarrow> addr list \<Rightarrow> (addr \<times> phase) list \<Rightarrow> addr list \<Rightarrow> addr list \<Rightarrow> chan_sys" where
  "turn b r ws tk ak = \<lparr>input = \<lparr>buf = b, chan_closed = False\<rparr>, retry = r, main = InSelect, workers = ws,
     sem = length ws, group = length ws, ctx_over = False, taken = tk, acked_msgs = ak\<rparr>"

lemma turn_init: "chan_init (turn [] [] [] [] [])"
  by (simp add: chan_init_def turn_def)

lemma turn_publish: "steps (chan_step n) (turn b r ws tk ak) (turn (b @ ms) r ws tk ak)"
proof (induction ms rule: rev_induct)
  case (snoc m ms)
  have "chan_step n (turn (b @ ms) r ws tk ak) (turn (b @ ms @ [m]) r ws tk ak)"
    using chan_step.publish [of m "turn (b @ ms) r ws tk ak" _ n]
    by (simp add: turn_def ChannelPublisher_Publish_def)
  with snoc show ?case by (rule steps_step)
qed (simp add: steps_refl)

text \<open>A message is taken and its handler started.\<close>

lemma turn_start:
  assumes "length ws < n"
  shows "steps (chan_step n) (turn (Some m # b) r ws tk ak) (turn b r (ws @ [(m, Running)]) (tk @ [m]) ak)"
proof -
  let ?s1 = "turn b r ws (tk @ [m]) ak\<lparr>main := Offering Receiving m\<rparr>"
  let ?s2 = "turn b r ws (tk @ [m]) ak\<lparr>main := AwaitSlot Receiving m\<rparr>"
  have "chan_step n (turn (Some m # b) r ws tk ak) ?s1"
    using chan_step.sel_input [of "turn (Some m # b) r ws tk ak" m b n] by (simp add: turn_def)
  moreover have "chan_step n ?s1 ?s2"
    using chan_step.offer [of ?s1 Receiving m n] by (simp add: turn_def)
  moreover have "chan_step n ?s2 (turn b r (ws @ [(m, Running)]) (tk @ [m]) ak)"
    using chan_step.take_slot [of ?s2 Receiving m n] assms by (simp add: turn_def)
  ultimately show ?thesis by (meson steps.intros)
qed

lemma turn_fail:
  "chan_step n (turn b r (ws @ [(m, Running)]) tk ak) (turn b r (ws @ [(m, Nacking)]) tk ak)"
  using chan_step.fail [of "length ws" "turn b r (ws @ [(m, Running)]) tk ak" m n] by (simp add: turn_def)

text \<open>The goroutine of a settled message ends.\<close>

lemma turn_end:
  "steps (chan_step n) (turn b r [(m, Settled)] tk ak) (turn b r [] tk ak)"
proof -
  let ?s = "turn b r [(m, Freed)] tk ak\<lparr>sem := 0\<rparr>"
  have "chan_step n (turn b r [(m, Settled)] tk ak) ?s"
    using chan_step.free [of 0 "turn b r [(m, Settled)] tk ak" m n] by (simp add: turn_def)
  moreover have "chan_step n ?s (turn b r [] tk ak)"
    using chan_step.leave [of 0 ?s m n] by (simp add: turn_def remove_at_def)
  ultimately show ?thesis by (meson steps.intros)
qed

lemma turn_ack:
  assumes "0 < n"
  shows "steps (chan_step n) (turn (Some m # b) r [] tk ak) (turn b r [] (tk @ [m]) (ak @ [m]))"
proof -
  have "chan_step n (turn b r [(m, Running)] (tk @ [m]) ak) (turn b r [(m, Settled)] (tk @ [m]) (ak @ [m]))"
    using chan_step.succeed [of 0 "turn b r [(m, Running)] (tk @ [m]) ak" m n] by (simp add: turn_def)
  with turn_start [of "[]" n] turn_end assms show ?thesis
    by (metis append_Nil list.size(3) steps_single steps_trans)
qed

text \<open>A failed message goes to \<open>retry\<close>, as long as there is room.\<close>

lemma turn_nack:
  assumes "0 < n" "length r < n + 1"
  shows "steps (chan_step n) (turn (Some m # b) r [] tk ak) (turn b (r @ [m]) [] (tk @ [m]) ak)"
proof -
  have "chan_step n (turn b r [(m, Nacking)] (tk @ [m]) ak) (turn b (r @ [m]) [(m, Settled)] (tk @ [m]) ak)"
    using chan_step.nacked [of 0 "turn b r [(m, Nacking)] (tk @ [m]) ak" m n] assms by (simp add: turn_def)
  with turn_start [of "[]" n] turn_fail [of n b r "[]"] turn_end assms show ?thesis
    by (metis append_Nil list.size(3) steps_single steps_trans)
qed

lemma turn_fill_retry:
  assumes "0 < n" "length r + length ms \<le> n + 1"
  shows "steps (chan_step n) (turn (map Some ms @ b) r [] tk ak) (turn b (r @ ms) [] (tk @ ms) ak)"
  using assms(2)
proof (induction ms arbitrary: r tk)
  case (Cons m ms)
  have "steps (chan_step n) (turn (map Some (m # ms) @ b) r [] tk ak)
      (turn (map Some ms @ b) (r @ [m]) [] (tk @ [m]) ak)"
    using turn_nack [OF assms(1)] Cons.prems by simp
  moreover have "steps (chan_step n) (turn (map Some ms @ b) (r @ [m]) [] (tk @ [m]) ak)
      (turn b (r @ m # ms) [] (tk @ m # ms) ak)"
    using Cons.IH [of "r @ [m]" "tk @ [m]"] Cons.prems by simp
  ultimately show ?case by (rule steps_trans)
qed (simp add: steps_refl)

text \<open>Workers whose nack waits for room keep their slots.\<close>

lemma turn_fill_slots:
  assumes "length ws + length ms \<le> n"
  shows "steps (chan_step n) (turn (map Some ms @ b) r ws tk ak)
    (turn b r (ws @ map (\<lambda>m. (m, Nacking)) ms) (tk @ ms) ak)"
  using assms
proof (induction ms arbitrary: ws tk)
  case (Cons m ms)
  have "steps (chan_step n) (turn (map Some (m # ms) @ b) r ws tk ak)
      (turn (map Some ms @ b) r (ws @ [(m, Nacking)]) (tk @ [m]) ak)"
    using turn_start [of ws n m "map Some ms @ b"] turn_fail Cons.prems
    by (simp, metis steps_step)
  moreover have "steps (chan_step n) (turn (map Some ms @ b) r (ws @ [(m, Nacking)]) (tk @ [m]) ak)
      (turn b r (ws @ map (\<lambda>m. (m, Nacking)) (m # ms)) (tk @ m # ms) ak)"
    using Cons.IH [of "ws @ [(m, Nacking)]" "tk @ [m]"] Cons.prems by simp
  ultimately show ?case by (rule steps_trans)
qed (simp add: steps_refl)

section \<open>Properties\<close>

text \<open>The capacity of a subscriber's slots.\<close>

definition capacity :: "channel_subscriber \<Rightarrow> nat" where
  "capacity c = nat (maxInFlight c)"

lemma capacity_pos: "0 < capacity (NewChannelSubscriber k)"
  by (simp add: capacity_def NewChannelSubscriber_def)

text \<open>C3: However the loop, the handlers and the publishers interleave, no message is lost and none is
  duplicated: every message taken from the channel is in exactly one place (acked, waiting to be
  handled again, held by the loop, or with a handler that has not settled it). At most
  \<open>maxInFlight\<close> messages are with handlers and at most \<open>maxInFlight + 1\<close> wait for a retry.\<close>

theorem channel_conserves_messages:
  assumes "chan_init s0" "steps (chan_step (capacity (NewChannelSubscriber k))) s0 s"
  shows "mset (taken s) = mset (acked_msgs s) + mset (retry s) + mset (held_by (main s)) + in_workers (workers s)
    \<and> size (in_workers (workers s)) \<le> (if k \<le> 0 then 1 else nat k)
    \<and> length (retry s) \<le> (if k \<le> 0 then 2 else nat k + 1)"
proof -
  let ?n = "capacity (NewChannelSubscriber k)"
  from chan.reachable [OF assms] have inv: "chan_inv ?n s" .
  have "size (in_workers ws) \<le> tally holds_slot (map worker_job ws)" for ws
  proof (induction ws rule: rev_induct)
    case (snoc x ws)
    then show ?case by (cases x; cases "snd x") (simp_all add: worker_job_def job_kinds)
  qed simp
  from this [of "workers s"] inv have "size (in_workers (workers s)) \<le> ?n"
    by (auto simp: chan_inv_def disp_inv_def abs_disp_def simp del: tally_map)
  with inv show ?thesis
    by (simp add: chan_inv_def capacity_def NewChannelSubscriber_def split: if_splits)
qed

theorem channel_conserves_messages_witness:
  "\<exists>s0 s. chan_init s0 \<and> steps (chan_step (capacity (NewChannelSubscriber 1))) s0 s
     \<and> retry s = [7] \<and> taken s = [7] \<and> mset (taken s) = mset (acked_msgs s) + mset (retry s)"
proof -
  let ?n = "capacity (NewChannelSubscriber 1)"
  have "steps (chan_step ?n) (turn [] [] [] [] []) (turn [Some 7] [] [] [] [])"
    using turn_publish [of ?n "[]" "[]" "[]" "[]" "[]" "[Some 7]"] by simp
  moreover have "steps (chan_step ?n) (turn [Some 7] [] [] [] []) (turn [] [7] [] [7] [])"
    using turn_nack [of ?n "[]" 7 "[]" "[]" "[]"] by (simp add: capacity_pos)
  ultimately have run: "steps (chan_step ?n) (turn [] [] [] [] []) (turn [] [7] [] [7] [])"
    by (rule steps_trans)
  let ?t = "turn [] [7] [] [7] []"
  from channel_conserves_messages [OF turn_init run]
  have "retry ?t = [7] \<and> taken ?t = [7] \<and> mset (taken ?t) = mset (acked_msgs ?t) + mset (retry ?t)"
    by (simp add: turn_def)
  with turn_init run show ?thesis by blast
qed

text \<open>C7: When \<open>Receive\<close> returns, no handler is left: every message it took was acked or is dropped with
  the retry channel. Unless the context is done, none is dropped: the input channel is closed and
  empty, and every message that was taken from it has been acked, exactly once.\<close>

theorem channel_return:
  assumes "chan_init s0" "steps (chan_step (capacity (NewChannelSubscriber k))) s0 s" "main s = Returned"
  shows "workers s = [] \<and> mset (taken s) = mset (acked_msgs s) + mset (retry s)
    \<and> (\<not> ctx_over s \<longrightarrow> buf (input s) = [] \<and> chan_closed (input s) \<and> mset (acked_msgs s) = mset (taken s))"
  using chan.reachable [OF assms(1,2)] assms(3) by (auto simp: chan_inv_def)

theorem channel_return_witness:
  "\<exists>s0 s. chan_init s0 \<and> steps (chan_step (capacity (NewChannelSubscriber 1))) s0 s \<and> main s = Returned
     \<and> \<not> ctx_over s \<and> taken s = [7] \<and> mset (acked_msgs s) = {#7#}"
proof -
  let ?n = "capacity (NewChannelSubscriber 1)"
  let ?t = "turn [] [] [] [7] [7]"
  let ?c = "?t\<lparr>input := \<lparr>buf = [], chan_closed = True\<rparr>\<rparr>"
  have "steps (chan_step ?n) (turn [] [] [] [] []) (turn [Some 7] [] [] [] [])"
    using turn_publish [of ?n "[]" "[]" "[]" "[]" "[]" "[Some 7]"] by simp
  moreover have "steps (chan_step ?n) (turn [Some 7] [] [] [] []) ?t"
    using turn_ack [of ?n 7 "[]" "[]" "[]" "[]"] by (simp add: capacity_pos)
  ultimately have run: "steps (chan_step ?n) (turn [] [] [] [] []) ?t" by (rule steps_trans)
  have "chan_step ?n ?t ?c"
    using chan_step.close [of ?t _ ?n] by (simp add: ChannelPublisher_Close_def turn_def)
  moreover have "chan_step ?n ?c (?c\<lparr>main := DrainWait\<rparr>)"
    using chan_step.sel_closed [of ?c ?n] by (simp add: turn_def)
  moreover have "chan_step ?n (?c\<lparr>main := DrainWait\<rparr>) (?c\<lparr>main := DrainSelect\<rparr>)"
    using chan_step.drain [of "?c\<lparr>main := DrainWait\<rparr>" ?n] by (simp add: turn_def)
  moreover have "chan_step ?n (?c\<lparr>main := DrainSelect\<rparr>) (?c\<lparr>main := Returned\<rparr>)"
    using chan_step.drain_end [of "?c\<lparr>main := DrainSelect\<rparr>" ?n] by (simp add: turn_def)
  ultimately have all: "steps (chan_step ?n) (turn [] [] [] [] []) (?c\<lparr>main := Returned\<rparr>)"
    using run by (meson steps_step)
  from channel_return [OF turn_init all]
  have "main (?c\<lparr>main := Returned\<rparr>) = Returned \<and> \<not> ctx_over (?c\<lparr>main := Returned\<rparr>)
    \<and> taken (?c\<lparr>main := Returned\<rparr>) = [7] \<and> mset (acked_msgs (?c\<lparr>main := Returned\<rparr>)) = {#7#}"
    by (simp add: turn_def)
  with turn_init all show ?thesis by blast
qed

text \<open>As long as at most \<open>maxInFlight + 1\<close> messages have been taken from the channel, a nack never
  waits for room in the retry channel: neither the one of a handler nor the one of the loop.\<close>

theorem few_messages_never_block:
  assumes "chan_init s0" "steps (chan_step (capacity (NewChannelSubscriber k))) s0 s"
    and "length (taken s) \<le> capacity (NewChannelSubscriber k) + 1"
    and "i < length (workers s) \<and> workers s ! i = (m, Nacking) \<or> main s = Refuse l m"
  shows "length (retry s) < capacity (NewChannelSubscriber k) + 1
    \<and> (\<exists>t. chan_step (capacity (NewChannelSubscriber k)) s t \<and> retry t = retry s @ [m])"
proof -
  let ?n = "capacity (NewChannelSubscriber k)"
  from chan.reachable [OF assms(1,2)] have
    "mset (taken s) = mset (acked_msgs s) + mset (retry s) + mset (held_by (main s)) + in_workers (workers s)"
    by (simp add: chan_inv_def)
  from arg_cong [OF this, of size] have total:
    "length (retry s) + length (held_by (main s)) + size (in_workers (workers s)) \<le> length (taken s)"
    by simp
  have "0 < length (held_by (main s)) + size (in_workers (workers s))"
    using assms(4) in_workers_at [of i "workers s"] by auto
  with total assms(3) have room: "length (retry s) < ?n + 1" by linarith
  have "\<exists>t. chan_step ?n s t \<and> retry t = retry s @ [m]"
    using assms(4)
  proof
    assume "i < length (workers s) \<and> workers s ! i = (m, Nacking)"
    with room chan_step.nacked [of i s m ?n] show ?thesis by fastforce
  next
    assume "main s = Refuse l m"
    with room chan_step.refuse [of s l m ?n] show ?thesis by fastforce
  qed
  with room show ?thesis by blast
qed

theorem few_messages_never_block_witness:
  "\<exists>s0 s. chan_init s0 \<and> steps (chan_step (capacity (NewChannelSubscriber 1))) s0 s
     \<and> workers s = [(7, Nacking)] \<and> length (retry s) < 2"
proof -
  let ?n = "capacity (NewChannelSubscriber 1)"
  let ?t = "turn [] [] [(7, Nacking)] [7] []"
  have n: "?n = 1" by (simp add: capacity_def NewChannelSubscriber_def)
  have "steps (chan_step ?n) (turn [] [] [] [] []) (turn [Some 7] [] [] [] [])"
    using turn_publish [of ?n "[]" "[]" "[]" "[]" "[]" "[Some 7]"] by simp
  moreover have "steps (chan_step ?n) (turn [Some 7] [] [] [] []) ?t"
    using turn_fill_slots [of "[]" "[7]" ?n "[]" "[]" "[]" "[]"] by (simp add: n)
  ultimately have run: "steps (chan_step ?n) (turn [] [] [] [] []) ?t" by (rule steps_trans)
  have "length (taken ?t) \<le> ?n + 1" "0 < length (workers ?t) \<and> workers ?t ! 0 = (7, Nacking) \<or> main ?t = Refuse Receiving 7"
    by (simp_all add: turn_def)
  from few_messages_never_block [OF turn_init run this]
  have "workers ?t = [(7, Nacking)] \<and> length (retry ?t) < 2" by (simp add: n turn_def)
  with turn_init run show ?thesis by blast
qed

text \<open>
  With more messages the retry channel does fill up. In such a state the loop waits for a slot or
  for room in \<open>retry\<close>, every slot is held by a handler that waits for room in \<open>retry\<close>, and nobody
  is left to receive from it.
\<close>

definition wedged :: "nat \<Rightarrow> chan_sys \<Rightarrow> bool" where
  "wedged n s \<longleftrightarrow> n + 1 \<le> length (retry s) \<and> n \<le> sem s \<and> held_by (main s) \<noteq> []
     \<and> (\<forall>x \<in> set (workers s). snd x = Nacking)"

lemma wedged_step:
  assumes "wedged n s" "chan_step n s t"
  shows "wedged n t \<and> taken t = taken s \<and> acked_msgs t = acked_msgs s"
proof -
  have only: "p = Nacking" if "i < length (workers s)" "workers s ! i = (m, p)" for i m p
    using assms(1) nth_mem [OF that(1)] that(2) by (auto simp: wedged_def)
  show ?thesis
    using assms(2,1) by (cases rule: chan_step.cases) (auto simp: wedged_def dest: only)
qed

lemma wedged_forever:
  "steps (chan_step n) s t \<Longrightarrow> wedged n s \<Longrightarrow> wedged n t \<and> taken t = taken s \<and> acked_msgs t = acked_msgs s"
  by (induction rule: steps.induct) (auto dest: wedged_step)

lemma wedged_reached:
  assumes "0 < n"
  shows "\<exists>s. steps (chan_step n) (turn [] [] [] [] []) s \<and> wedged n s \<and> \<not> ctx_over s"
proof -
  let ?rs = "replicate (n + 1) 0" and ?ws = "replicate n 0"
  let ?t = "turn [Some 0] ?rs (map (\<lambda>m. (m, Nacking)) ?ws) (?rs @ ?ws) []"
  let ?s = "turn [] ?rs (map (\<lambda>m. (m, Nacking)) ?ws) (?rs @ ?ws @ [0]) []\<lparr>main := Offering Receiving 0\<rparr>"
  have "steps (chan_step n) (turn [] [] [] [] []) (turn (map Some ?rs @ map Some ?ws @ [Some 0]) [] [] [] [])"
    using turn_publish [of n "[]"] by simp
  moreover have "steps (chan_step n) (turn (map Some ?rs @ map Some ?ws @ [Some 0]) [] [] [] [])
      (turn (map Some ?ws @ [Some 0]) ?rs [] ?rs [])"
    using turn_fill_retry [OF assms, of "[]" ?rs _ "[]"] by simp
  moreover have "steps (chan_step n) (turn (map Some ?ws @ [Some 0]) ?rs [] ?rs []) ?t"
    using turn_fill_slots [of "[]" ?ws n "[Some 0]" ?rs ?rs "[]"] by simp
  moreover have "chan_step n ?t ?s"
    using chan_step.sel_input [of ?t 0 "[]" n] by (simp add: turn_def)
  ultimately have "steps (chan_step n) (turn [] [] [] [] []) ?s"
    by (meson steps_trans steps_step)
  moreover have "wedged n ?s" "\<not> ctx_over ?s" by (simp_all add: wedged_def turn_def)
  ultimately show ?thesis by blast
qed

text \<open>C8: \<open>Receive\<close> can hang for ever, whatever \<open>maxInFlight\<close> is: some run that starts like any other
  reaches a state, with the context not done, from which no continuation ever lets it return,
  takes another message or acks one, not even when the context is cancelled and the channel is
  closed. The comment in \<open>Receive\<close> that sending to \<open>retry\<close> never blocks does not hold: a nacked
  message gives its slot back while it waits in \<open>retry\<close>, and the loop may prefer new input.\<close>

theorem receive_can_hang:
  "\<exists>s0 s. chan_init s0 \<and> steps (chan_step (capacity (NewChannelSubscriber k))) s0 s \<and> \<not> ctx_over s
     \<and> {(main t = Returned, taken t, acked_msgs t) |t. steps (chan_step (capacity (NewChannelSubscriber k))) s t}
       = {(False, taken s, acked_msgs s)}"
proof -
  let ?n = "capacity (NewChannelSubscriber k)"
  obtain s where run: "steps (chan_step ?n) (turn [] [] [] [] []) s" and hung: "wedged ?n s" "\<not> ctx_over s"
    using wedged_reached [OF capacity_pos] by blast
  have "main t \<noteq> Returned \<and> taken t = taken s \<and> acked_msgs t = acked_msgs s" if "steps (chan_step ?n) s t" for t
    using wedged_forever [OF that hung(1)] by (auto simp: wedged_def)
  then have "(main t = Returned, taken t, acked_msgs t) = (False, taken s, acked_msgs s)" if "steps (chan_step ?n) s t" for t
    using that by simp
  then have "{(main t = Returned, taken t, acked_msgs t) |t. steps (chan_step ?n) s t} = {(False, taken s, acked_msgs s)}"
    by (rule setcompr_singleton [where R = "steps (chan_step ?n) s", OF _ steps_refl])
  with run hung(2) turn_init show ?thesis by blast
qed

end
