(* ===== verification/Json_Payload.thy ===== *)
theory Json_Payload
  imports Middleware
begin

text \<open>
  The JSON middlewares of \<open>amqp/json.go\<close> and \<open>google/json.go\<close>, and the two JSON functions of
  \<open>redis/json.go\<close>. The codec of \<open>encoding/json\<close> is a parameter: encoding reads the world, decoding
  allocates in it, and both may run methods of the payload's type.
\<close>

record 'e json_codec =
  json_Marshal :: "gval \<Rightarrow> ('e, gerr + string) act"
  json_Unmarshal :: "gtype \<Rightarrow> string \<Rightarrow> ('e, gerr + gval) act"

definition set_Payload :: "addr \<Rightarrow> gval \<Rightarrow> 'e world \<Rightarrow> 'e world" where
  "set_Payload m v = upd_msg m (\<lambda>x. x\<lparr>Payload := v\<rparr>)"

definition fail_with :: "gerr \<Rightarrow> ('e, gerr option) act" where
  "fail_with e w = (Ret (Some e), w)"

section \<open>AMQP\<close>

definition Amqp_UnmarshallPayloadFromJson :: "'e json_codec \<Rightarrow> gtype \<Rightarrow> 'e middleware" where
  "Amqp_UnmarshallPayloadFromJson C T next msg w =
     (case Payload (get_msg w msg) of
        VBytes b \<Rightarrow>
          andThen (json_Unmarshal C T b) (\<lambda>r. case r of
            Inl e \<Rightarrow> fail_with e
          | Inr payload \<Rightarrow> (\<lambda>w1. next msg (set_Payload msg payload w1))) w
      | _ \<Rightarrow> fail_with (ErrNew ''payload is not a byte array'') w)"

definition Amqp_MarshallPayloadToJson :: "'e json_codec \<Rightarrow> 'e middleware" where
  "Amqp_MarshallPayloadToJson C next msg w =
     andThen (json_Marshal C (Payload (get_msg w msg))) (\<lambda>r. case r of
       Inl e \<Rightarrow> fail_with e
     | Inr payload \<Rightarrow> (\<lambda>w1. next msg (set_Payload msg (VBytes payload) w1))) w"

section \<open>Google\<close>

definition Google_UnmarshallPayloadFromJson :: "'e json_codec \<Rightarrow> gtype \<Rightarrow> 'e middleware" where
  "Google_UnmarshallPayloadFromJson C T next msg w =
     (case Payload (get_msg w msg) of
        VBytes b \<Rightarrow>
          andThen (json_Unmarshal C T b) (\<lambda>r. case r of
            Inl e \<Rightarrow> fail_with e
          | Inr payload \<Rightarrow> (\<lambda>w1. next msg (set_Payload msg payload w1))) w
      | _ \<Rightarrow> fail_with (ErrNew ''payload is not a byte array'') w)"

definition Google_MarshallPayloadToJson :: "'e json_codec \<Rightarrow> 'e middleware" where
  "Google_MarshallPayloadToJson C next msg w =
     andThen (json_Marshal C (Payload (get_msg w msg))) (\<lambda>r. case r of
       Inl e \<Rightarrow> fail_with e
     | Inr payload \<Rightarrow> (\<lambda>w1. next msg (set_Payload msg (VBytes payload) w1))) w"

section \<open>Redis\<close>

text \<open>\<open>reflect.TypeOf(v).Name()\<close>, or \<open>nil\<close> for a nil value.\<close>

definition key_type :: "gval \<Rightarrow> string" where
  "key_type v = (case dyn_type v of None \<Rightarrow> ''nil'' | Some T \<Rightarrow> type_name T)"

definition UnmarshallMapPayloadFromJson :: "'e json_codec \<Rightarrow> string \<Rightarrow> gtype \<Rightarrow> 'e middleware" where
  "UnmarshallMapPayloadFromJson C mapKey T next msg w =
     (case Payload (get_msg w msg) of
        VMap a \<Rightarrow>
          (case map_of (read_map w (Some a)) mapKey of
             None \<Rightarrow> fail_with (ErrNew (''payload key '' @ mapKey @ '' not found in message'')) w
           | Some payloadKey \<Rightarrow>
               (case (case payloadKey of VBytes b \<Rightarrow> Some b | VString s \<Rightarrow> Some s | _ \<Rightarrow> None) of
                  None \<Rightarrow> fail_with (ErrNew (''payload key '' @ mapKey @ '' is of type ['' @ key_type payloadKey
                            @ '']. It must be either a byte array or string'')) w
                | Some value \<Rightarrow>
                    andThen (json_Unmarshal C T value) (\<lambda>r. case r of
                      Inl e \<Rightarrow> fail_with e
                    | Inr payload \<Rightarrow> (\<lambda>w1. next msg (set_Payload msg payload w1))) w))
      | VNilMap \<Rightarrow> fail_with (ErrNew (''payload key '' @ mapKey @ '' not found in message'')) w
      | _ \<Rightarrow> fail_with (ErrNew ''payload is not a map[string]interface{}'') w)"

text \<open>A failed encoding gives the nil map, which reads as the empty map.\<close>

definition MarshallPayloadToJsonMap ::
  "'e json_codec \<Rightarrow> string \<Rightarrow> addr \<Rightarrow> ('e, (string, gval) gomap) act"
where
  "MarshallPayloadToJsonMap C mapKey msg w =
     andThen (json_Marshal C (Payload (get_msg w msg))) (\<lambda>r w1. case r of
       Inl e \<Rightarrow> (Ret [], w1)
     | Inr payload \<Rightarrow> (Ret [(mapKey, VBytes payload)], w1)) w"

section \<open>Properties\<close>

lemmas json_defs = Amqp_UnmarshallPayloadFromJson_def Amqp_MarshallPayloadToJson_def
  Google_UnmarshallPayloadFromJson_def Google_MarshallPayloadToJson_def

text \<open>The two packages have the same middlewares.\<close>

lemma google_same_as_amqp:
  "Google_UnmarshallPayloadFromJson = Amqp_UnmarshallPayloadFromJson"
  "Google_MarshallPayloadToJson = Amqp_MarshallPayloadToJson"
  by (simp_all add: fun_eq_iff json_defs)

lemma set_Payload_same [simp]:
  "valid_msg w m \<Longrightarrow> get_msg (set_Payload m v w) m = (get_msg w m)\<lparr>Payload := v\<rparr>"
  by (simp add: set_Payload_def)

lemma set_Payload_back:
  assumes "valid_msg w m"
  shows "set_Payload m (Payload (get_msg w m)) (set_Payload m v w) = w"
proof -
  have "(get_msg w m)\<lparr>Payload := Payload (get_msg w m)\<rparr> = get_msg w m" by simp
  with assms show ?thesis by (simp add: set_Payload_def world_defs)
qed

text \<open>Encoding a payload on the way out and decoding it on the way in is transparent: the inner
  handler runs in exactly the world the outer one got, with the message's own payload, provided the
  codec decodes what it encodes and touches nothing else. This holds for the AMQP and the Google
  middlewares, in every mix of the two.\<close>

theorem json_payload_round_trip:
  assumes "valid_msg w msg"
    and "\<forall>w. json_Marshal C v w = (Ret (Inr b), w)" "\<forall>w. json_Unmarshal C T b w = (Ret (Inr v), w)"
    and "Payload (get_msg w msg) = v"
    and "enc \<in> {Amqp_MarshallPayloadToJson C, Google_MarshallPayloadToJson C}"
    and "dec \<in> {Amqp_UnmarshallPayloadFromJson C T, Google_UnmarshallPayloadFromJson C T}"
  shows "enc (dec next) msg w = next msg w"
proof -
  have "enc = Amqp_MarshallPayloadToJson C" "dec = Amqp_UnmarshallPayloadFromJson C T"
    using assms(5,6) by (auto simp: google_same_as_amqp)
  then show ?thesis
    using assms(1-4) set_Payload_back [OF assms(1), of "VBytes b"] by (simp add: json_defs andThen_def)
qed

text \<open>A codec for strings, for the witnesses.\<close>

definition string_codec :: "'e json_codec" where
  "string_codec = \<lparr>json_Marshal = (\<lambda>v w. (Ret (case v of VString s \<Rightarrow> Inr s | _ \<Rightarrow> Inl (ErrNew ''type'')), w)),
                   json_Unmarshal = (\<lambda>T b w. (Ret (Inr (VString b)), w))\<rparr>"

theorem json_payload_round_trip_witness:
  "let w = snd (NewMessage Background (VString ''x'') (start_world ()))
   in Amqp_MarshallPayloadToJson string_codec
        (Google_UnmarshallPayloadFromJson string_codec TString (\<lambda>m w. (Ret (Some (ErrNew ''seen'')), w))) 0 w
      = (Ret (Some (ErrNew ''seen'')), w)"
proof -
  define w where "w = snd (NewMessage Background (VString ''x'') (start_world ()))"
  have w: "valid_msg w 0" "Payload (get_msg w 0) = VString ''x''"
    by (simp_all add: w_def message_defs world_defs start_world_def)
  have codec: "\<forall>w :: unit world. json_Marshal string_codec (VString ''x'') w = (Ret (Inr ''x''), w)"
    "\<forall>w :: unit world. json_Unmarshal string_codec TString ''x'' w = (Ret (Inr (VString ''x'')), w)"
    by (simp_all add: string_codec_def)
  from json_payload_round_trip [OF w(1) codec w(2), of "Amqp_MarshallPayloadToJson string_codec"
      "Google_UnmarshallPayloadFromJson string_codec TString" "\<lambda>m w. (Ret (Some (ErrNew ''seen'')), w)"]
  show ?thesis by (simp add: w_def [symmetric])
qed

text \<open>The Redis JSON middleware runs the next handler only on a payload it decoded: for every other
  payload (not a map, a map without the key, a value that is neither bytes nor a string, a value
  that does not decode) it returns an error without calling the handler and without changing any
  message. Otherwise the handler gets the same message with the decoded payload.\<close>

theorem redis_json_outcomes:
  assumes "\<forall>s w. \<exists>r. json_Unmarshal C T s w = (Ret r, w)" "valid_msg w msg"
  shows "(\<exists>e. UnmarshallMapPayloadFromJson C mapKey T next msg w = (Ret (Some e), w)
          \<and> \<not> (\<exists>a s v. Payload (get_msg w msg) = VMap a
                  \<and> map_of (read_map w (Some a)) mapKey \<in> {Some (VBytes s), Some (VString s)}
                  \<and> json_Unmarshal C T s w = (Ret (Inr v), w)))
    \<or> (\<exists>a s v w1. Payload (get_msg w msg) = VMap a
          \<and> map_of (read_map w (Some a)) mapKey \<in> {Some (VBytes s), Some (VString s)}
          \<and> json_Unmarshal C T s w = (Ret (Inr v), w)
          \<and> get_msg w1 msg = (get_msg w msg)\<lparr>Payload := v\<rparr>
          \<and> UnmarshallMapPayloadFromJson C mapKey T next msg w = next msg w1)"
proof (cases "\<exists>a s v. Payload (get_msg w msg) = VMap a
    \<and> map_of (read_map w (Some a)) mapKey \<in> {Some (VBytes s), Some (VString s)}
    \<and> json_Unmarshal C T s w = (Ret (Inr v), w)")
  case True
  then obtain a s v where *: "Payload (get_msg w msg) = VMap a"
    "map_of (read_map w (Some a)) mapKey \<in> {Some (VBytes s), Some (VString s)}"
    "json_Unmarshal C T s w = (Ret (Inr v), w)" by blast
  then have "UnmarshallMapPayloadFromJson C mapKey T next msg w = next msg (set_Payload msg v w)"
    by (auto simp: UnmarshallMapPayloadFromJson_def andThen_def)
  with * set_Payload_same [OF assms(2)] show ?thesis by blast
next
  case False
  have "\<exists>e. UnmarshallMapPayloadFromJson C mapKey T next msg w = (Ret (Some e), w)"
  proof (cases "Payload (get_msg w msg)")
    case (VMap a)
    have undecoded: "\<exists>e. json_Unmarshal C T s w = (Ret (Inl e), w)"
      if "map_of (read_map w (Some a)) mapKey \<in> {Some (VBytes s), Some (VString s)}" for s
      using assms(1) [rule_format, of s w] False that VMap by (metis sum.exhaust)
    show ?thesis
    proof (cases "map_of (read_map w (Some a)) mapKey")
      case (Some x)
      with undecoded VMap show ?thesis
        by (cases x) (fastforce simp: UnmarshallMapPayloadFromJson_def fail_with_def andThen_def)+
    qed (simp add: UnmarshallMapPayloadFromJson_def fail_with_def VMap)
  qed (simp_all add: UnmarshallMapPayloadFromJson_def fail_with_def)
  with False show ?thesis by blast
qed

theorem redis_json_outcomes_witness:
  "let w = snd (NewMessage Background (VMap 0) (start_world ()))
   in \<exists>e. UnmarshallMapPayloadFromJson string_codec ''k'' TString (\<lambda>m w. (Panic (PVal VNil), w)) 0 w = (Ret (Some e), w)"
proof -
  define w where "w = snd (NewMessage Background (VMap 0) (start_world ()))"
  have w: "valid_msg w 0" "map_of (read_map w (Some 0)) ''k'' = None"
    by (simp_all add: w_def message_defs world_defs start_world_def)
  have codec: "\<forall>s w :: unit world. \<exists>r. json_Unmarshal string_codec TString s w = (Ret r, w)"
    by (simp add: string_codec_def)
  have "\<not> (\<exists>a s. Payload (get_msg w 0) = VMap a \<and> map_of (read_map w (Some a)) ''k'' \<in> {Some (VBytes s), Some (VString s)})"
    using w(2) by (auto simp: w_def message_defs world_defs start_world_def)
  with redis_json_outcomes [OF codec w(1), of "''k''" "\<lambda>m w. (Panic (PVal VNil), w)"]
  show ?thesis unfolding Let_def w_def [symmetric] by blast
qed

end
