(* ===== verification/Key_Transport.thy ===== *)
theory Key_Transport
  imports Go_Runtime
begin

text \<open>
  The contract between a publisher that writes a Go map under rewritten keys and the subscriber that
  reads it back: the loop body \<open>outb\<close> of the writer, the change \<open>wire\<close> a value undergoes on the way,
  and the loop body \<open>inb\<close> of the reader, which must undo the first on every entry it reads. The
  client's lemma is that the whole map comes back, even when the transported map holds other
  entries that the reader skips. The brokers' packages provide the interpretations.
\<close>

locale key_transport =
  fixes outb :: "'k \<Rightarrow> 'v \<Rightarrow> ('l \<times> 'u) option"
    and wire :: "'u \<Rightarrow> 'x"
    and inb :: "'l \<Rightarrow> 'x \<Rightarrow> ('k \<times> 'y) option"
    and conv :: "'v \<Rightarrow> 'y"
  assumes out_inj: "key_inj outb"
    and in_inj: "key_inj inb"
    and round_trip: "\<exists>l u. outb k v = Some (l, u) \<and> inb l (wire u) = Some (k, conv v)"
begin

lemma out_key: "outb k v = Some (l, u) \<Longrightarrow> inb l (wire u) = Some (k, conv v)"
  using round_trip [of k v] by auto

text \<open>\<open>arrived\<close> is the map the reader gets: the written entries and the entries of \<open>other\<close>.\<close>

lemma transported:
  assumes "wf_map m" "wf_map arrived"
    and others: "\<And>l x. other l = Some x \<Longrightarrow> inb l x = None"
    and apart: "\<And>l. l \<in> dom other \<Longrightarrow> map_of (range_into outb m []) l = None"
    and arrived: "map_of arrived = other ++ (map_option wire \<circ> map_of (range_into outb m []))"
  shows "map_of (range_into inb arrived []) = map_option conv \<circ> map_of m"
proof
  fix k
  have "map_of (range_into inb arrived []) k = Some y \<longleftrightarrow> map_option conv (map_of m k) = Some y" for y
  proof
    assume "map_of (range_into inb arrived []) k = Some y"
    then obtain l x where lx: "map_of arrived l = Some x" "inb l x = Some (k, y)"
      using range_into_iff [OF in_inj assms(2)] by blast
    with others have "other l \<noteq> Some x" by (metis option.distinct(1))
    with lx(1) obtain u where u: "map_of (range_into outb m []) l = Some u" "x = wire u"
      by (auto simp: arrived map_add_Some_iff)
    then obtain k' v where "map_of m k' = Some v" "outb k' v = Some (l, u)"
      using range_into_iff [OF out_inj assms(1)] by blast
    with out_key lx(2) u(2) show "map_option conv (map_of m k) = Some y" by fastforce
  next
    assume "map_option conv (map_of m k) = Some y"
    then obtain v where v: "map_of m k = Some v" "y = conv v" by auto
    obtain l u where lu: "outb k v = Some (l, u)" "inb l (wire u) = Some (k, conv v)"
      using round_trip by blast
    with v have "map_of (range_into outb m []) l = Some u"
      using range_into_iff [OF out_inj assms(1)] by blast
    then have "map_of arrived l = Some (wire u)" by (simp add: arrived map_add_Some_iff)
    with lu v show "map_of (range_into inb arrived []) k = Some y"
      using range_into_iff [OF in_inj assms(2)] by blast
  qed
  then show "map_of (range_into inb arrived []) k = (map_option conv \<circ> map_of m) k"
    by (metis comp_apply option.exhaust)
qed

end

section \<open>Loop bodies the brokers share\<close>

definition prefix_entry :: "string \<Rightarrow> string \<Rightarrow> 'v \<Rightarrow> (string \<times> 'v) option" where
  "prefix_entry p k v = Some (p @ k, v)"

definition strip_entry :: "string \<Rightarrow> ('v \<Rightarrow> 'u option) \<Rightarrow> string \<Rightarrow> 'v \<Rightarrow> (string \<times> 'u) option" where
  "strip_entry p f k v =
     (if HasPrefix k p then (case f v of None \<Rightarrow> None | Some u \<Rightarrow> Some (TrimPrefix k p, u)) else None)"

definition filter_entry :: "(string \<Rightarrow> bool) \<Rightarrow> string \<Rightarrow> 'v \<Rightarrow> (string \<times> 'v) option" where
  "filter_entry P k v = (if P k then Some (k, v) else None)"

definition convert_entry :: "('v \<Rightarrow> 'u) \<Rightarrow> string \<Rightarrow> 'v \<Rightarrow> (string \<times> 'u) option" where
  "convert_entry f k v = Some (k, f v)"

lemmas entry_defs = prefix_entry_def strip_entry_def filter_entry_def convert_entry_def

lemma prefix_entry_iff: "prefix_entry p k v = Some (l, u) \<longleftrightarrow> l = p @ k \<and> u = v"
  by (auto simp: prefix_entry_def)

lemma strip_entry_iff: "strip_entry p f l x = Some (k, y) \<longleftrightarrow> l = p @ k \<and> f x = Some y"
  by (auto simp: strip_entry_def dest: HasPrefix_split split: option.splits)

lemma filter_entry_iff: "filter_entry P k v = Some (l, u) \<longleftrightarrow> P k \<and> l = k \<and> u = v"
  by (auto simp: filter_entry_def)

lemma convert_entry_iff: "convert_entry f k v = Some (l, u) \<longleftrightarrow> l = k \<and> u = f v"
  by (auto simp: convert_entry_def)

lemmas entry_iffs = prefix_entry_iff strip_entry_iff filter_entry_iff convert_entry_iff

lemma entry_inj [simp, intro]:
  "key_inj (prefix_entry p)" "key_inj (strip_entry p f)" "key_inj (filter_entry P)" "key_inj (convert_entry g)"
  by (auto simp: key_inj_def entry_iffs)

text \<open>The loops, as maps.\<close>

lemma map_of_prefix_entry:
  "wf_map m \<Longrightarrow> map_of (range_into (prefix_entry p) m []) (p @ k) = map_of m k"
  by (rule option_eqI) (auto simp: range_into_iff entry_iffs HasPrefix_iff)

lemma map_of_prefix_entry_None:
  "wf_map m \<Longrightarrow> \<not> HasPrefix l p \<Longrightarrow> map_of (range_into (prefix_entry p) m []) l = None"
  by (rule option_eqI) (auto simp: range_into_iff entry_iffs HasPrefix_iff)

lemma map_of_strip_entry:
  "wf_map m \<Longrightarrow> map_of (range_into (strip_entry p f) m []) k = Option.bind (map_of m (p @ k)) f"
  by (rule option_eqI) (auto simp: range_into_iff entry_iffs bind_eq_Some_conv)

lemma map_of_filter_entry:
  "wf_map m \<Longrightarrow> map_of (range_into (filter_entry P) m []) k = (if P k then map_of m k else None)"
  by (rule option_eqI) (auto simp: range_into_iff entry_iffs)

lemma map_of_convert_entry:
  "wf_map m \<Longrightarrow> map_of (range_into (convert_entry f) m []) k = map_option f (map_of m k)"
  by (rule option_eqI) (auto simp: range_into_iff entry_iffs)

end
