(* ===== verification/Publisher_Adapter.thy ===== *)
theory Publisher_Adapter
  imports Message_Publisher Key_Transport
begin

text \<open>
  What a broker's package gives to \<open>MessagePublisher\<close>: a marshaller, a destination publisher for each
  name, and its \<open>Publish\<close>. A broker's client is a function on the environment of the world: it
  returns, and it cannot touch the messages and maps of the program. The contract of the three
  pieces is a locale; its client's lemma says what one publish does, whatever is cached already.
\<close>

definition on_env :: "('e \<Rightarrow> 'a \<times> 'e) \<Rightarrow> ('e, 'a) act" where
  "on_env f w = (case f (env w) of (a, e) \<Rightarrow> (Ret a, w\<lparr>env := e\<rparr>))"

lemma on_env_frame [simp]:
  "heap_msgs (w\<lparr>env := e\<rparr>) = heap_msgs w" "get_msg (w\<lparr>env := e\<rparr>) a = get_msg w a"
  by (simp_all add: get_msg_def)

locale publisher_adapter =
  fixes cfg :: "('t, 'p, 'e) mp_config"
    and I :: "('t, 'p, 'e) impl"
    and marshal :: "'e world \<Rightarrow> addr \<Rightarrow> gerr + 't"
    and dest :: "string \<Rightarrow> 'p"
    and send :: "'p \<Rightarrow> ctx \<Rightarrow> 't \<Rightarrow> 'e \<Rightarrow> (gerr option \<times> 't) \<times> 'e"
  assumes marshals: "MessageMarshaller cfg m w = (Ret (marshal w m), w)"
    and creates: "GetDestinationPublisher cfg d w = (Ret (Inr (dest d)), w)"
    and sends: "marshal v m = Inr t \<Longrightarrow> impl_Publish I p c t w = on_env (send p c t) w"
begin

text \<open>The cache of a publisher that this package configured.\<close>

definition own_cache :: "'p mp_state \<Rightarrow> bool" where
  "own_cache s \<longleftrightarrow> cache_ok s \<and> \<not> closed s \<and> (\<forall>d p. cached s d = Some p \<longrightarrow> p = dest d)"

lemma own_cache_zero: "own_cache mp_zero"
  by (simp add: own_cache_def) (simp add: mp_zero_def)

lemma own_cache_put: "own_cache s \<Longrightarrow> own_cache (cache_put d (dest d) s)"
proof -
  assume own: "own_cache s"
  have "p = dest d'" if "cached (cache_put d (dest d) s) d' = Some p" for d' p
    using that own by (cases "d' = d") (simp_all add: own_cache_def cache.get_put_same cache.get_put_other)
  with own show ?thesis by (simp add: own_cache_def cache.put_keeps)
qed

lemma own_cache_get:
  assumes "own_cache s"
  shows "\<exists>s'. getPublisher cfg d s w = ((Ret (Inr (dest d)), w), s') \<and> own_cache s' \<and> cached s' d = Some (dest d)"
proof (cases "cached s d")
  case None
  with assms have "getPublisher cfg d s w = ((Ret (Inr (dest d)), w), cache_put d (dest d) s)"
    by (simp add: own_cache_def getPublisher_write gp_write_put creates)
  moreover have "own_cache (cache_put d (dest d) s)" "cached (cache_put d (dest d) s) d = Some (dest d)"
    using own_cache_put [OF assms] assms by (simp_all add: own_cache_def cache.get_put_same)
  ultimately show ?thesis by blast
next
  case (Some p)
  with assms show ?thesis by (intro exI [of _ s]) (simp add: own_cache_def getPublisher_cached)
qed

lemma publish_outcome:
  assumes "own_cache s" "RoutingFunc cfg m w = (Ret (Inr d), w1)"
  shows "\<exists>s'. own_cache s' \<and> cached s' d = Some (dest d) \<and>
     MessagePublisher_Publish cfg I m s w =
       ((case marshal w1 m of
           Inl e \<Rightarrow> (Ret (Some e), w1)
         | Inr t \<Rightarrow> (case send (dest d) (Context w1 m) t (env w1) of
             ((Some e, t'), v) \<Rightarrow> (Ret (Some e), w1\<lparr>env := v\<rparr>)
           | ((None, t'), v) \<Rightarrow> (Ret None,
               if GetMessageID I (dest d) t' = [] then w1\<lparr>env := v\<rparr>
               else upd_msg m (\<lambda>x. x\<lparr>ID := GetMessageID I (dest d) t'\<rparr>) (w1\<lparr>env := v\<rparr>)))), s')"
proof -
  obtain s' where s': "getPublisher cfg d s w1 = ((Ret (Inr (dest d)), w1), s')" "own_cache s'"
    "cached s' d = Some (dest d)"
    using own_cache_get [OF assms(1)] by blast
  have "MessagePublisher_Publish cfg I m s w = (publish_to cfg I m (dest d) w1, s')"
    by (simp add: MessagePublisher_Publish_def assms(2) s')
  moreover have "publish_to cfg I m (dest d) w1 =
      (case marshal w1 m of
           Inl e \<Rightarrow> (Ret (Some e), w1)
         | Inr t \<Rightarrow> (case send (dest d) (Context w1 m) t (env w1) of
             ((Some e, t'), v) \<Rightarrow> (Ret (Some e), w1\<lparr>env := v\<rparr>)
           | ((None, t'), v) \<Rightarrow> (Ret None,
               if GetMessageID I (dest d) t' = [] then w1\<lparr>env := v\<rparr>
               else upd_msg m (\<lambda>x. x\<lparr>ID := GetMessageID I (dest d) t'\<rparr>) (w1\<lparr>env := v\<rparr>))))"
    by (cases "marshal w1 m")
      (auto simp: publish_to_unfold marshals sends on_env_def split: prod.split option.split)
  ultimately show ?thesis using s' by auto
qed

end

end
