(* ===== verification/Redis_Publisher.thy ===== *)
theory Redis_Publisher
  imports Publisher_Adapter
begin

text \<open>
  \<open>redis/values.go\<close> and \<open>redis/publisher.go\<close>. The \<open>go-redis\<close> client is a record of functions on the
  environment of the world. The arguments of an XADD are built, used and dropped by one publish, so
  they are a value. A function that gives the values of a message returns a map that is only read
  again, so the map it returns is a value too, with the nil map as the empty map.
\<close>

section \<open>The client and its data\<close>

record xadd_args =
  x_Stream :: string
  x_ID :: string
  x_MaxLen :: int
  x_Approx :: bool
  x_Values :: "(string, gval) gomap"

record x_message =
  xm_ID :: string
  xm_Values :: "addr option"

record message_wrapper =
  mw_stream :: string
  mw_consumerGroup :: string
  mw_msg :: x_message

section \<open>Values\<close>

type_synonym 'e xadd_values_marshaller = "addr \<Rightarrow> ('e, (string, gval) gomap) act"

definition MetadataWithPrefix :: "string \<Rightarrow> 'e xadd_values_marshaller" where
  "MetadataWithPrefix p msg w = (Ret (range_into (prefix_entry p) (meta_of w msg) []), w)"

fun string_only :: "gval \<Rightarrow> gval option" where
  "string_only (VString s) = Some (VString s)"
| "string_only _ = None"

type_synonym 'e extractor = "message_wrapper \<Rightarrow> ('e, addr option) act"

text \<open>The loops of the extractors, as a fresh map.\<close>

definition extract_values ::
  "(string \<Rightarrow> gval \<Rightarrow> (string \<times> gval) option) \<Rightarrow> message_wrapper \<Rightarrow> ('e, addr option) act"
where
  "extract_values body wrapper w =
     (let (r, w1) = new_map (range_into body (read_map w (xm_Values (mw_msg wrapper))) []) w in (Ret (Some r), w1))"

definition PrefixMetadataExtractor :: "string \<Rightarrow> 'e extractor" where
  "PrefixMetadataExtractor p = extract_values (strip_entry p string_only)"

definition PrefixPayloadExtractor :: "string \<Rightarrow> 'e extractor" where
  "PrefixPayloadExtractor p = extract_values (strip_entry p Some)"

definition NonPrefixPayloadExtractor :: "string \<Rightarrow> 'e extractor" where
  "NonPrefixPayloadExtractor p = extract_values (filter_entry (\<lambda>k. \<not> HasPrefix k p))"

section \<open>Publisher options\<close>

record 'e redis_publisher_options =
  idGenerator :: "(addr \<Rightarrow> ('e, gerr + string) act) option"
  maxlen :: int
  approx :: bool
  metadataMarshaller :: "'e xadd_values_marshaller option"

type_synonym 'e redis_publisher_option = "'e redis_publisher_options \<Rightarrow> 'e redis_publisher_options"

definition WithIDGenerator :: "(addr \<Rightarrow> ('e, gerr + string) act) option \<Rightarrow> 'e redis_publisher_option" where
  "WithIDGenerator idGen opts = opts\<lparr>idGenerator := idGen\<rparr>"

definition WithMaxlen :: "int \<Rightarrow> 'e redis_publisher_option" where
  "WithMaxlen n opts = opts\<lparr>maxlen := n\<rparr>"

definition WithApprox :: "bool \<Rightarrow> 'e redis_publisher_option" where
  "WithApprox b opts = opts\<lparr>approx := b\<rparr>"

definition WithMetadataMarshaller :: "'e xadd_values_marshaller option \<Rightarrow> 'e redis_publisher_option" where
  "WithMetadataMarshaller m opts = opts\<lparr>metadataMarshaller := m\<rparr>"

section \<open>Streams\<close>

record 'e redis_client =
  XAdd :: "ctx \<Rightarrow> xadd_args \<Rightarrow> 'e \<Rightarrow> gerr option \<times> 'e"

record 'e stream =
  st_client :: "'e redis_client"
  st_name :: string

definition Stream_Close :: "'e stream \<Rightarrow> ('e, gerr option) act" where
  "Stream_Close s w = (Ret None, w)"

definition Stream_send :: "'e stream \<Rightarrow> ctx \<Rightarrow> xadd_args \<Rightarrow> 'e \<Rightarrow> (gerr option \<times> xadd_args) \<times> 'e" where
  "Stream_send s c message e =
     (let message = message\<lparr>x_Stream := st_name s\<rparr>;
          (err, e') = XAdd (st_client s) c message e
      in ((err, message), e'))"

definition Stream_Publish :: "'e stream \<Rightarrow> ctx \<Rightarrow> xadd_args \<Rightarrow> ('e, gerr option \<times> xadd_args) act" where
  "Stream_Publish s c message = on_env (Stream_send s c message)"

definition Stream_GetMessageID :: "'e stream \<Rightarrow> xadd_args \<Rightarrow> string" where
  "Stream_GetMessageID s message = x_ID message"

definition stream_impl :: "(xadd_args, 'e stream, 'e) impl" where
  "stream_impl = \<lparr>impl_Publish = Stream_Publish, GetMessageID = Stream_GetMessageID, impl_Close = Stream_Close\<rparr>"

section \<open>The publisher\<close>

definition redis_marshaller ::
  "'e redis_publisher_options \<Rightarrow> 'e xadd_values_marshaller \<Rightarrow> addr \<Rightarrow> ('e, gerr + xadd_args) act"
where
  "redis_marshaller options payloadMarshaller msg =
     andThen (case metadataMarshaller options of
                Some f \<Rightarrow> f msg
              | None \<Rightarrow> (\<lambda>w. (Ret (meta_of w msg), w))) (\<lambda>metadataValues.
       let values = range_into (\<lambda>k v. Some (k, v)) metadataValues [] in
       andThen (payloadMarshaller msg) (\<lambda>payloadValues.
         let values = range_into (\<lambda>k v. Some (k, v)) payloadValues values in
         andThen (case idGenerator options of
                    None \<Rightarrow> (\<lambda>w. (Ret (Inr (ID (get_msg w msg))), w))
                  | Some gen \<Rightarrow> gen msg) (\<lambda>i w. case i of
             Inl e \<Rightarrow> (Ret (Inl e), w)
           | Inr id_msg \<Rightarrow> (Ret (Inr \<lparr>x_Stream = [], x_ID = id_msg, x_MaxLen = maxlen options,
                                      x_Approx = approx options, x_Values = values\<rparr>), w))))"

definition redis_config ::
  "'e redis_client \<Rightarrow> 'e routing_func \<Rightarrow> 'e xadd_values_marshaller \<Rightarrow> 'e redis_publisher_options
     \<Rightarrow> (xadd_args, 'e stream, 'e) mp_config"
where
  "redis_config c routingFunc payloadMarshaller options =
     \<lparr>RoutingFunc = routingFunc,
      MessageMarshaller = redis_marshaller options payloadMarshaller,
      GetDestinationPublisher = (\<lambda>d w. (Ret (Inr \<lparr>st_client = c, st_name = d\<rparr>), w))\<rparr>"

text \<open>\<open>None\<close> is a nil client or function.\<close>

definition NewRedisPublisher ::
  "'e redis_client option \<Rightarrow> 'e routing_func option \<Rightarrow> 'e xadd_values_marshaller option
     \<Rightarrow> 'e redis_publisher_option list \<Rightarrow> gerr + (xadd_args, 'e stream, 'e) mp_config"
where
  "NewRedisPublisher c routingFunc payloadMarshaller opts =
     (case c of
        None \<Rightarrow> Inl (ErrNew ''client is required'')
      | Some c \<Rightarrow> (case routingFunc of
          None \<Rightarrow> Inl (ErrNew ''routing function is required'')
        | Some routingFunc \<Rightarrow> (case payloadMarshaller of
            None \<Rightarrow> Inl (ErrNew ''payloadMarshaller is required'')
          | Some payloadMarshaller \<Rightarrow>
              (let options = fold (\<lambda>opt. opt) opts
                     \<lparr>idGenerator = None, maxlen = 0, approx = False, metadataMarshaller = None\<rparr>
               in Inr (redis_config c routingFunc payloadMarshaller options)))))"

text \<open>\<open>Publisher.Publish\<close> and \<open>Publisher.Close\<close>.\<close>

definition Redis_Publish ::
  "(xadd_args, 'e stream, 'e) mp_config \<Rightarrow> addr \<Rightarrow> 'e stream mp_state \<Rightarrow> 'e world
     \<Rightarrow> (gerr option res \<times> 'e world) \<times> 'e stream mp_state"
where
  "Redis_Publish p message = MessagePublisher_Publish p stream_impl message"

definition Redis_Close ::
  "'e stream mp_state \<Rightarrow> 'e world \<Rightarrow> (gerr option res \<times> 'e world) \<times> 'e stream mp_state"
where
  "Redis_Close = MessagePublisher_Close stream_impl"

lemmas redis_publisher_defs = redis_config_def redis_marshaller_def stream_impl_def Stream_Publish_def
  Stream_GetMessageID_def Stream_send_def

section \<open>One publish\<close>

text \<open>A values function that only reads, which the library's own are.\<close>

definition pure_values :: "('e world \<Rightarrow> addr \<Rightarrow> (string, gval) gomap) \<Rightarrow> 'e xadd_values_marshaller" where
  "pure_values f msg w = (Ret (f w msg), w)"

lemma MetadataWithPrefix_pure:
  "MetadataWithPrefix p = pure_values (\<lambda>w m. range_into (prefix_entry p) (meta_of w m) [])"
  by (simp add: fun_eq_iff MetadataWithPrefix_def pure_values_def)

definition metadata_values ::
  "('e world \<Rightarrow> addr \<Rightarrow> (string, gval) gomap) option \<Rightarrow> 'e world \<Rightarrow> addr \<Rightarrow> (string, gval) gomap"
where
  "metadata_values g w m = (case g of None \<Rightarrow> meta_of w m | Some g \<Rightarrow> g w m)"

definition redis_args ::
  "('e world \<Rightarrow> addr \<Rightarrow> (string, gval) gomap) option \<Rightarrow> ('e world \<Rightarrow> addr \<Rightarrow> (string, gval) gomap)
     \<Rightarrow> int \<Rightarrow> bool \<Rightarrow> 'e world \<Rightarrow> addr \<Rightarrow> xadd_args"
where
  "redis_args g f n ap w m = \<lparr>x_Stream = [], x_ID = ID (get_msg w m), x_MaxLen = n, x_Approx = ap,
     x_Values = range_into (\<lambda>k v. Some (k, v)) (f w m)
                  (range_into (\<lambda>k v. Some (k, v)) (metadata_values g w m) [])\<rparr>"

lemma redis_args_values:
  "wf_map (metadata_values g w m) \<Longrightarrow> wf_map (f w m) \<Longrightarrow>
   map_of (x_Values (redis_args g f n ap w m)) = map_of (metadata_values g w m) ++ map_of (f w m)"
  by (simp add: redis_args_def range_into_copy)

lemma redis_marshaller_pure:
  "redis_marshaller \<lparr>idGenerator = None, maxlen = n, approx = ap, metadataMarshaller = map_option pure_values g\<rparr>
     (pure_values f) m w = (Ret (Inr (redis_args g f n ap w m)), w)"
  by (cases g) (simp_all add: redis_marshaller_def andThen_def pure_values_def redis_args_def metadata_values_def)

interpretation redis: publisher_adapter
  "redis_config c routing (pure_values f)
     \<lparr>idGenerator = None, maxlen = n, approx = ap, metadataMarshaller = map_option pure_values g\<rparr>"
  stream_impl "\<lambda>w m. Inr (redis_args g f n ap w m)" "\<lambda>d. \<lparr>st_client = c, st_name = d\<rparr>" Stream_send
  for c routing f n ap g
  by unfold_locales
    (simp_all add: redis_config_def redis_marshaller_pure stream_impl_def Stream_Publish_def)

text \<open>Publishing to Redis runs one XADD, on the stream the routing function named: with the
  message's ID (empty for one that Redis generates), the configured trimming, and the metadata's
  values overridden by the payload's. The result is the XADD's, and no message is changed, so the
  ID that Redis generates never reaches the message.\<close>

theorem redis_publish_adds_entry:
  assumes "routing m w = (Ret (Inr d), w1)"
    and "\<not> closed s" "cache_ok s" "\<forall>d p. cached s d = Some p \<longrightarrow> p = \<lparr>st_client = c, st_name = d\<rparr>"
    and "NewRedisPublisher (Some c) (Some routing) (Some (pure_values f))
           [WithMaxlen n, WithApprox ap, WithMetadataMarshaller (map_option pure_values g)] = Inr pub"
    and "Redis_Publish pub m s w = ((r, w'), s')"
    and "valid_msg w1 m" "wf_map (metadata_values g w1 m)" "wf_map (f w1 m)"
  shows "\<exists>args e. x_Stream args = d \<and> x_ID args = ID (get_msg w1 m) \<and> x_MaxLen args = n \<and> x_Approx args = ap
    \<and> map_of (x_Values args) = map_of (metadata_values g w1 m) ++ map_of (f w1 m)
    \<and> XAdd c (Context w1 m) args (env w1) = (e, env w') \<and> r = Ret e
    \<and> heap_msgs w' = heap_msgs w1 \<and> heap_maps w' = heap_maps w1"
proof -
  let ?cfg = "redis_config c routing (pure_values f)
     \<lparr>idGenerator = None, maxlen = n, approx = ap, metadataMarshaller = map_option pure_values g\<rparr>"
  let ?args = "redis_args g f n ap w1 m\<lparr>x_Stream := d\<rparr>"
  have cfg: "pub = ?cfg" using assms(5)
    by (simp add: NewRedisPublisher_def WithMaxlen_def WithApprox_def WithMetadataMarshaller_def)
  have own: "redis.own_cache c s" using assms(2-4) by (simp add: redis.own_cache_def)
  have routed: "RoutingFunc ?cfg m w = (Ret (Inr d), w1)" using assms(1) by (simp add: redis_config_def)
  obtain err v where add: "XAdd c (Context w1 m) ?args (env w1) = (err, v)" by fastforce
  have keep: "upd_msg m (\<lambda>x. x\<lparr>ID := ID (get_msg w1 m)\<rparr>) (w1\<lparr>env := v\<rparr>) = w1\<lparr>env := v\<rparr>"
  proof -
    have "(get_msg w1 m)\<lparr>ID := ID (get_msg w1 m)\<rparr> = get_msg w1 m" by simp
    then show ?thesis by (simp add: upd_msg_def get_msg_def)
  qed
  have sent: "Stream_send \<lparr>st_client = c, st_name = d\<rparr> (Context w1 m) (redis_args g f n ap w1 m) (env w1) = ((err, ?args), v)"
    using add by (simp add: Stream_send_def)
  have "Stream_GetMessageID \<lparr>st_client = c, st_name = d\<rparr> ?args = ID (get_msg w1 m)"
    by (simp add: Stream_GetMessageID_def redis_args_def)
  with redis.publish_outcome [of c s, OF own routed] sent keep
  have "MessagePublisher_Publish ?cfg stream_impl m s w = ((Ret err, w1\<lparr>env := v\<rparr>), s')"
    using assms(6) by (cases err) (auto simp: cfg Redis_Publish_def stream_impl_def)
  with assms(6) have "r = Ret err" "w' = w1\<lparr>env := v\<rparr>" by (simp_all add: Redis_Publish_def cfg)
  moreover have "map_of (x_Values ?args) = map_of (metadata_values g w1 m) ++ map_of (f w1 m)"
    using redis_args_values [of g w1 m f n ap] assms(8,9) by simp
  ultimately show ?thesis
    using add by (intro exI [of _ ?args] exI [of _ err]) (simp add: redis_args_def)
qed

text \<open>A client that logs its commands and answers nil, for the witnesses.\<close>

definition log_client :: "xadd_args list redis_client" where
  "log_client = \<lparr>XAdd = (\<lambda>c a log. (None, log @ [a]))\<rparr>"

theorem redis_publish_adds_entry_witness:
  "let w = snd (NewMessage Background VNil (start_world []));
       f = (\<lambda>w m. [(''p'', VInt 1)])
   in \<exists>pub w' s'. NewRedisPublisher (Some log_client) (Some (ConstantDestination ''orders'')) (Some (pure_values f))
           [WithMaxlen 5, WithApprox True, WithMetadataMarshaller (map_option pure_values None)] = Inr pub
      \<and> Redis_Publish pub 0 mp_zero w = ((Ret None, w'), s') \<and> map x_Stream (env w') = [''orders'']
      \<and> heap_msgs w' = heap_msgs w"
proof -
  define w where "w = snd (NewMessage Background VNil (start_world ([] :: xadd_args list)))"
  then have w: "valid_msg w 0" "env w = []" "wf_map (meta_of w 0)"
    by (simp_all add: message_defs world_defs start_world_def)
  let ?f = "\<lambda>w m. [(''p'', VInt 1)]"
  let ?opts = "[WithMaxlen 5, WithApprox True, WithMetadataMarshaller (map_option pure_values None)]"
  obtain pub where pub: "NewRedisPublisher (Some log_client) (Some (ConstantDestination ''orders'')) (Some (pure_values ?f)) ?opts = Inr pub"
    by (simp add: NewRedisPublisher_def)
  obtain r w' s' where run: "Redis_Publish pub 0 mp_zero w = ((r, w'), s')" by (metis prod.exhaust)
  have route: "ConstantDestination ''orders'' 0 w = (Ret (Inr ''orders''), w)"
    by (simp add: ConstantDestination_def)
  have zero: "\<not> closed (mp_zero :: xadd_args list stream mp_state)" by (simp add: mp_zero_def)
  from redis_publish_adds_entry [where m = 0 and g = None, OF route zero cache_ok_zero _ pub run w(1)]
  obtain args e where "x_Stream args = ''orders''" "XAdd log_client (Context w 0) args (env w) = (e, env w')" "r = Ret e"
    "heap_msgs w' = heap_msgs w"
    using w(3) by (auto simp: metadata_values_def)
  then have args: "env w' = [args]" "x_Stream args = ''orders''" "r = Ret None" "heap_msgs w' = heap_msgs w"
    using w(2) by (auto simp: log_client_def)
  then have "map x_Stream (env w') = [''orders'']" by simp
  with args(4) run [unfolded args(3)] pub show ?thesis unfolding Let_def w_def [symmetric]
    by (intro exI [of _ pub] exI [of _ w'] exI [of _ s']) simp
qed

section \<open>Round trip\<close>

text \<open>Redis gives every value of an entry back as a string: \<open>show\<close> is how it writes a value.\<close>

interpretation prefixed_metadata: key_transport "prefix_entry p" "\<lambda>v. VString (show_val v)"
  "strip_entry p string_only" "\<lambda>v. VString (show_val v)" for p show_val
  by unfold_locales (auto simp: entry_iffs)

text \<open>Metadata survives Redis when the publisher writes it under a prefix and the subscriber reads
  that prefix, whatever the payload's values are, as long as no payload key has the prefix: each key
  comes back with its value as Redis writes it (a string comes back unchanged), no key is added,
  and the payload extractor that leaves the prefix out gets exactly the payload's entries.\<close>

theorem redis_metadata_round_trip:
  assumes "\<forall>v. show_val (VString v) = v"
    and "wf_world w" "valid_msg w m" "wf_map payload" "\<forall>k \<in> fst ` set payload. \<not> HasPrefix k p"
    and "MetadataWithPrefix p m w = (Ret metadata, w)"
    and "wf_map arrived"
    and "map_of arrived = map_option (\<lambda>v. VString (show_val v)) \<circ> (map_of metadata ++ map_of payload)"
    and "read_map w' (xm_Values (mw_msg wrapper)) = arrived"
    and "PrefixMetadataExtractor p wrapper w' = (Ret r, w1)" "NonPrefixPayloadExtractor p wrapper w' = (Ret q, w2)"
  shows "map_of (read_map w1 r) = map_option (\<lambda>v. VString (show_val v)) \<circ> map_of (meta_of w m)
    \<and> map_of (read_map w2 q) = map_option (\<lambda>v. VString (show_val v)) \<circ> map_of payload
    \<and> (\<forall>k s. map_of (meta_of w m) k = Some (VString s) \<longrightarrow> map_of (read_map w1 r) k = Some (VString s))"
proof -
  let ?str = "\<lambda>v. VString (show_val v)"
  have wf: "wf_map (meta_of w m)" using assms(2,3) by (rule wf_world_meta)
  have meta: "metadata = range_into (prefix_entry p) (meta_of w m) []"
    using assms(6) by (simp add: MetadataWithPrefix_def)
  have out: "read_map w1 r = range_into (strip_entry p string_only) arrived []"
    "read_map w2 q = range_into (filter_entry (\<lambda>k. \<not> HasPrefix k p)) arrived []"
    using assms(9-11) by (auto simp: PrefixMetadataExtractor_def NonPrefixPayloadExtractor_def extract_values_def new_map_def read_map_def)
  have split: "map_of metadata l = None \<or> map_of payload l = None" for l
    using assms(5) wf by (cases "HasPrefix l p")
      (auto simp: meta map_of_eq_None_iff map_of_prefix_entry_None)
  have "map_of (range_into (strip_entry p string_only) arrived []) = map_option ?str \<circ> map_of (meta_of w m)"
  proof (rule prefixed_metadata.transported [where other = "map_option ?str \<circ> map_of payload"])
    show "strip_entry p string_only l x = None" if "(map_option ?str \<circ> map_of payload) l = Some x" for l x
      using that assms(5) by (auto simp: strip_entry_def dest!: map_of_SomeD)
    show "map_of (range_into (prefix_entry p) (meta_of w m) []) l = None"
      if "l \<in> dom (map_option ?str \<circ> map_of payload)" for l
      using that split [of l] by (auto simp: meta)
    show "map_of arrived = (map_option ?str \<circ> map_of payload) ++ (map_option ?str \<circ> map_of (range_into (prefix_entry p) (meta_of w m) []))"
    proof
      fix l
      show "map_of arrived l = ((map_option ?str \<circ> map_of payload) ++
          (map_option ?str \<circ> map_of (range_into (prefix_entry p) (meta_of w m) []))) l"
        using split [of l] by (auto simp: assms(8) meta map_add_def split: option.splits)
    qed
  qed (use wf assms(7) in simp_all)
  moreover have "map_of (read_map w2 q) = map_option ?str \<circ> map_of payload"
  proof
    fix k
    show "map_of (read_map w2 q) k = (map_option ?str \<circ> map_of payload) k"
      using assms(5,7) wf split [of k]
      by (auto simp: out map_of_filter_entry assms(8) meta map_add_def map_of_prefix_entry_None
          map_of_eq_None_iff split: option.splits)
  qed
  ultimately show ?thesis using assms(1) by (simp add: out)
qed

theorem redis_metadata_round_trip_witness:
  "let w = snd (WithMetadata 0 ''k'' (VString ''v'') (snd (NewMessage Background VNil (start_world ()))));
       arrived = [(''m:k'', VString ''v''), (''body'', VString ''x'')];
       (a, w') = new_map arrived w;
       (r, w1) = PrefixMetadataExtractor ''m:'' \<lparr>mw_stream = ''s'', mw_consumerGroup = [],
                    mw_msg = \<lparr>xm_ID = ''1-0'', xm_Values = Some a\<rparr>\<rparr> w'
   in \<exists>q. r = Ret q \<and> map_of (read_map w1 q) ''k'' = Some (VString ''v'')"
proof -
  define w where "w = snd (WithMetadata 0 ''k'' (VString ''v'') (snd (NewMessage Background VNil (start_world ()))))"
  define str where "str = (\<lambda>v. case v of VString s \<Rightarrow> s | _ \<Rightarrow> [])"
  define arrived where "arrived = [(''m:k'', VString ''v''), (''body'', VString ''x'')]"
  have meta: "meta_of w 0 = [(''k'', VString ''v'')]" "valid_msg w 0"
    by (simp_all add: w_def message_defs world_defs start_world_def andThen_def map_assign_def)
  have wf: "wf_world w"
    unfolding w_def by (rule wf_world_WithMetadata) (simp add: message_defs world_defs start_world_def wf_world_def)
  obtain a w' where new: "new_map arrived w = (a, w')" by fastforce
  let ?x = "\<lparr>mw_stream = ''s'', mw_consumerGroup = [], mw_msg = \<lparr>xm_ID = ''1-0'', xm_Values = Some a\<rparr>\<rparr>"
  obtain r w1 q w2 where run: "PrefixMetadataExtractor ''m:'' ?x w' = (Ret r, w1)"
      "NonPrefixPayloadExtractor ''m:'' ?x w' = (Ret q, w2)"
    by (simp add: PrefixMetadataExtractor_def NonPrefixPayloadExtractor_def extract_values_def new_map_def)
  have reads: "read_map w' (Some a) = arrived" using new by (auto simp: new_map_def read_map_def)
  have "MetadataWithPrefix ''m:'' 0 w = (Ret [(''m:k'', VString ''v'')], w)"
    by (simp add: MetadataWithPrefix_def meta prefix_entry_def)
  from redis_metadata_round_trip [OF _ wf meta(2) _ _ this _ _ _ run, of str "[(''body'', VString ''x'')]" arrived]
  have "map_of (read_map w1 r) ''k'' = Some (VString ''v'')"
    using reads by (auto simp: str_def meta arrived_def HasPrefix_def fun_eq_iff map_add_def)
  then show ?thesis
    using run(1) new by (simp add: w_def [symmetric] arrived_def [symmetric])
qed

end
