(* ===== verification/Redis_Subscriber.thy ===== *)
theory Redis_Subscriber
  imports Redis_Publisher Dispatcher_Slots
begin

text \<open>
  \<open>redis/subscriber.go\<close>: options, the constructor with its bounds, the creation of the consumer group,
  the conversion of an entry, its acknowledgement, and the receive loop. \<open>Dispatch\<close> and \<open>Wait\<close> of
  the dispatcher (the theories \<open>Dispatcher\<close> and \<open>Dispatcher_Slots\<close>) are arguments of the loop, which
  waits for them. A duration is a 64 bit word read as a signed number. The loop runs with fuel,
  one unit for each turn.
\<close>

section \<open>Options and constructor\<close>

definition StreamDoesntExistErr :: gerr where
  "StreamDoesntExistErr = ErrVar ''redis.StreamDoesntExistErr''"

record 'e redis_subscriber_options =
  consumerGroup :: string
  consumerGroupCreateStreamIfMissing :: bool
  consumerGroupStartID :: string
  startID :: string
  processingTimeout :: "64 word option"
  metadataExtractor :: "'e extractor option"
  payloadExtractor :: "'e extractor option"
  pendingMessageIdleTimeout :: "64 word"
  pendingMessageBatchSize :: int
  redis_maxInFlight :: int
  blockTimeout :: "64 word"
  redis_onAckError :: "(addr \<Rightarrow> gerr \<Rightarrow> ('e, unit) act) option"

type_synonym 'e redis_subscriber_option = "'e redis_subscriber_options \<Rightarrow> 'e redis_subscriber_options"

definition WithConsumerGroup :: "string \<Rightarrow> 'e redis_subscriber_option" where
  "WithConsumerGroup g opts = opts\<lparr>consumerGroup := g\<rparr>"

definition WithConsumerGroupCreateStreamIfMissing :: "bool \<Rightarrow> 'e redis_subscriber_option" where
  "WithConsumerGroupCreateStreamIfMissing b opts = opts\<lparr>consumerGroupCreateStreamIfMissing := b\<rparr>"

definition WithConsumerGroupStartID :: "string \<Rightarrow> 'e redis_subscriber_option" where
  "WithConsumerGroupStartID s opts = opts\<lparr>consumerGroupStartID := s\<rparr>"

definition WithStartID :: "string \<Rightarrow> 'e redis_subscriber_option" where
  "WithStartID s opts = opts\<lparr>startID := s\<rparr>"

definition WithProcessingTimeout :: "64 word \<Rightarrow> 'e redis_subscriber_option" where
  "WithProcessingTimeout t opts = opts\<lparr>processingTimeout := Some t\<rparr>"

definition WithMetadataExtractor :: "'e extractor option \<Rightarrow> 'e redis_subscriber_option" where
  "WithMetadataExtractor f opts = opts\<lparr>metadataExtractor := f\<rparr>"

definition WithPayloadExtractor :: "'e extractor option \<Rightarrow> 'e redis_subscriber_option" where
  "WithPayloadExtractor f opts = opts\<lparr>payloadExtractor := f\<rparr>"

definition WithPendingMessageIdleTimeout :: "64 word \<Rightarrow> 'e redis_subscriber_option" where
  "WithPendingMessageIdleTimeout t opts = opts\<lparr>pendingMessageIdleTimeout := t\<rparr>"

definition WithPendingMessageBatchSize :: "int \<Rightarrow> 'e redis_subscriber_option" where
  "WithPendingMessageBatchSize n opts = opts\<lparr>pendingMessageBatchSize := n\<rparr>"

definition WithMaxInFlight :: "int \<Rightarrow> 'e redis_subscriber_option" where
  "WithMaxInFlight n opts = opts\<lparr>redis_maxInFlight := n\<rparr>"

definition WithBlockTimeout :: "64 word \<Rightarrow> 'e redis_subscriber_option" where
  "WithBlockTimeout t opts = opts\<lparr>blockTimeout := t\<rparr>"

definition WithAckErrorHandler ::
  "(addr \<Rightarrow> gerr \<Rightarrow> ('e, unit) act) option \<Rightarrow> 'e redis_subscriber_option"
where
  "WithAckErrorHandler h opts = opts\<lparr>redis_onAckError := h\<rparr>"

definition StartFromBeginning :: string where
  "StartFromBeginning = ''0''"

definition StartFromLatest :: string where
  "StartFromLatest = ''$''"

text \<open>An entry as the client returns it: its ID and its values (\<open>None\<close> for a nil map).\<close>

type_synonym entry = "string \<times> (string, gval) gomap option"

record xautoclaim_args =
  ac_Stream :: string
  ac_Group :: string
  ac_Consumer :: string
  ac_MinIdle :: "64 word"
  ac_Start :: string
  ac_Count :: int

record xread_args =
  rd_Group :: "(string \<times> string) option" \<comment> \<open>group and consumer of an XREADGROUP\<close>
  rd_Streams :: "string list"
  rd_Count :: int
  rd_Block :: "64 word"

record 'e redis_reader =
  XGroupCreateMkStream :: "ctx \<Rightarrow> string \<Rightarrow> string \<Rightarrow> string \<Rightarrow> 'e \<Rightarrow> gerr option \<times> 'e"
  XGroupCreate :: "ctx \<Rightarrow> string \<Rightarrow> string \<Rightarrow> string \<Rightarrow> 'e \<Rightarrow> gerr option \<times> 'e"
  XAutoClaim :: "ctx \<Rightarrow> xautoclaim_args \<Rightarrow> 'e \<Rightarrow> (entry list \<times> string \<times> gerr option) \<times> 'e"
  XReadGroup :: "ctx \<Rightarrow> xread_args \<Rightarrow> 'e \<Rightarrow> (gerr + (string \<times> entry list) list) \<times> 'e"
  XRead :: "ctx \<Rightarrow> xread_args \<Rightarrow> 'e \<Rightarrow> (gerr + (string \<times> entry list) list) \<times> 'e"
  XInfoStream_LastGeneratedID :: "ctx \<Rightarrow> string \<Rightarrow> 'e \<Rightarrow> (gerr + string) \<times> 'e"
  XAck :: "ctx \<Rightarrow> string \<Rightarrow> string \<Rightarrow> string \<Rightarrow> 'e \<Rightarrow> gerr option \<times> 'e"
  err_Error :: "gerr \<Rightarrow> string" \<comment> \<open>the text of an error the client returns\<close>

definition redis_Nil :: gerr where
  "redis_Nil = ErrVar ''redis.Nil''"

record 'e redis_subscriber =
  rs_client :: "'e redis_reader"
  rs_stream :: string
  rs_options :: "'e redis_subscriber_options"
  rs_processingTimeout :: "64 word"

definition default_redis_options :: "'e redis_subscriber_options" where
  "default_redis_options =
     \<lparr>consumerGroup = [], consumerGroupCreateStreamIfMissing = False,
      consumerGroupStartID = StartFromLatest, startID = StartFromLatest, processingTimeout = None,
      metadataExtractor = None, payloadExtractor = None,
      pendingMessageIdleTimeout = 300000000000, pendingMessageBatchSize = 10,
      redis_maxInFlight = DefaultMaxInFlight, blockTimeout = 2000000000, redis_onAckError = None\<rparr>"

text \<open>\<open>processing_timeout_error\<close> is the text of the error, from the two durations.\<close>

definition NewRedisSubscriber ::
  "(64 word \<Rightarrow> 64 word \<Rightarrow> string) \<Rightarrow> 'e redis_reader option \<Rightarrow> string \<Rightarrow> 'e redis_subscriber_option list
     \<Rightarrow> gerr + 'e redis_subscriber"
where
  "NewRedisSubscriber processing_timeout_error c stream opts =
     (case c of
        None \<Rightarrow> Inl (ErrNew ''client is required'')
      | Some c \<Rightarrow>
          (let options = fold (\<lambda>opt. opt) opts default_redis_options;
               timeout = (case processingTimeout options of
                   Some t \<Rightarrow> t
                 | None \<Rightarrow> word_of_int (trunc_div (sint (pendingMessageIdleTimeout options * 4)) 5))
           in if consumerGroup options \<noteq> []
                 \<and> (sint timeout \<le> 0 \<or> sint timeout \<ge> sint (pendingMessageIdleTimeout options))
              then Inl (ErrNew (processing_timeout_error timeout (pendingMessageIdleTimeout options)))
              else Inr \<lparr>rs_client = c, rs_stream = stream, rs_options = options,
                        rs_processingTimeout = timeout\<rparr>))"

section \<open>Entries and deliveries\<close>

text \<open>The client's decoding of an entry: its values become a map of the program.\<close>

definition new_x_message :: "entry \<Rightarrow> 'e world \<Rightarrow> x_message \<times> 'e world" where
  "new_x_message entry w =
     (case snd entry of
        None \<Rightarrow> (\<lparr>xm_ID = fst entry, xm_Values = None\<rparr>, w)
      | Some m \<Rightarrow> (let (a, w1) = new_map m w in (\<lparr>xm_ID = fst entry, xm_Values = Some a\<rparr>, w1)))"

text \<open>A map as a payload.\<close>

definition map_payload :: "addr option \<Rightarrow> gval" where
  "map_payload r = (case r of None \<Rightarrow> VNilMap | Some a \<Rightarrow> VMap a)"

definition redis_toMessage ::
  "'e redis_subscriber \<Rightarrow> ctx \<Rightarrow> message_wrapper \<Rightarrow> ('e, addr) act"
where
  "redis_toMessage s c wrapper =
     andThen (case metadataExtractor (rs_options s) of
                Some f \<Rightarrow> f wrapper
              | None \<Rightarrow> (\<lambda>w. (Ret None, w))) (\<lambda>metadata w.
       let (metadata, w1) = (case metadata of
             None \<Rightarrow> (let (r, w1) = new_map [] w in (Some r, w1))
           | Some r \<Rightarrow> (Some r, w))
       in andThen (case payloadExtractor (rs_options s) of
                     Some f \<Rightarrow> f wrapper
                   | None \<Rightarrow> (\<lambda>w. (Ret (xm_Values (mw_msg wrapper)), w))) (\<lambda>payload w2.
            let (msg, w3) = NewMessage c (map_payload payload) w2
            in (Ret msg, upd_msg msg (\<lambda>m. m\<lparr>ID := xm_ID (mw_msg wrapper), Metadata := metadata\<rparr>) w3)) w1)"

definition redis_ack :: "'e redis_subscriber \<Rightarrow> message_wrapper \<Rightarrow> ctx \<Rightarrow> 'e \<Rightarrow> gerr option \<times> 'e" where
  "redis_ack s wrapper c e =
     (if mw_consumerGroup wrapper = [] then (None, e)
      else XAck (rs_client s) c (mw_stream wrapper) (mw_consumerGroup wrapper) (xm_ID (mw_msg wrapper)) e)"

definition redis_wrapper :: "'e redis_subscriber \<Rightarrow> x_message \<Rightarrow> message_wrapper" where
  "redis_wrapper s msg =
     \<lparr>mw_stream = rs_stream s, mw_consumerGroup = consumerGroup (rs_options s), mw_msg = msg\<rparr>"

text \<open>The record \<open>subscriber.Delivery\<close> of a message; a nacked message stays pending.\<close>

definition redis_delivery_of :: "'e redis_subscriber \<Rightarrow> message_wrapper \<Rightarrow> addr \<Rightarrow> 'e delivery" where
  "redis_delivery_of s wrapper m =
     \<lparr>dl_Message = m, dl_Ack = (\<lambda>c. on_env (redis_ack s wrapper c)), dl_Nack = (\<lambda>c w. (Ret None, w))\<rparr>"

definition redis_delivery :: "'e redis_subscriber \<Rightarrow> ctx \<Rightarrow> x_message \<Rightarrow> ('e, 'e delivery) act" where
  "redis_delivery s c msg =
     andThen (redis_toMessage s c (redis_wrapper s msg)) (\<lambda>m w. (Ret (redis_delivery_of s (redis_wrapper s msg) m), w))"

section \<open>The receive loop\<close>

definition createConsumerGroup :: "'e redis_subscriber \<Rightarrow> ctx \<Rightarrow> ('e, gerr option) act" where
  "createConsumerGroup s c w =
     (let grp = consumerGroup (rs_options s); start = consumerGroupStartID (rs_options s) in
      if grp = [] then (Ret None, w)
      else andThen (if consumerGroupCreateStreamIfMissing (rs_options s)
                    then on_env (XGroupCreateMkStream (rs_client s) c (rs_stream s) grp start)
                    else on_env (XGroupCreate (rs_client s) c (rs_stream s) grp start))
             (\<lambda>err w. (Ret (case err of
                None \<Rightarrow> None
              | Some e \<Rightarrow>
                  if Contains (err_Error (rs_client s) e) ''The XGROUP subcommand requires the key to exist''
                  then Some StreamDoesntExistErr
                  else if Contains (err_Error (rs_client s) e) ''BUSYGROUP'' then None
                  else Some e), w)) w)"

definition resolveStartID :: "'e redis_subscriber \<Rightarrow> ctx \<Rightarrow> ('e, gerr + string) act" where
  "resolveStartID s c w =
     (if consumerGroup (rs_options s) \<noteq> [] \<or> startID (rs_options s) \<noteq> StartFromLatest
      then (Ret (Inr (startID (rs_options s))), w)
      else andThen (on_env (XInfoStream_LastGeneratedID (rs_client s) c (rs_stream s)))
             (\<lambda>info w. (Ret (case info of
                Inl e \<Rightarrow> if Contains (err_Error (rs_client s) e) ''no such key'' then Inr ''0-0'' else Inl e
              | Inr i \<Rightarrow> Inr i), w)) w)"

type_synonym 'e dispatch_fn = "ctx \<Rightarrow> 'e delivery \<Rightarrow> ('e, unit) act"

text \<open>\<open>for _, msg := range msgs { d.Dispatch(ctx, s.delivery(ctx, msg)); startID = msg.ID }\<close>.\<close>

fun dispatch_entries ::
  "'e dispatch_fn \<Rightarrow> 'e redis_subscriber \<Rightarrow> ctx \<Rightarrow> entry list \<Rightarrow> string \<Rightarrow> ('e, string) act"
where
  "dispatch_entries dispatch s c [] start w = (Ret start, w)"
| "dispatch_entries dispatch s c (entry # es) start w =
     (let (msg, w1) = new_x_message entry w
      in andThen (redis_delivery s c msg) (\<lambda>d. andThen (dispatch c d) (\<lambda>_.
           dispatch_entries dispatch s c es (xm_ID msg))) w1)"

text \<open>The variables of the loop and how a turn ends.\<close>

record cursor =
  claimStart :: string
  startID_var :: string

datatype turn_end = Return "gerr option" | Continue cursor

definition claim_pending ::
  "'e dispatch_fn \<Rightarrow> 'e redis_subscriber \<Rightarrow> ctx \<Rightarrow> string \<Rightarrow> cursor \<Rightarrow> ('e, gerr + cursor) act"
where
  "claim_pending dispatch s c consumer cur =
     andThen (on_env (XAutoClaim (rs_client s) c
        \<lparr>ac_Stream = rs_stream s, ac_Group = consumerGroup (rs_options s), ac_Consumer = consumer,
         ac_MinIdle = pendingMessageIdleTimeout (rs_options s), ac_Start = claimStart cur,
         ac_Count = pendingMessageBatchSize (rs_options s)\<rparr>)) (\<lambda>(claimed, start, err).
       case err of
         Some e \<Rightarrow> (\<lambda>w. (Ret (Inl e), w))
       | None \<Rightarrow> andThen (dispatch_entries dispatch s c claimed [])
                   (\<lambda>_ w. (Ret (Inr (cur\<lparr>claimStart := start\<rparr>)), w)))"

definition read_new ::
  "'e redis_subscriber \<Rightarrow> ctx \<Rightarrow> string \<Rightarrow> cursor \<Rightarrow> ('e, gerr + (string \<times> entry list) list) act"
where
  "read_new s c consumer cur =
     (if consumerGroup (rs_options s) \<noteq> []
      then on_env (XReadGroup (rs_client s) c
             \<lparr>rd_Group = Some (consumerGroup (rs_options s), consumer), rd_Streams = [rs_stream s, ''>''],
              rd_Count = redis_maxInFlight (rs_options s), rd_Block = blockTimeout (rs_options s)\<rparr>)
      else on_env (XRead (rs_client s) c
             \<lparr>rd_Group = None, rd_Streams = [rs_stream s, startID_var cur],
              rd_Count = redis_maxInFlight (rs_options s), rd_Block = blockTimeout (rs_options s)\<rparr>))"

definition receive_turn ::
  "'e dispatch_fn \<Rightarrow> 'e redis_subscriber \<Rightarrow> ctx \<Rightarrow> string \<Rightarrow> cursor \<Rightarrow> ('e, turn_end) act"
where
  "receive_turn dispatch s c consumer cur w =
     (if is_done w c then (Ret (Return None), w)
      else andThen (if consumerGroup (rs_options s) \<noteq> [] then claim_pending dispatch s c consumer cur
                    else (\<lambda>w. (Ret (Inr cur), w))) (\<lambda>claimed. case claimed of
             Inl e \<Rightarrow> (\<lambda>w. (Ret (Return (Some e)), w))
           | Inr cur \<Rightarrow>
               andThen (read_new s c consumer cur) (\<lambda>streams. case streams of
                 Inl e \<Rightarrow> (\<lambda>w. (Ret (if errors_Is e redis_Nil then Continue cur else Return (Some e)), w))
               | Inr streams \<Rightarrow>
                   andThen (dispatch_entries dispatch s c (concat (map snd streams)) (startID_var cur))
                     (\<lambda>start w. (Ret (Continue (cur\<lparr>startID_var := start\<rparr>)), w)))) w)"

text \<open>\<open>None\<close> is a loop that has not returned when the fuel is used up.\<close>

fun receive_loop ::
  "nat \<Rightarrow> 'e dispatch_fn \<Rightarrow> 'e redis_subscriber \<Rightarrow> ctx \<Rightarrow> string \<Rightarrow> cursor \<Rightarrow> ('e, gerr option option) act"
where
  "receive_loop 0 dispatch s c consumer cur w = (Ret None, w)"
| "receive_loop (Suc fuel) dispatch s c consumer cur w =
     andThen (receive_turn dispatch s c consumer cur) (\<lambda>t. case t of
       Return r \<Rightarrow> (\<lambda>w. (Ret (Some r), w))
     | Continue cur \<Rightarrow> receive_loop fuel dispatch s c consumer cur) w"

definition redis_receive ::
  "nat \<Rightarrow> 'e dispatch_fn \<Rightarrow> 'e redis_subscriber \<Rightarrow> ctx \<Rightarrow> string \<Rightarrow> ('e, gerr option option) act"
where
  "redis_receive fuel dispatch s c consumer =
     andThen (resolveStartID s c) (\<lambda>start. case start of
       Inl e \<Rightarrow> (\<lambda>w. (Ret (Some (Some e)), w))
     | Inr start \<Rightarrow> receive_loop fuel dispatch s c consumer \<lparr>claimStart = ''0-0'', startID_var = start\<rparr>)"

definition redis_dispatcher ::
  "'e redis_subscriber \<Rightarrow> (addr \<Rightarrow> ('e, gerr option) act) \<Rightarrow> 'e dispatcher"
where
  "redis_dispatcher s handler =
     NewDispatcher handler
       \<lparr>MaxInFlight = redis_maxInFlight (rs_options s), ProcessingTimeout = sint (rs_processingTimeout s),
        OnAckError = redis_onAckError (rs_options s), OnNackError = None\<rparr>"

text \<open>\<open>Receive\<close>, with the dispatcher's \<open>Dispatch\<close> and \<open>Wait\<close> and the generated consumer name.\<close>

definition Redis_Receive ::
  "nat \<Rightarrow> ('e dispatcher \<Rightarrow> 'e dispatch_fn) \<Rightarrow> ('e dispatcher \<Rightarrow> ('e, unit) act) \<Rightarrow> string
     \<Rightarrow> 'e redis_subscriber \<Rightarrow> ctx \<Rightarrow> (addr \<Rightarrow> ('e, gerr option) act) \<Rightarrow> ('e, gerr option option) act"
where
  "Redis_Receive fuel dispatch wait consumer s c handler =
     andThen (createConsumerGroup s c) (\<lambda>err. case err of
       Some e \<Rightarrow> (\<lambda>w. (Ret (Some (Some e)), w))
     | None \<Rightarrow>
         (let d = redis_dispatcher s handler
          in andThen (redis_receive fuel (dispatch d) s c consumer) (\<lambda>r. case r of
               None \<Rightarrow> (\<lambda>w. (Ret None, w))
             | Some err \<Rightarrow> andThen (wait d) (\<lambda>_ w. (Ret (Some (if is_done w c then None else err)), w)))))"

section \<open>The processing timeout\<close>

text \<open>In consumer group mode, the constructor only accepts a processing timeout strictly between zero
  and the idle timeout after which another consumer may claim the message, also when the default
  (80 percent of the idle timeout) overflows 64 bits. Left to its default, it accepts every idle
  timeout from 2 ns up to \<open>2^61 - 1\<close> ns, and takes 80 percent of it, rounded down.\<close>

theorem redis_processing_timeout_bounds:
  "(NewRedisSubscriber txt (Some c) stream opts = Inr s \<and> consumerGroup (rs_options s) \<noteq> [] \<longrightarrow>
      0 < sint (rs_processingTimeout s) \<and> sint (rs_processingTimeout s) < sint (pendingMessageIdleTimeout (rs_options s)))
   \<and> (2 \<le> sint idle \<and> sint idle < 2 ^ 61 \<longrightarrow>
      (\<exists>t. NewRedisSubscriber txt (Some c) stream [WithConsumerGroup g, WithPendingMessageIdleTimeout idle] = Inr t
         \<and> sint (rs_processingTimeout t) = sint idle * 4 div 5))"
proof -
  have "0 < sint (rs_processingTimeout s) \<and> sint (rs_processingTimeout s) < sint (pendingMessageIdleTimeout (rs_options s))"
    if "NewRedisSubscriber txt (Some c) stream opts = Inr s" "consumerGroup (rs_options s) \<noteq> []"
    using that by (auto simp: NewRedisSubscriber_def Let_def split: if_splits)
  moreover have "sint (word_of_int (trunc_div (sint (idle * 4)) 5) :: 64 word) = sint idle * 4 div 5"
    if bounds: "2 \<le> sint idle" "sint idle < 2 ^ 61"
  proof -
    have "sint (idle * 4) = sint idle * 4"
      using bounds by (simp add: sint_word_ariths signed_take_bit_int_eq_self)
    moreover have "trunc_div (sint idle * 4) 5 = sint idle * 4 div 5"
      using bounds by (simp add: trunc_div_def)
    moreover have "sint (word_of_int (sint idle * 4 div 5) :: 64 word) = sint idle * 4 div 5"
      using bounds by (simp add: sint_sbintrunc' signed_take_bit_int_eq_self)
    ultimately show ?thesis by simp
  qed
  ultimately show ?thesis
    by (auto simp: NewRedisSubscriber_def WithConsumerGroup_def WithPendingMessageIdleTimeout_def
        default_redis_options_def Let_def)
qed

text \<open>
  The entries that follow an ID in a stream. \<open>place\<close> is the order of IDs; an incomplete ID such as \<open>0\<close>,
  which is where a read from the beginning starts, has a place like any other.
\<close>

definition entries_after :: "(string \<Rightarrow> nat) \<Rightarrow> string \<Rightarrow> entry list \<Rightarrow> entry list" where
  "entries_after place i es = filter (\<lambda>x. place i < place (fst x)) es"

definition demo_place :: "string \<Rightarrow> nat" where
  "demo_place i = (if i = ''1-0'' then 1 else if i = ''2-0'' then 2 else 0)"

text \<open>A client that logs its acks, for the witnesses, and the stream of another.\<close>

definition demo_stream :: "entry list" where
  "demo_stream = [(''1-0'', None), (''2-0'', None)]"

definition demo_reader :: "string list redis_reader" where
  "demo_reader =
     \<lparr>XGroupCreateMkStream = (\<lambda>c s g i e. (None, e)), XGroupCreate = (\<lambda>c s g i e. (None, e)),
      XAutoClaim = (\<lambda>c a e. (([], ''0-0'', None), e)), XReadGroup = (\<lambda>c a e. (Inl redis_Nil, e)),
      XRead = (\<lambda>c a e. (Inl redis_Nil, e)),
      XInfoStream_LastGeneratedID = (\<lambda>c s e. (Inr ''2-0'', e)),
      XAck = (\<lambda>c s g i e. (None, e @ [i])), err_Error = (\<lambda>e. [])\<rparr>"

theorem redis_processing_timeout_bounds_witness:
  "\<exists>t. NewRedisSubscriber (\<lambda>t i. []) (Some demo_reader) ''s''
         [WithConsumerGroup ''g'', WithPendingMessageIdleTimeout 100] = Inr t
     \<and> sint (rs_processingTimeout t) = 80"
proof -
  have "sint (100 :: 64 word) = 100" by simp
  with redis_processing_timeout_bounds [of "\<lambda>t i. []" demo_reader "''s''" _ _ "100" "''g''"]
  show ?thesis by auto
qed

section \<open>Acknowledgement\<close>

interpretation redis_entry: delivery_contract "redis_delivery_of s wrapper m"
  "\<lambda>c e. snd (redis_ack s wrapper c e)" "\<lambda>c e. e" for s wrapper m
  by unfold_locales (auto simp: redis_delivery_of_def on_env_def split: prod.split)

lemma redis_delivery_cases:
  "redis_delivery s c msg w = (Ret d, w') \<Longrightarrow> \<exists>m. d = redis_delivery_of s (redis_wrapper s msg) m"
  by (auto simp: redis_delivery_def andThen_def split: prod.splits res.splits)

text \<open>C30: A message received from Redis is acknowledged with one XACK of its own ID, on the subscriber's
  stream and group and with a context that nothing cancels, exactly if the handler returned nil. A
  failed or panicking handler leaves the entry pending for the next claim, and without a consumer
  group nothing is sent to Redis at all.\<close>

theorem redis_message_settled:
  assumes "redis_delivery s c msg w0 = (Ret d, w)"
    and "quiet (redis_onAckError (rs_options s))"
    and "handle_prepare (redis_dispatcher s h) d w = ((ackCtx, fin), w1)"
    and "h (dl_Message d) w1 = (r, w2)"
  shows "(\<forall>t ts. \<not> ctx_done t ts ackCtx)
    \<and> (\<exists>w'. Handle (redis_dispatcher s h) d w = ((case r of Ret _ \<Rightarrow> Ret () | Panic q \<Rightarrow> Panic q), w')
        \<and> env w' = (if r = Ret None \<and> consumerGroup (rs_options s) \<noteq> []
                    then snd (XAck (rs_client s) ackCtx (rs_stream s) (consumerGroup (rs_options s)) (xm_ID msg) (env w2))
                    else env w2))"
proof -
  obtain m where d: "d = redis_delivery_of s (redis_wrapper s msg) m"
    using redis_delivery_cases [OF assms(1)] by blast
  have calm: "quiet (OnAckError (d_opts (redis_dispatcher s h)))" "quiet (OnNackError (d_opts (redis_dispatcher s h)))"
    "d_handler (redis_dispatcher s h) = h"
    using assms(2) by (simp_all add: redis_dispatcher_def NewDispatcher_def quiet_def)
  have "ackCtx = WithoutCancel (Context w (dl_Message d))"
    using assms(3) by (auto simp: handle_prepare_def Let_def WithTimeout_def split: if_splits)
  then have "\<forall>t ts. \<not> ctx_done t ts ackCtx" by simp
  moreover obtain w' where "Handle (redis_dispatcher s h) d w = ((case r of Ret _ \<Rightarrow> Ret () | Panic q \<Rightarrow> Panic q), w')"
    "env w' = (if r = Ret None then snd (redis_ack s (redis_wrapper s msg) ackCtx (env w2)) else env w2)"
    using redis_entry.handled_once [of "redis_dispatcher s h" s "redis_wrapper s msg" m, OF calm(1,2)]
      assms(3,4) unfolding d calm(3) by blast
  ultimately show ?thesis by (auto simp: redis_ack_def redis_wrapper_def)
qed

definition demo_redis :: "string \<Rightarrow> string list redis_subscriber" where
  "demo_redis g = \<lparr>rs_client = demo_reader, rs_stream = ''s'', rs_options = default_redis_options\<lparr>consumerGroup := g\<rparr>,
                   rs_processingTimeout = 80\<rparr>"

lemmas demo_redis_defs = demo_redis_def demo_reader_def default_redis_options_def

lemma redis_delivery_default:
  assumes "metadataExtractor (rs_options s) = None" "payloadExtractor (rs_options s) = None"
  shows "\<exists>w'. redis_delivery s c msg w = (Ret (redis_delivery_of s (redis_wrapper s msg) (length (heap_msgs w))), w')
    \<and> get_msg w' (length (heap_msgs w)) = \<lparr>ID = xm_ID msg, Metadata = Some (length (heap_maps w)),
        Payload = map_payload (xm_Values msg), msg_ctx = c\<rparr>
    \<and> env w' = env w \<and> clock w' = clock w \<and> cancelled w' = cancelled w"
  by (simp add: redis_delivery_def redis_toMessage_def assms andThen_def message_defs world_defs
      redis_wrapper_def Let_def)

theorem redis_message_settled_witness:
  "\<exists>d w1 w'. redis_delivery (demo_redis ''g'') Background \<lparr>xm_ID = ''7-0'', xm_Values = None\<rparr> (start_world []) = (Ret d, w1)
     \<and> Handle (redis_dispatcher (demo_redis ''g'') (\<lambda>m w. (Ret None, w))) d w1 = (Ret (), w')
     \<and> env w' = [''7-0'']"
proof -
  let ?s = "demo_redis ''g''" and ?m = "\<lparr>xm_ID = ''7-0'', xm_Values = None\<rparr>"
  obtain d w1 where d: "redis_delivery ?s Background ?m (start_world []) = (Ret d, w1)" and e: "env w1 = []"
    using redis_delivery_default [of ?s Background ?m "start_world []"]
    by (auto simp: demo_redis_defs start_world_def)
  obtain a fin w2 where prep: "handle_prepare (redis_dispatcher ?s (\<lambda>m w. (Ret None, w))) d w1 = ((a, fin), w2)"
    by (metis prod.exhaust)
  have quiet: "quiet (redis_onAckError (rs_options ?s))" by (simp add: demo_redis_defs quiet_def)
  from redis_message_settled [OF d quiet prep, of "Ret None" w2] handle_prepare_frame(1) [OF prep] e
  show ?thesis using d by (auto simp: demo_redis_defs)
qed

section \<open>The cursor of a subscriber without a group\<close>

text \<open>
  What the loop relies on. Every entry of a stream has an ID above \<open>0-0\<close>, entries are only added, at
  the end and with larger IDs. An XREAD of the subscriber's \<open>stream\<close> from an ID that names a place
  answers with the first of the entries that follow it, in order; \<open>$\<close> names none. XINFO STREAM of that
  stream answers with the ID of its last entry, with \<open>0-0\<close> for an empty one, and with the error \<open>no
  such key\<close> only if there is no stream. \<open>Dispatch\<close> returns. \<open>strm\<close> is the stream as the environment
  holds it, \<open>answered\<close> the IDs XREAD has answered with and \<open>seen\<close> those dispatched so far.
\<close>

definition ordered :: "(string \<Rightarrow> nat) \<Rightarrow> entry list \<Rightarrow> bool" where
  "ordered place es \<longleftrightarrow> sorted_wrt (\<lambda>x y. place (fst x) < place (fst y)) es
     \<and> (\<forall>x \<in> set es. 0 < place (fst x) \<and> fst x \<noteq> StartFromLatest)"

definition grows :: "(string \<Rightarrow> nat) \<Rightarrow> entry list \<Rightarrow> entry list \<Rightarrow> bool" where
  "grows place es fs \<longleftrightarrow> prefix es fs \<and> (ordered place es \<longrightarrow> ordered place fs)"

definition append_only_stream ::
  "'e dispatch_fn \<Rightarrow> 'e redis_reader \<Rightarrow> string \<Rightarrow> (string \<Rightarrow> nat) \<Rightarrow> ('e \<Rightarrow> entry list) \<Rightarrow> ('e \<Rightarrow> string list)
     \<Rightarrow> ('e \<Rightarrow> string list) \<Rightarrow> bool"
where
  "append_only_stream dispatch reader stream place strm answered seen \<longleftrightarrow>
     (\<forall>c d w. \<exists>w'. dispatch c d w = (Ret (), w') \<and> seen (env w') = seen (env w) @ [ID (get_msg w (dl_Message d))]
        \<and> answered (env w') = answered (env w) \<and> grows place (strm (env w)) (strm (env w')))
   \<and> (\<forall>c i n b e r e'. XRead reader c \<lparr>rd_Group = None, rd_Streams = [stream, i], rd_Count = n, rd_Block = b\<rparr> e = (r, e') \<longrightarrow>
        seen e' = seen e \<and> grows place (strm e) (strm e')
      \<and> answered e' = answered e @ (case r of Inl _ \<Rightarrow> [] | Inr x \<Rightarrow> map fst (concat (map snd x)))
      \<and> (\<forall>x. r = Inr x \<longrightarrow> i \<noteq> StartFromLatest \<longrightarrow> (\<exists>k. concat (map snd x) = take k (entries_after place i (strm e')))))
   \<and> (\<forall>c e r e'. XInfoStream_LastGeneratedID reader c stream e = (r, e') \<longrightarrow>
        seen e' = seen e \<and> answered e' = answered e \<and> grows place (strm e) (strm e')
      \<and> (case r of Inr i \<Rightarrow> i = (if strm e' = [] then ''0-0'' else fst (last (strm e')))
         | Inl err \<Rightarrow> Contains (err_Error reader err) ''no such key'' \<longrightarrow> strm e' = []))
   \<and> place ''0'' = 0 \<and> place ''0-0'' = 0"

lemma append_only_laws:
  assumes "append_only_stream dispatch reader stream place strm answered seen"
  shows "\<exists>w'. dispatch c d w = (Ret (), w') \<and> seen (env w') = seen (env w) @ [ID (get_msg w (dl_Message d))]
        \<and> answered (env w') = answered (env w) \<and> grows place (strm (env w)) (strm (env w'))"
    and "XRead reader c \<lparr>rd_Group = None, rd_Streams = [stream, i], rd_Count = n, rd_Block = b\<rparr> e = (r, e') \<Longrightarrow>
        seen e' = seen e \<and> grows place (strm e) (strm e')
      \<and> answered e' = answered e @ (case r of Inl _ \<Rightarrow> [] | Inr x \<Rightarrow> map fst (concat (map snd x)))
      \<and> (\<forall>x. r = Inr x \<longrightarrow> i \<noteq> StartFromLatest \<longrightarrow> (\<exists>k. concat (map snd x) = take k (entries_after place i (strm e'))))"
    and "XInfoStream_LastGeneratedID reader c stream e = (q, e') \<Longrightarrow>
        seen e' = seen e \<and> answered e' = answered e \<and> grows place (strm e) (strm e')
      \<and> (case q of Inr i \<Rightarrow> i = (if strm e' = [] then ''0-0'' else fst (last (strm e')))
         | Inl err \<Rightarrow> Contains (err_Error reader err) ''no such key'' \<longrightarrow> strm e' = [])"
    and "place ''0'' = 0" "place ''0-0'' = 0"
proof -
  note laws = assms [unfolded append_only_stream_def]
  show "\<exists>w'. dispatch c d w = (Ret (), w') \<and> seen (env w') = seen (env w) @ [ID (get_msg w (dl_Message d))]
        \<and> answered (env w') = answered (env w) \<and> grows place (strm (env w)) (strm (env w'))"
    by (rule laws [THEN conjunct1, rule_format])
  show "XRead reader c \<lparr>rd_Group = None, rd_Streams = [stream, i], rd_Count = n, rd_Block = b\<rparr> e = (r, e') \<Longrightarrow>
        seen e' = seen e \<and> grows place (strm e) (strm e')
      \<and> answered e' = answered e @ (case r of Inl _ \<Rightarrow> [] | Inr x \<Rightarrow> map fst (concat (map snd x)))
      \<and> (\<forall>x. r = Inr x \<longrightarrow> i \<noteq> StartFromLatest \<longrightarrow> (\<exists>k. concat (map snd x) = take k (entries_after place i (strm e'))))"
    by (rule laws [THEN conjunct2, THEN conjunct1, THEN spec, THEN spec, THEN spec, THEN spec, THEN spec, THEN spec, THEN spec, THEN mp])
  show "XInfoStream_LastGeneratedID reader c stream e = (q, e') \<Longrightarrow>
        seen e' = seen e \<and> answered e' = answered e \<and> grows place (strm e) (strm e')
      \<and> (case q of Inr i \<Rightarrow> i = (if strm e' = [] then ''0-0'' else fst (last (strm e')))
         | Inl err \<Rightarrow> Contains (err_Error reader err) ''no such key'' \<longrightarrow> strm e' = [])"
    by (rule laws [THEN conjunct2, THEN conjunct2, THEN conjunct1, THEN spec, THEN spec, THEN spec, THEN spec, THEN mp])
  show "place ''0'' = 0" "place ''0-0'' = 0" using laws by simp_all
qed

text \<open>
  A read position \<open>i\<close>, \<open>k\<close> entries after the place \<open>a\<close>: what follows \<open>i\<close> is what follows \<open>a\<close> without its
  first \<open>k\<close> entries.
\<close>

definition read_to :: "(string \<Rightarrow> nat) \<Rightarrow> nat \<Rightarrow> entry list \<Rightarrow> nat \<Rightarrow> string \<Rightarrow> bool" where
  "read_to place a es k i \<longleftrightarrow>
     (let fs = filter (\<lambda>x. a < place (fst x)) es
      in k \<le> length fs \<and> place i = (if k = 0 then a else place (fst (fs ! (k - 1)))) \<and> i \<noteq> StartFromLatest)"

lemma grows_filter:
  assumes "grows place es fs"
  obtains gs where "filter (\<lambda>x. a < place (fst x)) fs = filter (\<lambda>x. a < place (fst x)) es @ gs"
  using assms by (auto simp: grows_def elim!: prefixE)

lemma grows_trans: "grows place es fs \<Longrightarrow> grows place fs gs \<Longrightarrow> grows place es gs"
  by (auto simp: grows_def intro: prefix_order.trans)

lemma read_to_grows: "read_to place a es k i \<Longrightarrow> grows place es fs \<Longrightarrow> read_to place a fs k i"
  by (erule grows_filter [of place es fs a]) (auto simp: read_to_def Let_def nth_append)

lemma entries_after_read:
  assumes "read_to place a es k i" "ordered place es"
  shows "entries_after place i es = drop k (filter (\<lambda>x. a < place (fst x)) es)"
proof -
  define fs where "fs = filter (\<lambda>x. a < place (fst x)) es"
  have fs: "sorted_wrt (\<lambda>x y. place (fst x) < place (fst y)) fs" "\<And>x. x \<in> set fs \<Longrightarrow> a < place (fst x)"
    using assms(2) by (auto simp: fs_def ordered_def intro: sorted_wrt_filter)
  have at: "k \<le> length fs" "place i = (if k = 0 then a else place (fst (fs ! (k - 1))))"
    using assms(1) by (simp_all add: read_to_def fs_def Let_def)
  have "a \<le> place i" using at fs(2) by (cases k) (auto simp: less_imp_le)
  then have "entries_after place i es = filter (\<lambda>x. place i < place (fst x)) fs"
    unfolding fs_def entries_after_def by (auto intro!: filter_cong)
  also have "\<dots> = filter (\<lambda>x. place i < place (fst x)) (take k fs) @ filter (\<lambda>x. place i < place (fst x)) (drop k fs)"
    unfolding filter_append [symmetric] by simp
  also have "filter (\<lambda>x. place i < place (fst x)) (take k fs) = []"
  proof -
    have "\<not> place i < place (fst x)" if "x \<in> set (take k fs)" for x
    proof -
      from that at(1) obtain q where q: "q < k" "x = fs ! q" by (auto simp: in_set_conv_nth)
      with fs(1) at show ?thesis by (cases "q = k - 1") (auto simp: sorted_wrt_iff_nth_less not_less intro: less_imp_le)
    qed
    then show ?thesis by (simp add: filter_empty_conv)
  qed
  also have "filter (\<lambda>x. place i < place (fst x)) (drop k fs) = drop k fs"
  proof -
    have "place i < place (fst x)" if "x \<in> set (drop k fs)" for x
    proof -
      from that obtain q where q: "k + q < length fs" "x = fs ! (k + q)"
        by (fastforce simp: in_set_conv_nth less_diff_conv add.commute)
      with fs at show ?thesis by (cases k) (auto simp: sorted_wrt_iff_nth_less)
    qed
    then show ?thesis by simp
  qed
  finally show ?thesis by (simp add: fs_def)
qed

text \<open>Reading on from a position moves it past the entries read.\<close>

lemma read_to_next:
  assumes "read_to place a es k i" "ordered place es" "block = take n (entries_after place i es)"
  shows "read_to place a es (k + length block) (last (i # map fst block))"
    and "block = take (length block) (drop k (filter (\<lambda>x. a < place (fst x)) es))"
proof -
  define fs where "fs = filter (\<lambda>x. a < place (fst x)) es"
  have b: "block = take n (drop k fs)" using assms(3) entries_after_read [OF assms(1,2)] by (simp add: fs_def)
  then show "block = take (length block) (drop k (filter (\<lambda>x. a < place (fst x)) es))"
    by (simp add: fs_def [symmetric] min_def)
  have k: "k + length block \<le> length fs" using b assms(1) by (auto simp: read_to_def fs_def Let_def)
  show "read_to place a es (k + length block) (last (i # map fst block))"
  proof (cases "block = []")
    case True
    with assms(1) show ?thesis by simp
  next
    case False
    then have "last block = block ! (length block - 1)" "length block - 1 < length block" by (simp_all add: last_conv_nth)
    moreover have "block ! q = fs ! (k + q)" if "q < length block" for q
      using that b k by simp
    ultimately have "last block = fs ! (k + length block - 1)" using False by (cases block) auto
    moreover have "k + length block - 1 < length fs" using k False by (cases block) auto
    then have "fs ! (k + length block - 1) \<in> set es" unfolding fs_def by (meson filter_is_subset nth_mem subsetD)
    with assms(2) have "fst (fs ! (k + length block - 1)) \<noteq> StartFromLatest" by (auto simp: ordered_def)
    ultimately show ?thesis using False k by (simp add: read_to_def fs_def [symmetric] last_map)
  qed
qed

lemma new_x_message_env:
  assumes "new_x_message e w = (msg, w1)"
  shows "xm_ID msg = fst e" "env w1 = env w"
  using assms by (auto simp: new_x_message_def new_map_def Let_def split: option.splits)

lemma dispatch_entries_seen:
  assumes "append_only_stream dispatch (rs_client s) stream place strm answered seen"
    and "metadataExtractor (rs_options s) = None" "payloadExtractor (rs_options s) = None"
  shows "\<exists>w'. dispatch_entries dispatch s c es start w = (Ret (last (start # map fst es)), w')
    \<and> seen (env w') = seen (env w) @ map fst es \<and> answered (env w') = answered (env w)
    \<and> grows place (strm (env w)) (strm (env w'))"
proof (induction es arbitrary: start w)
  case (Cons e es)
  obtain msg w1 where msg: "new_x_message e w = (msg, w1)" by fastforce
  obtain d w2 where d: "redis_delivery s c msg w1 = (Ret d, w2)" "ID (get_msg w2 (dl_Message d)) = fst e" "env w2 = env w1"
    using redis_delivery_default [OF assms(2,3), of c msg w1] new_x_message_env(1) [OF msg]
    by (auto simp: redis_delivery_of_def)
  obtain w3 where w3: "dispatch c d w2 = (Ret (), w3)" "seen (env w3) = seen (env w2) @ [ID (get_msg w2 (dl_Message d))]"
    "answered (env w3) = answered (env w2)" "grows place (strm (env w2)) (strm (env w3))"
    using append_only_laws(1) [OF assms(1), of c d w2] by blast
  obtain w4 where w4: "dispatch_entries dispatch s c es (fst e) w3 = (Ret (last (fst e # map fst es)), w4)"
    "seen (env w4) = seen (env w3) @ map fst es" "answered (env w4) = answered (env w3)" "grows place (strm (env w3)) (strm (env w4))"
    using Cons.IH [of "fst e" w3] by blast
  have "dispatch_entries dispatch s c (e # es) start w = (Ret (last (start # map fst (e # es))), w4)"
    using msg d w3(1) w4(1) new_x_message_env(1) [OF msg] by (simp add: andThen_def)
  moreover have "grows place (strm (env w)) (strm (env w4))"
    using grows_trans [OF w3(4) w4(4)] d(3) new_x_message_env(2) [OF msg] by simp
  ultimately show ?case using w3(2,3) w4(2,3) d(2,3) new_x_message_env(2) [OF msg] by simp
qed (simp add: grows_def)

lemma receive_turn_seen:
  assumes ok: "append_only_stream dispatch (rs_client s) (rs_stream s) place strm answered seen"
    and plain: "metadataExtractor (rs_options s) = None" "payloadExtractor (rs_options s) = None"
      "consumerGroup (rs_options s) = []"
    and at: "read_to place a (strm (env w)) k (startID_var cur)" "ordered place (strm (env w))"
  shows "\<exists>t w' n. receive_turn dispatch s c consumer cur w = (Ret t, w') \<and> grows place (strm (env w)) (strm (env w'))
    \<and> seen (env w') = seen (env w) @ map fst (take n (drop k (filter (\<lambda>x. a < place (fst x)) (strm (env w')))))
    \<and> answered (env w') = answered (env w) @ map fst (take n (drop k (filter (\<lambda>x. a < place (fst x)) (strm (env w')))))
    \<and> k + n \<le> length (filter (\<lambda>x. a < place (fst x)) (strm (env w')))
    \<and> (\<forall>cur'. t = Continue cur' \<longrightarrow> read_to place a (strm (env w')) (k + n) (startID_var cur'))"
proof -
  let ?F = "filter (\<lambda>x. a < place (fst x))"
  let ?rd = "\<lparr>rd_Group = None, rd_Streams = [rs_stream s, startID_var cur],
              rd_Count = redis_maxInFlight (rs_options s), rd_Block = blockTimeout (rs_options s)\<rparr>"
  obtain r e1 where rd: "XRead (rs_client s) c ?rd (env w) = (r, e1)" by fastforce
  have latest: "startID_var cur \<noteq> StartFromLatest" using at(1) by (simp add: read_to_def Let_def)
  from append_only_laws(2) [OF ok rd] latest have e1: "seen e1 = seen (env w)" "grows place (strm (env w)) (strm e1)"
    "answered e1 = answered (env w) @ (case r of Inl _ \<Rightarrow> [] | Inr x \<Rightarrow> map fst (concat (map snd x)))"
    "\<And>x. r = Inr x \<Longrightarrow> \<exists>n. concat (map snd x) = take n (entries_after place (startID_var cur) (strm e1))"
    by blast+
  have at1: "read_to place a (strm e1) k (startID_var cur)" "ordered place (strm e1)"
    using at read_to_grows [OF at(1) e1(2)] e1(2) by (simp_all add: grows_def)
  have quiet: "\<exists>n. seen e = seen (env w) @ map fst (take n (drop k (?F (strm e))))
      \<and> answered e = answered (env w) @ map fst (take n (drop k (?F (strm e)))) \<and> k + n \<le> length (?F (strm e))
      \<and> read_to place a (strm e) (k + n) (startID_var cur)"
    if "seen e = seen (env w)" "answered e = answered (env w)" "read_to place a (strm e) k (startID_var cur)" for e
    using that by (intro exI [of _ 0]) (simp add: read_to_def Let_def)
  show ?thesis
  proof (cases "is_done w c")
    case True
    then have "receive_turn dispatch s c consumer cur w = (Ret (Return None), w)" by (simp add: receive_turn_def)
    with quiet [of "env w"] at(1) show ?thesis by (auto simp: grows_def)
  next
    case False
    show ?thesis
    proof (cases r)
      case (Inl err)
      with False plain(3) rd have "receive_turn dispatch s c consumer cur w
          = (Ret (if errors_Is err redis_Nil then Continue cur else Return (Some err)), w\<lparr>env := e1\<rparr>)"
        by (simp add: receive_turn_def andThen_def read_new_def on_env_def)
      with quiet [OF e1(1) _ at1(1)] e1(2,3) Inl show ?thesis by auto
    next
      case (Inr x)
      define block where "block = concat (map snd x)"
      obtain n where n: "block = take n (entries_after place (startID_var cur) (strm e1))"
        using e1(4) [OF Inr] by (auto simp: block_def)
      note next_read = read_to_next [OF at1 n]
      obtain w2 where w2: "dispatch_entries dispatch s c block (startID_var cur) (w\<lparr>env := e1\<rparr>)
          = (Ret (last (startID_var cur # map fst block)), w2)"
        "seen (env w2) = seen e1 @ map fst block" "grows place (strm e1) (strm (env w2))" "answered (env w2) = answered e1"
        using dispatch_entries_seen [OF ok plain(1,2), of c block "startID_var cur" "w\<lparr>env := e1\<rparr>"] by auto
      with False plain(3) rd Inr have run: "receive_turn dispatch s c consumer cur w
          = (Ret (Continue (cur\<lparr>startID_var := last (startID_var cur # map fst block)\<rparr>)), w2)"
        by (simp add: receive_turn_def andThen_def read_new_def on_env_def block_def)
      have at2: "read_to place a (strm (env w2)) (k + length block) (last (startID_var cur # map fst block))"
        by (rule read_to_grows [OF next_read(1) w2(3)])
      obtain gs where gs: "?F (strm (env w2)) = ?F (strm e1) @ gs" using grows_filter [OF w2(3)] by blast
      have "k + length block \<le> length (?F (strm e1))" using next_read(1) by (simp add: read_to_def Let_def)
      with next_read(2) gs have same: "take (length block) (drop k (?F (strm (env w2)))) = block" by simp
      have "k + length block \<le> length (?F (strm (env w2)))" using at2 by (simp add: read_to_def Let_def)
      moreover have "answered (env w2) = answered (env w) @ map fst block" using w2(4) e1(3) Inr by (simp add: block_def)
      ultimately show ?thesis using run at2 w2(2) e1(1) same grows_trans [OF e1(2) w2(3)]
        by (intro exI [of _ "Continue (cur\<lparr>startID_var := last (startID_var cur # map fst block)\<rparr>)"]
            exI [of _ w2] exI [of _ "length block"]) simp
    qed
  qed
qed

lemma receive_loop_seen:
  assumes "append_only_stream dispatch (rs_client s) (rs_stream s) place strm answered seen"
    and "metadataExtractor (rs_options s) = None" "payloadExtractor (rs_options s) = None"
      "consumerGroup (rs_options s) = []"
    and "read_to place a (strm (env w)) k (startID_var cur)" "ordered place (strm (env w))"
  shows "\<exists>r w' n. receive_loop fuel dispatch s c consumer cur w = (Ret r, w') \<and> grows place (strm (env w)) (strm (env w'))
    \<and> seen (env w') = seen (env w) @ map fst (take n (drop k (filter (\<lambda>x. a < place (fst x)) (strm (env w')))))
    \<and> answered (env w') = answered (env w) @ map fst (take n (drop k (filter (\<lambda>x. a < place (fst x)) (strm (env w')))))"
  using assms(5,6)
proof (induction fuel arbitrary: cur w k)
  case 0
  then show ?case by (auto simp: grows_def intro!: exI [of _ 0])
next
  case (Suc fuel)
  let ?F = "filter (\<lambda>x. a < place (fst x))"
  obtain t w1 n where turn: "receive_turn dispatch s c consumer cur w = (Ret t, w1)" "grows place (strm (env w)) (strm (env w1))"
    "seen (env w1) = seen (env w) @ map fst (take n (drop k (?F (strm (env w1)))))" "k + n \<le> length (?F (strm (env w1)))"
    "answered (env w1) = answered (env w) @ map fst (take n (drop k (?F (strm (env w1)))))"
    "\<And>cur'. t = Continue cur' \<Longrightarrow> read_to place a (strm (env w1)) (k + n) (startID_var cur')"
    using receive_turn_seen [OF assms(1-4) Suc.prems] by blast
  have ord: "ordered place (strm (env w1))" using turn(2) Suc.prems(2) by (simp add: grows_def)
  show ?case
  proof (cases t)
    case (Return r)
    with turn(1-3,5) show ?thesis by (intro exI [of _ "Some r"] exI [of _ w1] exI [of _ n]) (simp add: andThen_def)
  next
    case (Continue cur')
    obtain r w' j where j: "receive_loop fuel dispatch s c consumer cur' w1 = (Ret r, w')" "grows place (strm (env w1)) (strm (env w'))"
      "seen (env w') = seen (env w1) @ map fst (take j (drop (k + n) (?F (strm (env w')))))"
      "answered (env w') = answered (env w1) @ map fst (take j (drop (k + n) (?F (strm (env w')))))"
      using Suc.IH [OF turn(6) [OF Continue] ord] by blast
    obtain gs where "?F (strm (env w')) = ?F (strm (env w1)) @ gs" using grows_filter [OF j(2)] by blast
    with turn(4) have "take n (drop k (?F (strm (env w1)))) = take n (drop k (?F (strm (env w'))))" by simp
    with turn(3,5) j(3,4) have "seen (env w') = seen (env w) @ map fst (take (n + j) (drop k (?F (strm (env w')))))"
      "answered (env w') = answered (env w) @ map fst (take (n + j) (drop k (?F (strm (env w')))))"
      by (simp_all add: take_add add.commute [of k n])
    with j(1) turn(1) Continue grows_trans [OF turn(2) j(2)] show ?thesis
      by (intro exI [of _ r] exI [of _ w'] exI [of _ "n + j"]) (simp add: andThen_def)
  qed
qed

text \<open>The position \<open>$\<close>: what is added after XINFO has answered.\<close>

lemma filter_after_last:
  assumes "ordered place es" "grows place es fs" "place ''0-0'' = 0"
  shows "filter (\<lambda>x. place (if es = [] then ''0-0'' else fst (last es)) < place (fst x)) fs = drop (length es) fs"
proof -
  obtain gs where fs: "fs = es @ gs" using assms(2) by (auto simp: grows_def elim: prefixE)
  have ord: "ordered place (es @ gs)" using assms(1,2) fs by (simp add: grows_def)
  show ?thesis
  proof (cases es rule: rev_cases)
    case Nil
    with ord fs assms(3) show ?thesis by (simp add: ordered_def)
  next
    case (snoc ds e)
    with ord fs show ?thesis
      by (auto simp: ordered_def sorted_wrt_append filter_empty_conv not_less intro: less_imp_le)
  qed
qed

text \<open>C5: Without a consumer group the loop misses no entry and repeats none: however many turns it
  makes, what it has dispatched is one unbroken run of its stream, in order, whatever is added to the
  stream meanwhile and whichever reads fail or time out. From an ID the run starts with the first
  entry after that ID; from the beginning it starts with the first entry of the stream; from the
  latest it starts with the first entry added after XINFO has answered. It is everything that XREAD
  answered with, so no answer is dropped either.\<close>

theorem redis_cursor_reads_in_order:
  assumes "append_only_stream dispatch (rs_client s) (rs_stream s) place strm answered seen"
    and "metadataExtractor (rs_options s) = None" "payloadExtractor (rs_options s) = None"
      "consumerGroup (rs_options s) = []"
    and "ordered place (strm (env w))"
    and "asked = snd (XInfoStream_LastGeneratedID (rs_client s) c (rs_stream s) (env w))"
  shows "\<exists>r w' n new. redis_receive fuel dispatch s c consumer w = (Ret r, w') \<and> prefix (strm (env w)) (strm (env w'))
    \<and> seen (env w') = seen (env w) @ new \<and> answered (env w') = answered (env w) @ new
    \<and> new = map fst (take n
        (if startID (rs_options s) = StartFromBeginning then strm (env w')
         else if startID (rs_options s) = StartFromLatest then drop (length (strm asked)) (strm (env w'))
         else entries_after place (startID (rs_options s)) (strm (env w'))))"
proof (cases "startID (rs_options s) = StartFromLatest")
  case False
  let ?i = "startID (rs_options s)" and ?cur = "\<lparr>claimStart = ''0-0'', startID_var = startID (rs_options s)\<rparr>"
  have zero: "place ''0'' = 0" by (rule append_only_laws(4) [OF assms(1)])
  have "read_to place (place ?i) (strm (env w)) 0 (startID_var ?cur)" using False by (simp add: read_to_def)
  from receive_loop_seen [OF assms(1-4) this assms(5), of fuel c consumer]
  obtain r w' n where run: "receive_loop fuel dispatch s c consumer ?cur w = (Ret r, w')" "grows place (strm (env w)) (strm (env w'))"
    "seen (env w') = seen (env w) @ map fst (take n (entries_after place ?i (strm (env w'))))"
    "answered (env w') = answered (env w) @ map fst (take n (entries_after place ?i (strm (env w'))))"
    unfolding entries_after_def drop_0 by blast
  have "\<forall>x \<in> set (strm (env w')). 0 < place (fst x)" using run(2) assms(5) unfolding grows_def ordered_def by blast
  then have all: "entries_after place StartFromBeginning (strm (env w')) = strm (env w')"
    unfolding entries_after_def StartFromBeginning_def zero by (rule filter_True)
  have from_start: "entries_after place ?i (strm (env w')) = (if ?i = StartFromBeginning then strm (env w')
      else if ?i = StartFromLatest then drop (length (strm asked)) (strm (env w')) else entries_after place ?i (strm (env w')))"
    unfolding if_not_P [OF False] using all by (cases "?i = StartFromBeginning") (simp_all only: if_True if_False refl)
  have "redis_receive fuel dispatch s c consumer w = (Ret r, w')"
    using run(1) False by (simp add: redis_receive_def resolveStartID_def andThen_def)
  moreover have "prefix (strm (env w)) (strm (env w'))" using run(2) by (simp add: grows_def)
  ultimately show ?thesis using run(3,4) arg_cong [OF from_start, of "\<lambda>es. map fst (take n es)"]
    by - (rule exI [of _ r], rule exI [of _ w'], rule exI [of _ n],
      rule exI [of _ "map fst (take n (entries_after place ?i (strm (env w'))))"], intro conjI)
next
  case True
  obtain q where info: "XInfoStream_LastGeneratedID (rs_client s) c (rs_stream s) (env w) = (q, asked)"
    using assms(6) by (metis prod.collapse)
  from append_only_laws(3) [OF assms(1) info] append_only_laws(5) [OF assms(1)] have asked: "seen asked = seen (env w)" "answered asked = answered (env w)" "grows place (strm (env w)) (strm asked)"
    and q: "case q of Inr i \<Rightarrow> i = (if strm asked = [] then ''0-0'' else fst (last (strm asked)))
      | Inl err \<Rightarrow> Contains (err_Error (rs_client s) err) ''no such key'' \<longrightarrow> strm asked = []"
    and zero: "place ''0-0'' = 0"
    by blast+
  have ord: "ordered place (strm asked)" using asked(3) assms(5) by (simp add: grows_def)
  have dollar: "StartFromLatest \<noteq> StartFromBeginning" by (simp add: StartFromLatest_def StartFromBeginning_def)
  define i where "i = (if strm asked = [] then ''0-0'' else fst (last (strm asked)))"
  consider (start) "resolveStartID s c w = (Ret (Inr i), w\<lparr>env := asked\<rparr>)"
    | (fail) e where "resolveStartID s c w = (Ret (Inl e), w\<lparr>env := asked\<rparr>)"
    using True assms(4) info q
    by (cases q; cases "Contains (err_Error (rs_client s) (projl q)) ''no such key''")
      (auto simp: resolveStartID_def andThen_def on_env_def i_def)
  then show ?thesis
  proof cases
    case start
    let ?cur = "\<lparr>claimStart = ''0-0'', startID_var = i\<rparr>" and ?w = "w\<lparr>env := asked\<rparr>"
    have "i \<noteq> StartFromLatest" using ord by (auto simp: i_def ordered_def StartFromLatest_def)
    then have "read_to place (place i) (strm (env ?w)) 0 (startID_var ?cur)" by (simp add: read_to_def)
    moreover have "ordered place (strm (env ?w))" using ord by simp
    ultimately obtain r w' n where loop: "receive_loop fuel dispatch s c consumer ?cur ?w = (Ret r, w')"
      "grows place (strm (env ?w)) (strm (env w'))"
      "seen (env w') = seen (env ?w) @ map fst (take n (filter (\<lambda>x. place i < place (fst x)) (strm (env w'))))"
      "answered (env w') = answered (env ?w) @ map fst (take n (filter (\<lambda>x. place i < place (fst x)) (strm (env w'))))"
      using receive_loop_seen [OF assms(1-4), of "place i" ?w 0 ?cur fuel c consumer] unfolding drop_0 by blast
    then have run: "receive_loop fuel dispatch s c consumer ?cur ?w = (Ret r, w')" "grows place (strm asked) (strm (env w'))"
      "seen (env w') = seen asked @ map fst (take n (filter (\<lambda>x. place i < place (fst x)) (strm (env w'))))"
      "answered (env w') = answered asked @ map fst (take n (filter (\<lambda>x. place i < place (fst x)) (strm (env w'))))"
      by simp_all
    moreover have "filter (\<lambda>x. place i < place (fst x)) (strm (env w')) = drop (length (strm asked)) (strm (env w'))"
      unfolding i_def by (rule filter_after_last [OF ord run(2) zero])
    ultimately show ?thesis using start asked True dollar grows_trans [OF asked(3) run(2)]
      by - (rule exI [of _ r], rule exI [of _ w'], rule exI [of _ n], rule exI, simp add: redis_receive_def andThen_def grows_def)
  next
    case fail
    with asked True show ?thesis
      by (intro exI [of _ "Some (Some e)"] exI [of _ "w\<lparr>env := asked\<rparr>"] exI [of _ 0] exI [of _ "[]"])
        (simp add: redis_receive_def andThen_def grows_def)
  qed
qed

text \<open>A client on a fixed stream that writes down its answers.\<close>

definition demo_source :: "(string list \<times> string list) redis_reader" where
  "demo_source =
     \<lparr>XGroupCreateMkStream = (\<lambda>c s g i e. (None, e)), XGroupCreate = (\<lambda>c s g i e. (None, e)),
      XAutoClaim = (\<lambda>c a e. (([], ''0-0'', None), e)), XReadGroup = (\<lambda>c a e. (Inl redis_Nil, e)),
      XRead = (\<lambda>c a (answered, seen). if rd_Streams a ! 0 = ''s''
        then (let es = entries_after demo_place (rd_Streams a ! 1) demo_stream in (Inr [(''s'', es)], answered @ map fst es, seen))
        else (Inl redis_Nil, answered, seen)),
      XInfoStream_LastGeneratedID = (\<lambda>c s e. (Inr ''2-0'', e)),
      XAck = (\<lambda>c s g i e. (None, e)), err_Error = (\<lambda>e. [])\<rparr>"

definition demo_follower :: "(string list \<times> string list) redis_subscriber" where
  "demo_follower = \<lparr>rs_client = demo_source, rs_stream = ''s'',
     rs_options = default_redis_options\<lparr>startID := StartFromBeginning\<rparr>, rs_processingTimeout = 80\<rparr>"

theorem redis_cursor_reads_in_order_witness:
  "let dispatch = (\<lambda>c d w. (Ret (), w\<lparr>env := apsnd (\<lambda>seen. seen @ [ID (get_msg w (dl_Message d))]) (env w)\<rparr>))
   in \<exists>r w' n. redis_receive 2 dispatch demo_follower Background ''c'' (start_world ([], [])) = (Ret r, w')
        \<and> snd (env w') = map fst (take n demo_stream) \<and> fst (env w') = map fst (take n demo_stream)"
proof -
  let ?dispatch = "\<lambda>c d w. (Ret (), w\<lparr>env := apsnd (\<lambda>seen. seen @ [ID (get_msg w (dl_Message d))]) (env w)\<rparr>)"
  have all: "\<exists>n. xs = take n xs" for xs :: "entry list" by (rule exI [of _ "length xs"]) simp
  have ok: "append_only_stream ?dispatch (rs_client demo_follower) (rs_stream demo_follower) demo_place (\<lambda>e. demo_stream) fst snd"
    using all by (auto simp: append_only_stream_def demo_follower_def demo_source_def grows_def Let_def demo_stream_def demo_place_def)
  have plain: "metadataExtractor (rs_options demo_follower) = None" "payloadExtractor (rs_options demo_follower) = None"
    "consumerGroup (rs_options demo_follower) = []" "startID (rs_options demo_follower) = StartFromBeginning"
    by (simp_all add: demo_follower_def default_redis_options_def)
  have "ordered demo_place demo_stream" by (simp add: ordered_def demo_stream_def demo_place_def StartFromLatest_def)
  from redis_cursor_reads_in_order [OF ok plain(1-3) this refl, of 2 Background "''c''" "start_world ([], [])"] plain(4)
  show ?thesis by (auto simp: Let_def start_world_def)
qed

end
