(* ===== verification/Redis_Group.thy ===== *)
theory Redis_Group
  imports Redis_Subscriber
begin

text \<open>
  The receive loop of \<open>redis/subscriber.go\<close> in consumer group mode: what becomes of the entries that
  XAUTOCLAIM and XREADGROUP answer with, and of an entry that another consumer left pending.
\<close>

section \<open>The server and the dispatcher\<close>

text \<open>
  What the loop relies on, for one entry with the ID \<open>x\<close> of the stream \<open>stream\<close> and the consumer group
  \<open>grp\<close>, of which the program is the consumer \<open>consumer\<close>. \<open>place\<close> is the order of the IDs in the stream;
  \<open>answered\<close> are the IDs the server has answered with to this consumer and \<open>seen\<close> those dispatched.
  \<open>left e\<close> says that \<open>x\<close> is pending in the group for longer than \<open>idle\<close>, and that the consumer it is pending
  for has left it alone: dispatching, and reading new entries for this consumer, do not change that.
  XAUTOCLAIM of this stream and group, for entries idle that long, scans the pending entries in order
  from its start ID, some of them in each call: so it either reaches \<open>x\<close> and answers with it, or it
  stops before, with a next ID further on. Nothing is asked of calls with other arguments.
\<close>

definition group_server ::
  "'e dispatch_fn \<Rightarrow> 'e redis_reader \<Rightarrow> string \<Rightarrow> string \<Rightarrow> string \<Rightarrow> 64 word \<Rightarrow> (string \<Rightarrow> nat) \<Rightarrow> string
     \<Rightarrow> ('e \<Rightarrow> bool) \<Rightarrow> ('e \<Rightarrow> string list) \<Rightarrow> ('e \<Rightarrow> string list) \<Rightarrow> bool"
where
  "group_server dispatch reader stream grp consumer idle place x left answered seen \<longleftrightarrow>
     (\<forall>c d w. \<exists>w'. dispatch c d w = (Ret (), w') \<and> seen (env w') = seen (env w) @ [ID (get_msg w (dl_Message d))]
        \<and> answered (env w') = answered (env w) \<and> (left (env w) \<longrightarrow> left (env w')))
   \<and> (\<forall>c n b e r e'. XReadGroup reader c
          \<lparr>rd_Group = Some (grp, consumer), rd_Streams = [stream, ''>''], rd_Count = n, rd_Block = b\<rparr> e = (r, e') \<longrightarrow>
        seen e' = seen e \<and> (left e \<longrightarrow> left e')
      \<and> answered e' = answered e @ (case r of Inl _ \<Rightarrow> [] | Inr streams \<Rightarrow> map fst (concat (map snd streams))))
   \<and> (\<forall>c i n e claimed start err e'. XAutoClaim reader c
          \<lparr>ac_Stream = stream, ac_Group = grp, ac_Consumer = consumer, ac_MinIdle = idle, ac_Start = i, ac_Count = n\<rparr> e
            = ((claimed, start, err), e') \<longrightarrow>
        seen e' = seen e \<and> answered e' = answered e @ (if err = None then map fst claimed else [])
      \<and> (err = None \<and> left e \<and> place i \<le> place x \<longrightarrow>
           x \<in> fst ` set claimed \<or> left e' \<and> place i < place start \<and> place start \<le> place x))"

section \<open>Facts\<close>

lemma dispatch_entries_group:
  assumes "group_server dispatch (rs_client s) stream grp consumer idle place x left answered seen"
    and "metadataExtractor (rs_options s) = None" "payloadExtractor (rs_options s) = None"
  shows "\<exists>i w'. dispatch_entries dispatch s c es start w = (Ret i, w') \<and> seen (env w') = seen (env w) @ map fst es
    \<and> answered (env w') = answered (env w) \<and> (left (env w) \<longrightarrow> left (env w'))"
proof (induction es arbitrary: start w)
  case (Cons e es)
  obtain msg w1 where msg: "new_x_message e w = (msg, w1)" by fastforce
  note entry = new_x_message_env [OF msg]
  obtain d w2 where d: "redis_delivery s c msg w1 = (Ret d, w2)" "ID (get_msg w2 (dl_Message d)) = fst e" "env w2 = env w"
    using redis_delivery_default [OF assms(2,3), of c msg w1] entry by (auto simp: redis_delivery_of_def)
  obtain w3 where w3: "dispatch c d w2 = (Ret (), w3)" "seen (env w3) = seen (env w) @ [fst e]"
    "answered (env w3) = answered (env w)" "left (env w) \<longrightarrow> left (env w3)"
    using assms(1) d(2,3) unfolding group_server_def by metis
  obtain i w4 where w4: "dispatch_entries dispatch s c es (xm_ID msg) w3 = (Ret i, w4)"
    "seen (env w4) = seen (env w3) @ map fst es" "answered (env w4) = answered (env w3)" "left (env w3) \<longrightarrow> left (env w4)"
    using Cons.IH [of "xm_ID msg" w3] by blast
  have "dispatch_entries dispatch s c (e # es) start w = (Ret i, w4)"
    using msg d(1) w3(1) w4(1) by (simp add: andThen_def)
  with w3 w4 show ?case by auto
qed simp

text \<open>The claim of a turn: what it answers with is dispatched, and its cursor moves towards \<open>x\<close>.\<close>

lemma claim_pending_group:
  assumes server: "group_server dispatch (rs_client s) (rs_stream s) (consumerGroup (rs_options s)) consumer
      (pendingMessageIdleTimeout (rs_options s)) place x left answered seen"
    and plain: "metadataExtractor (rs_options s) = None" "payloadExtractor (rs_options s) = None"
  shows "\<exists>r w' new. claim_pending dispatch s c consumer cur w = (Ret r, w')
    \<and> seen (env w') = seen (env w) @ new \<and> answered (env w') = answered (env w) @ new
    \<and> (\<forall>cur'. r = Inr cur' \<and> left (env w) \<and> place (claimStart cur) \<le> place x \<longrightarrow>
         x \<in> set new \<or> left (env w') \<and> place (claimStart cur) < place (claimStart cur') \<and> place (claimStart cur') \<le> place x)"
proof -
  let ?a = "\<lparr>ac_Stream = rs_stream s, ac_Group = consumerGroup (rs_options s), ac_Consumer = consumer,
         ac_MinIdle = pendingMessageIdleTimeout (rs_options s), ac_Start = claimStart cur,
         ac_Count = pendingMessageBatchSize (rs_options s)\<rparr>"
  obtain claimed start err e1 where claim: "XAutoClaim (rs_client s) c ?a (env w) = ((claimed, start, err), e1)"
    by (metis prod.exhaust)
  then have e1: "seen e1 = seen (env w)" "answered e1 = answered (env w) @ (if err = None then map fst claimed else [])"
    "err = None \<and> left (env w) \<and> place (claimStart cur) \<le> place x \<longrightarrow>
       x \<in> fst ` set claimed \<or> left e1 \<and> place (claimStart cur) < place start \<and> place start \<le> place x"
    using server unfolding group_server_def by fastforce+
  show ?thesis
  proof (cases err)
    case (Some e)
    with claim e1 show ?thesis by (simp add: claim_pending_def andThen_def on_env_def)
  next
    case None
    obtain i w2 where w2: "dispatch_entries dispatch s c claimed [] (w\<lparr>env := e1\<rparr>) = (Ret i, w2)"
      "seen (env w2) = seen e1 @ map fst claimed" "answered (env w2) = answered e1" "left e1 \<longrightarrow> left (env w2)"
      using dispatch_entries_group [OF server plain, of c claimed "[]" "w\<lparr>env := e1\<rparr>"] by auto
    with claim None have "claim_pending dispatch s c consumer cur w = (Ret (Inr (cur\<lparr>claimStart := start\<rparr>)), w2)"
      by (simp add: claim_pending_def andThen_def on_env_def)
    with w2 e1 None show ?thesis
      by (intro exI [of _ "Inr (cur\<lparr>claimStart := start\<rparr>)"] exI [of _ w2] exI [of _ "map fst claimed"]) auto
  qed
qed

lemma receive_turn_group:
  assumes server: "group_server dispatch (rs_client s) (rs_stream s) (consumerGroup (rs_options s)) consumer
      (pendingMessageIdleTimeout (rs_options s)) place x left answered seen"
    and plain: "metadataExtractor (rs_options s) = None" "payloadExtractor (rs_options s) = None"
    and grouped: "consumerGroup (rs_options s) \<noteq> []"
  shows "\<exists>t w' new. receive_turn dispatch s c consumer cur w = (Ret t, w')
    \<and> seen (env w') = seen (env w) @ new \<and> answered (env w') = answered (env w) @ new
    \<and> (t = Return None \<longrightarrow> is_done w' c)
    \<and> (\<forall>cur'. t = Continue cur' \<and> left (env w) \<and> place (claimStart cur) \<le> place x \<longrightarrow>
         x \<in> set new \<or> left (env w') \<and> place (claimStart cur) < place (claimStart cur') \<and> place (claimStart cur') \<le> place x)"
proof (cases "is_done w c")
  case True
  then show ?thesis by (intro exI [of _ "Return None"] exI [of _ w] exI [of _ "[]"]) (simp add: receive_turn_def)
next
  case False
  obtain r w1 new where claim: "claim_pending dispatch s c consumer cur w = (Ret r, w1)"
    "seen (env w1) = seen (env w) @ new" "answered (env w1) = answered (env w) @ new"
    and sweep: "\<forall>cur'. r = Inr cur' \<and> left (env w) \<and> place (claimStart cur) \<le> place x \<longrightarrow>
         x \<in> set new \<or> left (env w1) \<and> place (claimStart cur) < place (claimStart cur') \<and> place (claimStart cur') \<le> place x"
    using claim_pending_group [OF server plain, of c cur w] by blast
  show ?thesis
  proof (cases r)
    case (Inl e)
    with claim False grouped show ?thesis
      by (intro exI [of _ "Return (Some e)"] exI [of _ w1] exI [of _ new]) (simp add: receive_turn_def andThen_def)
  next
    case (Inr cur1)
    let ?a = "\<lparr>rd_Group = Some (consumerGroup (rs_options s), consumer), rd_Streams = [rs_stream s, ''>''],
              rd_Count = redis_maxInFlight (rs_options s), rd_Block = blockTimeout (rs_options s)\<rparr>"
    obtain q e2 where read: "XReadGroup (rs_client s) c ?a (env w1) = (q, e2)" by fastforce
    with server have e2: "seen e2 = seen (env w1)" "left (env w1) \<longrightarrow> left e2"
      "answered e2 = answered (env w1) @ (case q of Inl _ \<Rightarrow> [] | Inr streams \<Rightarrow> map fst (concat (map snd streams)))"
      unfolding group_server_def by blast+
    show ?thesis
    proof (cases q)
      case (Inl e)
      then have "receive_turn dispatch s c consumer cur w
          = (Ret (if errors_Is e redis_Nil then Continue cur1 else Return (Some e)), w1\<lparr>env := e2\<rparr>)"
        using claim(1) Inr read False grouped by (simp add: receive_turn_def andThen_def read_new_def on_env_def)
      with claim(2,3) e2 sweep Inr Inl show ?thesis
        by - (rule exI [of _ "if errors_Is e redis_Nil then Continue cur1 else Return (Some e)"],
          rule exI [of _ "w1\<lparr>env := e2\<rparr>"], rule exI [of _ new], cases "errors_Is e redis_Nil"; simp; blast)
    next
      case (Inr streams)
      let ?es = "concat (map snd streams)"
      obtain i w3 where w3: "dispatch_entries dispatch s c ?es (startID_var cur1) (w1\<lparr>env := e2\<rparr>) = (Ret i, w3)"
        "seen (env w3) = seen e2 @ map fst ?es" "answered (env w3) = answered e2" "left e2 \<longrightarrow> left (env w3)"
        using dispatch_entries_group [OF server plain, of c ?es "startID_var cur1" "w1\<lparr>env := e2\<rparr>"] by auto
      have "receive_turn dispatch s c consumer cur w = (Ret (Continue (cur1\<lparr>startID_var := i\<rparr>)), w3)"
        using claim(1) \<open>r = Inr cur1\<close> Inr read False grouped w3(1)
        by (simp add: receive_turn_def andThen_def read_new_def on_env_def)
      with claim(2,3) e2 w3 sweep \<open>r = Inr cur1\<close> Inr show ?thesis
        by - (rule exI [of _ "Continue (cur1\<lparr>startID_var := i\<rparr>)"],
          rule exI [of _ w3], rule exI [of _ "new @ map fst ?es"], auto)
    qed
  qed
qed

lemma receive_loop_group:
  assumes "group_server dispatch (rs_client s) (rs_stream s) (consumerGroup (rs_options s)) consumer
      (pendingMessageIdleTimeout (rs_options s)) place x left answered seen"
    and "metadataExtractor (rs_options s) = None" "payloadExtractor (rs_options s) = None"
    and "consumerGroup (rs_options s) \<noteq> []"
  shows "\<exists>r w' new. receive_loop fuel dispatch s c consumer cur w = (Ret r, w')
    \<and> seen (env w') = seen (env w) @ new \<and> answered (env w') = answered (env w) @ new
    \<and> (r = Some None \<longrightarrow> is_done w' c)
    \<and> (r = None \<and> left (env w) \<and> place (claimStart cur) \<le> place x \<and> place x - place (claimStart cur) < fuel \<longrightarrow> x \<in> set new)"
proof (induction fuel arbitrary: cur w)
  case (Suc fuel)
  obtain t w1 new where turn: "receive_turn dispatch s c consumer cur w = (Ret t, w1)"
    "seen (env w1) = seen (env w) @ new" "answered (env w1) = answered (env w) @ new" "t = Return None \<longrightarrow> is_done w1 c"
    and sweep: "\<forall>cur'. t = Continue cur' \<and> left (env w) \<and> place (claimStart cur) \<le> place x \<longrightarrow>
         x \<in> set new \<or> left (env w1) \<and> place (claimStart cur) < place (claimStart cur') \<and> place (claimStart cur') \<le> place x"
    using receive_turn_group [OF assms, of c cur w] by blast
  show ?case
  proof (cases t)
    case (Return q)
    with turn show ?thesis
      by (intro exI [of _ "Some q"] exI [of _ w1] exI [of _ new]) (simp add: andThen_def)
  next
    case (Continue cur1)
    obtain r w2 more where rest: "receive_loop fuel dispatch s c consumer cur1 w1 = (Ret r, w2)"
      "seen (env w2) = seen (env w1) @ more" "answered (env w2) = answered (env w1) @ more" "r = Some None \<longrightarrow> is_done w2 c"
      "r = None \<and> left (env w1) \<and> place (claimStart cur1) \<le> place x \<and> place x - place (claimStart cur1) < fuel \<longrightarrow> x \<in> set more"
      using Suc.IH [of cur1 w1] by blast
    then have "receive_loop (Suc fuel) dispatch s c consumer cur w = (Ret r, w2)"
      using turn(1) Continue by (simp add: andThen_def)
    with turn(2,3) rest(2-5) sweep Continue show ?thesis
      by - (rule exI [of _ r], rule exI [of _ w2], rule exI [of _ "new @ more"], auto)
  qed
qed simp

section \<open>Pending entries\<close>

text \<open>C6: In a consumer group nothing the server answers with is lost or repeated by the loop: the entries
  dispatched are exactly those of the answers to XAUTOCLAIM and XREADGROUP, in the order of the
  answers, also when the read that follows a claim fails. Each claim goes on where the last one
  stopped, so an entry that was left pending by another consumer when \<open>Receive\<close> started is
  dispatched after at most one turn more than its place in the stream, provided neither the context ends nor
  a command fails before; without an error the loop only ends because the context is done.\<close>

theorem redis_group_claims_pending:
  assumes "group_server dispatch (rs_client s) (rs_stream s) (consumerGroup (rs_options s)) consumer
      (pendingMessageIdleTimeout (rs_options s)) place x left answered seen"
    and "metadataExtractor (rs_options s) = None" "payloadExtractor (rs_options s) = None"
    and "consumerGroup (rs_options s) \<noteq> []"
    and "place ''0-0'' = 0"
  shows "\<exists>r w' new. redis_receive fuel dispatch s c consumer w = (Ret r, w')
    \<and> seen (env w') = seen (env w) @ new \<and> answered (env w') = answered (env w) @ new
    \<and> (r = Some None \<longrightarrow> is_done w' c)
    \<and> (r = None \<and> left (env w) \<and> place x < fuel \<longrightarrow> x \<in> set new)"
  using receive_loop_group [OF assms(1-4), of fuel c "\<lparr>claimStart = ''0-0'', startID_var = startID (rs_options s)\<rparr>" w]
    assms(4,5)
  by (simp add: redis_receive_def resolveStartID_def andThen_def)

text \<open>A server with two entries that stay pending, which claims one of them in each call.\<close>

definition demo_group_reader :: "(string list \<times> string list) redis_reader" where
  "demo_group_reader =
     \<lparr>XGroupCreateMkStream = (\<lambda>c s g i e. (None, e)), XGroupCreate = (\<lambda>c s g i e. (None, e)),
      XAutoClaim = (\<lambda>c a (answered, seen).
        if (ac_Stream a, ac_Group a) \<noteq> (''s'', ''g'') then (([], [], Some (ErrNew ''NOGROUP'')), answered, seen)
        else if demo_place (ac_Start a) \<le> 1 then (([(''1-0'', None)], ''2-0'', None), answered @ [''1-0''], seen)
        else (([(''2-0'', None)], ''0-0'', None), answered @ [''2-0''], seen)),
      XReadGroup = (\<lambda>c a e. (Inl redis_Nil, e)), XRead = (\<lambda>c a e. (Inl redis_Nil, e)),
      XInfoStream_LastGeneratedID = (\<lambda>c s e. (Inr ''0-0'', e)),
      XAck = (\<lambda>c s g i e. (None, e)), err_Error = (\<lambda>e. [])\<rparr>"

definition demo_member :: "(string list \<times> string list) redis_subscriber" where
  "demo_member = \<lparr>rs_client = demo_group_reader, rs_stream = ''s'',
     rs_options = default_redis_options\<lparr>consumerGroup := ''g''\<rparr>, rs_processingTimeout = 80\<rparr>"

theorem redis_group_claims_pending_witness:
  "let dispatch = (\<lambda>c d w. (Ret (), w\<lparr>env := apsnd (\<lambda>seen. seen @ [ID (get_msg w (dl_Message d))]) (env w)\<rparr>))
   in \<exists>w' new. redis_receive 3 dispatch demo_member Background ''c'' (start_world ([], [])) = (Ret None, w')
     \<and> snd (env w') = new \<and> ''2-0'' \<in> set new"
proof -
  let ?dispatch = "\<lambda>c d w. (Ret (), w\<lparr>env := apsnd (\<lambda>seen. seen @ [ID (get_msg w (dl_Message d))]) (env w)\<rparr>)"
  have server: "group_server ?dispatch (rs_client demo_member) (rs_stream demo_member) (consumerGroup (rs_options demo_member)) ''c''
      (pendingMessageIdleTimeout (rs_options demo_member)) demo_place ''2-0'' (\<lambda>e. ''2-0'' \<notin> set (fst e)) fst snd"
    by (auto simp: group_server_def demo_member_def demo_group_reader_def default_redis_options_def demo_place_def split: if_splits)
  have plain: "metadataExtractor (rs_options demo_member) = None" "payloadExtractor (rs_options demo_member) = None"
    "consumerGroup (rs_options demo_member) \<noteq> []" "demo_place ''0-0'' = 0"
    by (simp_all add: demo_member_def default_redis_options_def demo_place_def)
  have run: "fst (redis_receive 3 ?dispatch demo_member Background ''c'' (start_world ([], []))) = Ret None"
    by code_simp
  from redis_group_claims_pending [OF server plain, of 3 Background "start_world ([], [])"] run
  show ?thesis by (auto simp: start_world_def demo_place_def)
qed

end
