(* ===== verification/Amqp_Publisher.thy ===== *)
theory Amqp_Publisher
  imports Publisher_Adapter
begin

text \<open>
  \<open>amqp/headers.go\<close>, \<open>amqp/publisher.go\<close> and the close of \<open>amqp/channel.go\<close>. Headers are maps shared
  by reference: the default provider hands out the message's own metadata map. The client library's
  channel is a record of functions on the broker's part of the environment; the closed flag of the
  one \<open>ReconnectingChannel\<close> that all exchanges share is the other part. A publishing is owned by one
  publish and threaded as a value.
\<close>

section \<open>Headers\<close>

type_synonym headers = "addr option"

type_synonym 'e headers_provider = "addr \<Rightarrow> ('e, headers) act"

definition fresh_map :: "(string, gval) gomap \<Rightarrow> ('e, headers) act" where
  "fresh_map m w = (let (r, w1) = new_map m w in (Ret (Some r), w1))"

definition HeadersAsMetadata :: "(gval \<Rightarrow> string) \<Rightarrow> headers \<Rightarrow> ('e, headers) act" where
  "HeadersAsMetadata fv headers w =
     fresh_map (range_into (convert_entry (\<lambda>v. VString (sprint_v fv v))) (read_map w headers) []) w"

definition PrefixedHeadersProvider :: "string \<Rightarrow> 'e headers_provider" where
  "PrefixedHeadersProvider p msg w = fresh_map (range_into (prefix_entry p) (meta_of w msg) []) w"

definition FilteredHeadersProvider :: "(string \<Rightarrow> bool) \<Rightarrow> 'e headers_provider" where
  "FilteredHeadersProvider P msg w = fresh_map (range_into (filter_entry P) (meta_of w msg) []) w"

definition ExcludePrefixHeadersProvider :: "string \<Rightarrow> 'e headers_provider" where
  "ExcludePrefixHeadersProvider p = FilteredHeadersProvider (\<lambda>k. \<not> HasPrefix k p)"

definition OnlyPrefixHeadersProvider :: "string \<Rightarrow> 'e headers_provider" where
  "OnlyPrefixHeadersProvider p = FilteredHeadersProvider (\<lambda>k. HasPrefix k p)"

definition ExtractPrefixedMetadata :: "(gval \<Rightarrow> string) \<Rightarrow> headers \<Rightarrow> string \<Rightarrow> ('e, headers) act" where
  "ExtractPrefixedMetadata fv headers p w =
     fresh_map (range_into (strip_entry p (\<lambda>v. Some (VString (sprint_v fv v)))) (read_map w headers) []) w"

fun merge_headers :: "(gval \<Rightarrow> string) \<Rightarrow> addr \<Rightarrow> (string, gval) gomap \<Rightarrow> ('e, unit) act" where
  "merge_headers fv msg [] w = (Ret (), w)"
| "merge_headers fv msg ((k, v) # m) w =
     andThen (map_assign (Metadata (get_msg w msg)) k (VString (sprint_v fv v))) (\<lambda>_. merge_headers fv msg m) w"

definition MergeHeadersToMetadata :: "(gval \<Rightarrow> string) \<Rightarrow> addr \<Rightarrow> headers \<Rightarrow> ('e, unit) act" where
  "MergeHeadersToMetadata fv msg headers w = merge_headers fv msg (read_map w headers) w"

definition MetadataAsHeaders :: "'e headers_provider" where
  "MetadataAsHeaders msg w = (Ret (Metadata (get_msg w msg)), w)"

section \<open>Publisher\<close>

type_synonym 'e routing_key_func = "addr \<Rightarrow> ('e, gerr + string) act"

definition ConstantRoutingKey :: "string \<Rightarrow> 'e routing_key_func" where
  "ConstantRoutingKey key msg w = (Ret (Inr key), w)"

record publishing =
  pub_ContentType :: string
  pub_Priority :: "8 word"
  pub_DeliveryMode :: "8 word"
  pub_Body :: string
  pub_Headers :: headers
  pub_MessageId :: string

record 'e amqp_publisher_options =
  headersProvider :: "'e headers_provider option"
  mandatoryMsgOpt :: "(addr \<Rightarrow> ('e, gerr + bool) act) option"
  immediateMsgOpt :: "(addr \<Rightarrow> ('e, gerr + bool) act) option"
  messageModifier :: "(publishing \<Rightarrow> ('e, gerr option \<times> publishing) act) option"

type_synonym 'e amqp_publisher_option = "'e amqp_publisher_options \<Rightarrow> 'e amqp_publisher_options"

definition WithMandatoryMsgFn :: "(addr \<Rightarrow> ('e, gerr + bool) act) \<Rightarrow> 'e amqp_publisher_option" where
  "WithMandatoryMsgFn f opts = opts\<lparr>mandatoryMsgOpt := Some f\<rparr>"

definition WithImmediateMsgFn :: "(addr \<Rightarrow> ('e, gerr + bool) act) \<Rightarrow> 'e amqp_publisher_option" where
  "WithImmediateMsgFn f opts = opts\<lparr>immediateMsgOpt := Some f\<rparr>"

definition WithMessageModifier ::
  "(publishing \<Rightarrow> ('e, gerr option \<times> publishing) act) \<Rightarrow> 'e amqp_publisher_option"
where
  "WithMessageModifier f opts = opts\<lparr>messageModifier := Some f\<rparr>"

definition WithHeadersProvider :: "'e headers_provider option \<Rightarrow> 'e amqp_publisher_option" where
  "WithHeadersProvider f opts = opts\<lparr>headersProvider := f\<rparr>"

record default_message_options =
  ContentType :: string
  Priority :: "8 word"
  DeliveryMode :: "8 word"

record amqp_message =
  Publishing :: "publishing option"
  Immediate :: bool
  Mandatory :: bool
  RoutingKey :: string

text \<open>The environment, and the client library's channel.\<close>

record 'b amqp_env =
  ch_closed :: bool
  broker :: 'b

record 'b amqp_channel =
  chan_Publish :: "string \<Rightarrow> string \<Rightarrow> bool \<Rightarrow> bool \<Rightarrow> publishing \<Rightarrow> 'b \<Rightarrow> gerr option \<times> 'b"
  chan_Close :: "'b \<Rightarrow> gerr option \<times> 'b"

definition amqp_ErrClosed :: gerr where
  "amqp_ErrClosed = ErrVar ''amqp.ErrClosed''"

definition ReconnectingChannel_IsClosed :: "'b amqp_env \<Rightarrow> bool" where
  "ReconnectingChannel_IsClosed e = ch_closed e"

definition ReconnectingChannel_Close :: "'b amqp_channel \<Rightarrow> 'b amqp_env \<Rightarrow> gerr option \<times> 'b amqp_env" where
  "ReconnectingChannel_Close ch e =
     (if ReconnectingChannel_IsClosed e then (Some amqp_ErrClosed, e)
      else let e = e\<lparr>ch_closed := True\<rparr>;
               (err, b) = chan_Close ch (broker e)
           in (err, e\<lparr>broker := b\<rparr>))"

record 'b exchange_destination =
  ed_channel :: "'b amqp_channel"
  ed_exchange :: string

definition ExchangeDestination_Close :: "'b exchange_destination \<Rightarrow> ('b amqp_env, gerr option) act" where
  "ExchangeDestination_Close d = on_env (ReconnectingChannel_Close (ed_channel d))"

definition ExchangeDestination_Publish ::
  "'b exchange_destination \<Rightarrow> ctx \<Rightarrow> amqp_message \<Rightarrow> ('b amqp_env, gerr option \<times> amqp_message) act"
where
  "ExchangeDestination_Publish d c message w =
     (case Publishing message of
        None \<Rightarrow> (Panic nil_deref_panic, w)
      | Some p \<Rightarrow> on_env (\<lambda>e.
          (let (err, b) = chan_Publish (ed_channel d) (ed_exchange d) (RoutingKey message)
                            (Mandatory message) (Immediate message) p (broker e)
           in ((err, message), e\<lparr>broker := b\<rparr>))) w)"

definition ExchangeDestination_GetMessageID :: "'b exchange_destination \<Rightarrow> amqp_message \<Rightarrow> string" where
  "ExchangeDestination_GetMessageID d message =
     (case Publishing message of None \<Rightarrow> [] | Some p \<Rightarrow> pub_MessageId p)"

definition exchange_impl :: "(amqp_message, 'b exchange_destination, 'b amqp_env) impl" where
  "exchange_impl = \<lparr>impl_Publish = ExchangeDestination_Publish,
     GetMessageID = ExchangeDestination_GetMessageID, impl_Close = ExchangeDestination_Close\<rparr>"

text \<open>An optional function that decides a flag of the message.\<close>

definition flag_of :: "(addr \<Rightarrow> ('e, gerr + bool) act) option \<Rightarrow> addr \<Rightarrow> ('e, gerr + bool) act" where
  "flag_of f msg = (case f of None \<Rightarrow> (\<lambda>w. (Ret (Inr False), w)) | Some f \<Rightarrow> f msg)"

definition andThenOk :: "('e, gerr + 'a) act \<Rightarrow> ('a \<Rightarrow> ('e, gerr + 'b) act) \<Rightarrow> ('e, gerr + 'b) act" where
  "andThenOk m k = andThen m (\<lambda>r. case r of Inl e \<Rightarrow> (\<lambda>w. (Ret (Inl e), w)) | Inr a \<Rightarrow> k a)"

definition payload_error :: gerr where
  "payload_error = ErrNew ''payload must be []byte. Use a middleware to convert the payload to []byte''"

definition amqp_marshaller ::
  "'e routing_key_func \<Rightarrow> default_message_options \<Rightarrow> 'e amqp_publisher_options \<Rightarrow> addr
     \<Rightarrow> ('e, gerr + amqp_message) act"
where
  "amqp_marshaller routingKeyFn defaults options msg w =
     (case Payload (get_msg w msg) of
        VBytes body \<Rightarrow>
          (let publishing = \<lparr>pub_ContentType = ContentType defaults, pub_Priority = Priority defaults,
                 pub_DeliveryMode = DeliveryMode defaults, pub_Body = body, pub_Headers = None, pub_MessageId = []\<rparr>
           in andThenOk (routingKeyFn msg) (\<lambda>routingKey.
                andThen (case headersProvider options of
                    None \<Rightarrow> (\<lambda>w. (Ret None, w)) | Some f \<Rightarrow> f msg) (\<lambda>headers.
                  let publishing = publishing\<lparr>pub_Headers := headers\<rparr>
                  in andThen (case messageModifier options of
                       None \<Rightarrow> (\<lambda>w. (Ret (None, publishing), w)) | Some f \<Rightarrow> f publishing) (\<lambda>(err, publishing).
                     case err of
                       Some e \<Rightarrow> (\<lambda>w. (Ret (Inl e), w))
                     | None \<Rightarrow>
                         andThenOk (flag_of (immediateMsgOpt options) msg) (\<lambda>immediate.
                           andThenOk (flag_of (mandatoryMsgOpt options) msg) (\<lambda>mandatory w.
                             (Ret (Inr \<lparr>Publishing = Some publishing, Immediate = immediate,
                                        Mandatory = mandatory, RoutingKey = routingKey\<rparr>), w)))))) w)
      | _ \<Rightarrow> (Ret (Inl payload_error), w))"

definition amqp_config ::
  "'b amqp_channel \<Rightarrow> 'b amqp_env routing_func \<Rightarrow> 'b amqp_env routing_key_func \<Rightarrow> default_message_options
     \<Rightarrow> 'b amqp_env amqp_publisher_options \<Rightarrow> (amqp_message, 'b exchange_destination, 'b amqp_env) mp_config"
where
  "amqp_config channel exchangeRoutingFn routingKeyFn defaults options =
     \<lparr>RoutingFunc = exchangeRoutingFn,
      MessageMarshaller = amqp_marshaller routingKeyFn defaults options,
      GetDestinationPublisher = (\<lambda>d w. (Ret (Inr \<lparr>ed_channel = channel, ed_exchange = d\<rparr>), w))\<rparr>"

definition NewAMQPPublisher ::
  "'b amqp_channel \<Rightarrow> 'b amqp_env routing_func option \<Rightarrow> 'b amqp_env routing_key_func option
     \<Rightarrow> default_message_options \<Rightarrow> 'b amqp_env amqp_publisher_option list
     \<Rightarrow> gerr + (amqp_message, 'b exchange_destination, 'b amqp_env) mp_config"
where
  "NewAMQPPublisher channel exchangeRoutingFn routingKeyFn defaults opts =
     (case exchangeRoutingFn of
        None \<Rightarrow> Inl (ErrNew ''exchange routing function required'')
      | Some exchangeRoutingFn \<Rightarrow> (case routingKeyFn of
          None \<Rightarrow> Inl (ErrNew ''routing key function required'')
        | Some routingKeyFn \<Rightarrow>
            if ContentType defaults = [] then Inl (ErrNew ''message default content type is required'')
            else if Priority defaults < 0 \<or> Priority defaults > 9
            then Inl (ErrNew ''message default priority is required to be between 0 and 9'')
            else if DeliveryMode defaults < 1 \<or> DeliveryMode defaults > 2
            then Inl (ErrNew ''message default delivery mode is required to be either transient or persistent'')
            else let options = fold (\<lambda>opt. opt) opts
                       \<lparr>headersProvider = Some MetadataAsHeaders, mandatoryMsgOpt = None,
                        immediateMsgOpt = None, messageModifier = None\<rparr>
                 in Inr (amqp_config channel exchangeRoutingFn routingKeyFn defaults options)))"

text \<open>\<open>Publisher.Publish\<close> and \<open>Publisher.Close\<close>.\<close>

definition Amqp_Publish ::
  "(amqp_message, 'b exchange_destination, 'b amqp_env) mp_config \<Rightarrow> addr \<Rightarrow> 'b exchange_destination mp_state
     \<Rightarrow> 'b amqp_env world \<Rightarrow> (gerr option res \<times> 'b amqp_env world) \<times> 'b exchange_destination mp_state"
where
  "Amqp_Publish p message = MessagePublisher_Publish p exchange_impl message"

definition Amqp_Close ::
  "'b exchange_destination mp_state \<Rightarrow> 'b amqp_env world
     \<Rightarrow> (gerr option res \<times> 'b amqp_env world) \<times> 'b exchange_destination mp_state"
where
  "Amqp_Close = MessagePublisher_Close exchange_impl"

section \<open>Properties\<close>

definition default_amqp_options :: "'e amqp_publisher_options" where
  "default_amqp_options = \<lparr>headersProvider = Some MetadataAsHeaders, mandatoryMsgOpt = None,
                           immediateMsgOpt = None, messageModifier = None\<rparr>"

text \<open>The message the default options make, with a constant routing key.\<close>

definition amqp_marshal :: "string \<Rightarrow> default_message_options \<Rightarrow> 'e world \<Rightarrow> addr \<Rightarrow> gerr + amqp_message" where
  "amqp_marshal key defaults w m =
     (case Payload (get_msg w m) of
        VBytes body \<Rightarrow> Inr \<lparr>Publishing = Some \<lparr>pub_ContentType = ContentType defaults,
            pub_Priority = Priority defaults, pub_DeliveryMode = DeliveryMode defaults, pub_Body = body,
            pub_Headers = Metadata (get_msg w m), pub_MessageId = []\<rparr>,
          Immediate = False, Mandatory = False, RoutingKey = key\<rparr>
      | _ \<Rightarrow> Inl payload_error)"

definition exchange_send ::
  "'b exchange_destination \<Rightarrow> ctx \<Rightarrow> amqp_message \<Rightarrow> 'b amqp_env \<Rightarrow> (gerr option \<times> amqp_message) \<times> 'b amqp_env"
where
  "exchange_send d c t e =
     (let (err, b) = chan_Publish (ed_channel d) (ed_exchange d) (RoutingKey t) (Mandatory t) (Immediate t)
                       (the (Publishing t)) (broker e)
      in ((err, t), e\<lparr>broker := b\<rparr>))"

lemma amqp_marshaller_default:
  "amqp_marshaller (ConstantRoutingKey key) defaults default_amqp_options m w = (Ret (amqp_marshal key defaults w m), w)"
  by (auto simp: amqp_marshaller_def amqp_marshal_def default_amqp_options_def andThenOk_def andThen_def
      ConstantRoutingKey_def MetadataAsHeaders_def flag_of_def Let_def split: gval.split)

interpretation amqp: publisher_adapter "amqp_config channel routing (ConstantRoutingKey key) defaults default_amqp_options"
  exchange_impl "amqp_marshal key defaults" "\<lambda>d. \<lparr>ed_channel = channel, ed_exchange = d\<rparr>" exchange_send
  for channel routing key defaults
  by unfold_locales
    (auto simp: amqp_config_def amqp_marshaller_default exchange_impl_def ExchangeDestination_Publish_def
      exchange_send_def amqp_marshal_def on_env_def split: gval.splits prod.splits)

text \<open>With the default options, publishing a message with a byte payload makes one publish on the
  channel, to the exchange the routing function named and with the routing key, neither mandatory
  nor immediate: its body is the payload, its content type, priority and delivery mode are the
  configured ones, and its headers are the message's own metadata map, shared and not copied.
  The result is the channel's and no message changes. Any other payload fails without reaching
  the broker.\<close>

theorem amqp_publish_outcome:
  assumes "NewAMQPPublisher ch (Some routing) (Some (ConstantRoutingKey key)) defaults [] = Inr pub"
    and "routing m w = (Ret (Inr d), w1)"
    and "\<not> closed s" "cache_ok s" "\<forall>d p. cached s d = Some p \<longrightarrow> p = \<lparr>ed_channel = ch, ed_exchange = d\<rparr>"
    and "Amqp_Publish pub m s w = ((r, w'), s')"
  shows "heap_msgs w' = heap_msgs w1 \<and> heap_maps w' = heap_maps w1 \<and> ch_closed (env w') = ch_closed (env w1)
    \<and> ContentType defaults \<noteq> [] \<and> Priority defaults \<le> 9 \<and> DeliveryMode defaults \<in> {1, 2}
    \<and> (case Payload (get_msg w1 m) of
         VBytes body \<Rightarrow>
           (\<exists>err. r = Ret err \<and> chan_Publish ch d key False False
               \<lparr>pub_ContentType = ContentType defaults, pub_Priority = Priority defaults,
                pub_DeliveryMode = DeliveryMode defaults, pub_Body = body,
                pub_Headers = Metadata (get_msg w1 m), pub_MessageId = []\<rparr> (broker (env w1)) = (err, broker (env w')))
       | _ \<Rightarrow> r = Ret (Some payload_error) \<and> w' = w1)"
proof -
  let ?cfg = "amqp_config ch routing (ConstantRoutingKey key) defaults default_amqp_options"
  have cfg: "pub = ?cfg" and valid: "ContentType defaults \<noteq> []" "Priority defaults \<le> 9"
    "\<not> (DeliveryMode defaults < 1 \<or> DeliveryMode defaults > 2)"
    using assms(1) by (auto simp: NewAMQPPublisher_def default_amqp_options_def Let_def split: if_splits)
  have mode: "DeliveryMode defaults \<in> {1, 2}"
  proof -
    have "1 \<le> unat (DeliveryMode defaults)" "unat (DeliveryMode defaults) \<le> 2"
      using valid(3) by (simp_all add: word_less_nat_alt not_less)
    then have "unat (DeliveryMode defaults) = unat (1 :: 8 word) \<or> unat (DeliveryMode defaults) = unat (2 :: 8 word)"
      by auto
    then show ?thesis by (auto simp only: word_unat_eq_iff insert_iff)
  qed
  have own: "amqp.own_cache ch s" using assms(3-5) by (simp add: amqp.own_cache_def)
  have routed: "RoutingFunc ?cfg m w = (Ret (Inr d), w1)" using assms(2) by (simp add: amqp_config_def)
  obtain t where out: "MessagePublisher_Publish ?cfg exchange_impl m s w =
       ((case amqp_marshal key defaults w1 m of
           Inl e \<Rightarrow> (Ret (Some e), w1)
         | Inr t \<Rightarrow> (case exchange_send \<lparr>ed_channel = ch, ed_exchange = d\<rparr> (Context w1 m) t (env w1) of
             ((Some e, t'), v) \<Rightarrow> (Ret (Some e), w1\<lparr>env := v\<rparr>)
           | ((None, t'), v) \<Rightarrow> (Ret None,
               if GetMessageID exchange_impl \<lparr>ed_channel = ch, ed_exchange = d\<rparr> t' = [] then w1\<lparr>env := v\<rparr>
               else upd_msg m (\<lambda>x. x\<lparr>ID := GetMessageID exchange_impl \<lparr>ed_channel = ch, ed_exchange = d\<rparr> t'\<rparr>) (w1\<lparr>env := v\<rparr>)))), t)"
    using amqp.publish_outcome [OF own routed] by blast
  show ?thesis
  proof (cases "Payload (get_msg w1 m)")
    case (VBytes body)
    let ?p = "\<lparr>pub_ContentType = ContentType defaults, pub_Priority = Priority defaults,
                pub_DeliveryMode = DeliveryMode defaults, pub_Body = body,
                pub_Headers = Metadata (get_msg w1 m), pub_MessageId = []\<rparr>"
    obtain err b where pub: "chan_Publish ch d key False False ?p (broker (env w1)) = (err, b)" by fastforce
    with out VBytes assms(6) have "r = Ret err \<and> w' = w1\<lparr>env := (env w1)\<lparr>broker := b\<rparr>\<rparr>"
      by (cases err) (auto simp: cfg Amqp_Publish_def amqp_marshal_def exchange_send_def exchange_impl_def
          ExchangeDestination_GetMessageID_def)
    with pub VBytes valid mode show ?thesis by simp
  qed (use out assms(6) valid mode in \<open>auto simp: cfg Amqp_Publish_def amqp_marshal_def\<close>)
qed

text \<open>A channel that logs what it publishes and how often it is closed, for the witnesses.\<close>

definition log_channel :: "string list amqp_channel" where
  "log_channel = \<lparr>chan_Publish = (\<lambda>x k m i p b. (None, b @ [x @ k @ pub_Body p])), chan_Close = (\<lambda>b. (None, b @ [''closed'']))\<rparr>"

definition demo_defaults :: default_message_options where
  "demo_defaults = \<lparr>ContentType = ''text'', Priority = 4, DeliveryMode = 2\<rparr>"

definition demo_amqp_start :: "gval \<Rightarrow> string list amqp_env world" where
  "demo_amqp_start v = snd (NewMessage Background v (start_world \<lparr>ch_closed = False, broker = []\<rparr>))"

lemma demo_amqp_start_simps:
  "Payload (get_msg (demo_amqp_start v) 0) = v" "broker (env (demo_amqp_start v)) = []"
  by (simp_all add: demo_amqp_start_def message_defs world_defs start_world_def)

theorem amqp_publish_outcome_witness:
  "\<exists>pub w' s'. NewAMQPPublisher log_channel (Some (ConstantDestination ''x'')) (Some (ConstantRoutingKey ''-k-'')) demo_defaults [] = Inr pub
     \<and> Amqp_Publish pub 0 mp_zero (demo_amqp_start (VBytes ''b'')) = ((Ret None, w'), s')
     \<and> broker (env w') = [''x-k-b'']"
proof -
  obtain pub where pub: "NewAMQPPublisher log_channel (Some (ConstantDestination ''x'')) (Some (ConstantRoutingKey ''-k-''))
      demo_defaults [] = Inr pub"
    by (simp add: NewAMQPPublisher_def demo_defaults_def Let_def)
  obtain r w' s' where run: "Amqp_Publish pub 0 mp_zero (demo_amqp_start (VBytes ''b'')) = ((r, w'), s')"
    by (metis prod.exhaust)
  have route: "ConstantDestination ''x'' 0 (demo_amqp_start (VBytes ''b'')) = (Ret (Inr ''x''), demo_amqp_start (VBytes ''b''))"
    by (simp add: ConstantDestination_def)
  have zero: "\<not> closed (mp_zero :: string list exchange_destination mp_state)" by (simp add: mp_zero_def)
  from amqp_publish_outcome [OF pub route zero cache_ok_zero _ run]
  have "r = Ret None" "broker (env w') = [''x-k-b'']"
    by (auto simp: demo_amqp_start_simps log_channel_def)
  with pub run show ?thesis by blast
qed

text \<open>All destinations of an AMQP publisher share one channel, and each destination closes it. Closing
  the publisher therefore closes the broker's channel once, but when more than one destination was
  published to it reports an error all the same: one \<open>ErrClosed\<close> for every further destination.\<close>

theorem amqp_close_reports_closed:
  assumes "publishers s = Some m" "\<forall>(d, p) \<in> set m. ed_channel p = ch" "m \<noteq> []" "\<not> closed s"
    and "\<not> ch_closed (env w)" "chan_Close ch (broker (env w)) = (None, b)"
    and "Amqp_Close s w = ((r, w'), s')"
  shows "r = Ret (if length m = 1 then None else Some (ErrJoin (replicate (length m - 1) amqp_ErrClosed)))
    \<and> env w' = (env w)\<lparr>ch_closed := True, broker := b\<rparr>"
proof -
  have rest: "close_all exchange_impl ps errs v = (Ret (errs @ replicate (length ps) amqp_ErrClosed), v)"
    if "ch_closed (env v)" for ps errs v
    using that
    by (induction ps arbitrary: errs)
      (auto simp: exchange_impl_def ExchangeDestination_Close_def ReconnectingChannel_Close_def
        ReconnectingChannel_IsClosed_def on_env_def)
  obtain d p ps where m: "m = (d, p) # ps" using assms(3) by (cases m) auto
  let ?v = "w\<lparr>env := (env w)\<lparr>ch_closed := True, broker := b\<rparr>\<rparr>"
  have "close_all exchange_impl m [] w = close_all exchange_impl ps [] ?v"
    using assms(2,5,6) by (simp add: m exchange_impl_def ExchangeDestination_Close_def ReconnectingChannel_Close_def
        ReconnectingChannel_IsClosed_def on_env_def Let_def)
  with rest [of ?v ps "[]"] have "close_all exchange_impl m [] w = (Ret (replicate (length m - 1) amqp_ErrClosed), ?v)"
    by (simp add: m)
  with assms(1,4,7) show ?thesis
    by (auto simp: Amqp_Close_def MessagePublisher_Close_def errors_Join_def m)
qed

theorem amqp_close_reports_closed_witness:
  "let p = (\<lambda>d. \<lparr>ed_channel = log_channel, ed_exchange = d\<rparr>);
       s = cache_put ''a'' (p ''a'') (cache_put ''b'' (p ''b'') mp_zero)
   in \<exists>w' s'. Amqp_Close s (demo_amqp_start VNil) = ((Ret (Some (ErrJoin [amqp_ErrClosed])), w'), s')
        \<and> broker (env w') = [''closed'']"
proof -
  let ?p = "\<lambda>d. \<lparr>ed_channel = log_channel, ed_exchange = d\<rparr>"
  let ?s = "cache_put ''a'' (?p ''a'') (cache_put ''b'' (?p ''b'') mp_zero)"
  have s: "publishers ?s = Some [(''b'', ?p ''b''), (''a'', ?p ''a'')]" "\<not> closed ?s"
    by (simp_all add: cache_put_def mp_zero_def)
  have "\<not> ch_closed (env (demo_amqp_start VNil))" "chan_Close log_channel (broker (env (demo_amqp_start VNil))) = (None, [''closed''])"
    by (simp_all add: demo_amqp_start_def message_defs world_defs start_world_def log_channel_def)
  moreover obtain r w' s' where run: "Amqp_Close ?s (demo_amqp_start VNil) = ((r, w'), s')" by (metis prod.exhaust)
  ultimately have "r = Ret (Some (ErrJoin [amqp_ErrClosed]))" "broker (env w') = [''closed'']"
    using amqp_close_reports_closed [OF s(1) _ _ s(2) _ _ run, of log_channel] by simp_all
  with run show ?thesis by (auto simp: Let_def)
qed

section \<open>Headers and metadata\<close>

interpretation prefixed_headers: key_transport "prefix_entry p" "\<lambda>v. v"
  "strip_entry p (\<lambda>v. Some (VString (sprint_v fv v)))" "\<lambda>v. VString (sprint_v fv v)" for p fv
  by unfold_locales (auto simp: entry_iffs)

lemma read_fresh_map: "fresh_map m w = (Ret r, w1) \<Longrightarrow> read_map w1 r = m"
  by (auto simp: fresh_map_def new_map_def read_map_def)

text \<open>Metadata sent as headers under a prefix is found again under it among any other headers of the
  delivery: exactly the keys come back, each with its value printed as a string (so a string comes
  back unchanged), and no foreign header is taken for metadata. The providers that keep only, or
  leave out, the keys with a prefix split the metadata in two.\<close>

theorem amqp_prefixed_headers_round_trip:
  assumes "wf_world w" "valid_msg w m"
    and "PrefixedHeadersProvider p m w = (Ret out, w1)"
    and "wf_map (read_map w2 arrived)" "\<forall>k \<in> dom other. \<not> HasPrefix k p"
    and "map_of (read_map w2 arrived) = other ++ map_of (read_map w1 out)"
    and "ExtractPrefixedMetadata fv arrived p w2 = (Ret r, w3)"
    and "OnlyPrefixHeadersProvider p m w = (Ret only, w4)" "ExcludePrefixHeadersProvider p m w = (Ret rest, w5)"
  shows "map_of (read_map w3 r) = map_option (\<lambda>v. VString (sprint_v fv v)) \<circ> map_of (meta_of w m)
    \<and> (\<forall>k. map_of (meta_of w m) k =
         (if HasPrefix k p then map_of (read_map w4 only) k else map_of (read_map w5 rest) k))
    \<and> dom (map_of (read_map w4 only)) \<inter> dom (map_of (read_map w5 rest)) = {}"
proof -
  have wf: "wf_map (meta_of w m)" using assms(1,2) by (rule wf_world_meta)
  have out: "read_map w1 out = range_into (prefix_entry p) (meta_of w m) []"
    using read_fresh_map assms(3) unfolding PrefixedHeadersProvider_def by blast
  have parts: "read_map w4 only = range_into (filter_entry (\<lambda>k. HasPrefix k p)) (meta_of w m) []"
    "read_map w5 rest = range_into (filter_entry (\<lambda>k. \<not> HasPrefix k p)) (meta_of w m) []"
    using read_fresh_map assms(8,9)
    unfolding OnlyPrefixHeadersProvider_def ExcludePrefixHeadersProvider_def FilteredHeadersProvider_def by blast+
  have "read_map w3 r = range_into (strip_entry p (\<lambda>v. Some (VString (sprint_v fv v)))) (read_map w2 arrived) []"
    using read_fresh_map assms(7) unfolding ExtractPrefixedMetadata_def by blast
  moreover have "map_of (range_into (strip_entry p (\<lambda>v. Some (VString (sprint_v fv v)))) (read_map w2 arrived) [])
      = map_option (\<lambda>v. VString (sprint_v fv v)) \<circ> map_of (meta_of w m)"
  proof (rule prefixed_headers.transported [where other = other])
    show "strip_entry p (\<lambda>v. Some (VString (sprint_v fv v))) l x = None" if "other l = Some x" for l x
      using that assms(5) by (auto simp: strip_entry_def)
    show "map_of (range_into (prefix_entry p) (meta_of w m) []) l = None" if "l \<in> dom other" for l
      using that assms(5) wf by (simp add: map_of_prefix_entry_None)
    show "map_of (read_map w2 arrived) = other ++ (map_option (\<lambda>v. v) \<circ> map_of (range_into (prefix_entry p) (meta_of w m) []))"
      using assms(6) by (simp add: out option.map_ident o_def)
  qed (use wf assms(4) in simp_all)
  ultimately show ?thesis using wf by (auto simp: parts map_of_filter_entry split: if_splits)
qed

theorem amqp_prefixed_headers_round_trip_witness:
  "let w = snd (WithMetadata 0 ''k'' (VInt 7) (snd (NewMessage Background VNil (start_world ()))));
       (a, w2) = new_map [(''x-k'', VInt 7), (''trace'', VNil)] w;
       (r, w3) = ExtractPrefixedMetadata (\<lambda>v. []) (Some a) ''x-'' w2
   in \<exists>q. r = Ret q \<and> map_of (read_map w3 q) ''k'' = Some (VString ''7'')"
proof -
  define w where "w = snd (WithMetadata 0 ''k'' (VInt 7) (snd (NewMessage Background VNil (start_world ()))))"
  have meta: "meta_of w 0 = [(''k'', VInt 7)]" "valid_msg w 0"
    by (simp_all add: w_def message_defs world_defs start_world_def andThen_def map_assign_def)
  have wf: "wf_world w"
    unfolding w_def by (rule wf_world_WithMetadata) (simp add: message_defs world_defs start_world_def wf_world_def)
  obtain out w1 where out: "PrefixedHeadersProvider ''x-'' 0 w = (Ret out, w1)"
    by (simp add: PrefixedHeadersProvider_def fresh_map_def new_map_def)
  then have read1: "read_map w1 out = [(''x-k'', VInt 7)]"
    using read_fresh_map by (fastforce simp: PrefixedHeadersProvider_def meta prefix_entry_def)
  define arrived where "arrived = [(''x-k'', VInt 7), (''trace'', VNil)]"
  obtain a w2 where new: "new_map arrived w = (a, w2)" by fastforce
  then have read2: "read_map w2 (Some a) = arrived" by (auto simp: new_map_def read_map_def)
  obtain r w3 w4 w5 o4 o5 where runs: "ExtractPrefixedMetadata (\<lambda>v. []) (Some a) ''x-'' w2 = (Ret r, w3)"
    "OnlyPrefixHeadersProvider ''x-'' 0 w = (Ret o4, w4)" "ExcludePrefixHeadersProvider ''x-'' 0 w = (Ret o5, w5)"
    by (simp add: ExtractPrefixedMetadata_def OnlyPrefixHeadersProvider_def ExcludePrefixHeadersProvider_def
        FilteredHeadersProvider_def fresh_map_def new_map_def)
  have "map_of (read_map w3 r) ''k'' = Some (VString (sprint_v (\<lambda>v. []) (VInt 7)))"
    using amqp_prefixed_headers_round_trip [OF wf meta(2) out _ _ _ runs, of "[''trace'' \<mapsto> VNil]"]
    by (auto simp: read1 read2 meta arrived_def HasPrefix_def fun_eq_iff map_add_def)
  moreover have "sprint_v (\<lambda>v. []) (VInt 7) = ''7''"
    by code_simp
  ultimately show ?thesis
    using runs(1) new by (simp add: w_def [symmetric] arrived_def [symmetric])
qed

end
