(* ===== verification/Google_Publisher.thy ===== *)
theory Google_Publisher
  imports Publisher_Adapter
begin

text \<open>
  \<open>google/publisher.go\<close>. The Pub/Sub client is a record of functions on the environment; publishing
  and waiting for the server's ID are one call of it. The message given to the client is owned by
  one publish and threaded as a value.
\<close>

section \<open>Options\<close>

type_synonym 'e attributes_provider = "addr \<Rightarrow> ('e, (string, string) gomap) act"

type_synonym 'e ordering_key_provider = "addr \<Rightarrow> ('e, string) act"

definition MetadataAsAttributes :: "(gval \<Rightarrow> string) \<Rightarrow> 'e attributes_provider" where
  "MetadataAsAttributes fv msg w = (Ret (range_into (convert_entry (sprint_v fv)) (meta_of w msg) []), w)"

record 'e google_publisher_options =
  orderingKeyProvider :: "'e ordering_key_provider option"
  attributesProvider :: "'e attributes_provider option"

type_synonym 'e google_publisher_option = "'e google_publisher_options \<Rightarrow> 'e google_publisher_options"

definition WithOrderingKeyProvider :: "'e ordering_key_provider option \<Rightarrow> 'e google_publisher_option" where
  "WithOrderingKeyProvider f opts = opts\<lparr>orderingKeyProvider := f\<rparr>"

definition WithAttributesProvider :: "'e attributes_provider option \<Rightarrow> 'e google_publisher_option" where
  "WithAttributesProvider f opts = opts\<lparr>attributesProvider := f\<rparr>"

section \<open>Topics\<close>

record ps_message =
  ps_ID :: string
  ps_Data :: string
  ps_OrderingKey :: string
  ps_Attributes :: "(string, string) gomap"

text \<open>
  The client: \<open>topic\<close> and whether ordering is enabled name one of its publishers. \<open>Publish\<close> stands for
  \<open>publisher.Publish(ctx, message)\<close> followed by \<open>r.Get(ctx)\<close>.
\<close>

record 'e pubsub_client =
  ps_Publish :: "string \<Rightarrow> bool \<Rightarrow> ctx \<Rightarrow> ps_message \<Rightarrow> 'e \<Rightarrow> (gerr + string) \<times> 'e"
  ps_ResumePublish :: "string \<Rightarrow> bool \<Rightarrow> string \<Rightarrow> 'e \<Rightarrow> 'e"
  ps_Stop :: "string \<Rightarrow> bool \<Rightarrow> 'e \<Rightarrow> 'e"

record 'e topic_publisher =
  tp_client :: "'e pubsub_client"
  tp_topic :: string
  EnableMessageOrdering :: bool

definition TopicPublisher_Close :: "'e topic_publisher \<Rightarrow> ('e, gerr option) act" where
  "TopicPublisher_Close p =
     on_env (\<lambda>e. (None, ps_Stop (tp_client p) (tp_topic p) (EnableMessageOrdering p) e))"

definition readonly_id_error :: gerr where
  "readonly_id_error = ErrNew (''message ID is readonly with the google publisher implementation. ''
     @ ''ID is generated by the server'')"

definition TopicPublisher_send ::
  "'e topic_publisher \<Rightarrow> ctx \<Rightarrow> ps_message \<Rightarrow> 'e \<Rightarrow> (gerr option \<times> ps_message) \<times> 'e"
where
  "TopicPublisher_send p c message e =
     (if ps_ID message \<noteq> [] then ((Some readonly_id_error, message), e)
      else case ps_Publish (tp_client p) (tp_topic p) (EnableMessageOrdering p) c message e of
        (Inl err, e1) \<Rightarrow>
          ((Some err, message),
           if ps_OrderingKey message \<noteq> []
           then ps_ResumePublish (tp_client p) (tp_topic p) (EnableMessageOrdering p) (ps_OrderingKey message) e1
           else e1)
      | (Inr serverID, e1) \<Rightarrow> ((None, message\<lparr>ps_ID := serverID\<rparr>), e1))"

definition TopicPublisher_Publish ::
  "'e topic_publisher \<Rightarrow> ctx \<Rightarrow> ps_message \<Rightarrow> ('e, gerr option \<times> ps_message) act"
where
  "TopicPublisher_Publish p c message = on_env (TopicPublisher_send p c message)"

definition TopicPublisher_GetMessageID :: "'e topic_publisher \<Rightarrow> ps_message \<Rightarrow> string" where
  "TopicPublisher_GetMessageID p message = ps_ID message"

definition topic_impl :: "(ps_message, 'e topic_publisher, 'e) impl" where
  "topic_impl = \<lparr>impl_Publish = TopicPublisher_Publish, GetMessageID = TopicPublisher_GetMessageID,
                 impl_Close = TopicPublisher_Close\<rparr>"

section \<open>The publisher\<close>

definition google_payload_error :: gerr where
  "google_payload_error = ErrNew ''payload must be []byte. Use a middleware to convert the payload to []byte''"

definition google_marshaller :: "'e google_publisher_options \<Rightarrow> addr \<Rightarrow> ('e, gerr + ps_message) act" where
  "google_marshaller options msg w =
     (case Payload (get_msg w msg) of
        VBytes body \<Rightarrow>
          (let msgImpl = \<lparr>ps_ID = ID (get_msg w msg), ps_Data = body, ps_OrderingKey = [], ps_Attributes = []\<rparr>
           in andThen (case orderingKeyProvider options of
                  None \<Rightarrow> (\<lambda>w. (Ret msgImpl, w))
                | Some f \<Rightarrow> andThen (f msg) (\<lambda>k w. (Ret (msgImpl\<lparr>ps_OrderingKey := k\<rparr>), w))) (\<lambda>msgImpl.
                andThen (case attributesProvider options of
                  None \<Rightarrow> (\<lambda>w. (Ret msgImpl, w))
                | Some f \<Rightarrow> andThen (f msg) (\<lambda>a w. (Ret (msgImpl\<lparr>ps_Attributes := a\<rparr>), w))) (\<lambda>msgImpl w.
                  (Ret (Inr msgImpl), w))) w)
      | _ \<Rightarrow> (Ret (Inl google_payload_error), w))"

definition google_config ::
  "'e pubsub_client \<Rightarrow> 'e routing_func \<Rightarrow> 'e google_publisher_options
     \<Rightarrow> (ps_message, 'e topic_publisher, 'e) mp_config"
where
  "google_config c routingFunc options =
     \<lparr>RoutingFunc = routingFunc,
      MessageMarshaller = google_marshaller options,
      GetDestinationPublisher = (\<lambda>d w. (Ret (Inr \<lparr>tp_client = c, tp_topic = d,
        EnableMessageOrdering = (orderingKeyProvider options \<noteq> None)\<rparr>), w))\<rparr>"

definition NewGooglePublisher ::
  "(gval \<Rightarrow> string) \<Rightarrow> 'e pubsub_client option \<Rightarrow> 'e routing_func option \<Rightarrow> 'e google_publisher_option list
     \<Rightarrow> gerr + (ps_message, 'e topic_publisher, 'e) mp_config"
where
  "NewGooglePublisher fv c routingFunc opts =
     (case c of
        None \<Rightarrow> Inl (ErrNew ''client is required'')
      | Some c \<Rightarrow> (case routingFunc of
          None \<Rightarrow> Inl (ErrNew ''routing function is required'')
        | Some routingFunc \<Rightarrow>
            (let options = fold (\<lambda>opt. opt) opts
                   \<lparr>orderingKeyProvider = None, attributesProvider = Some (MetadataAsAttributes fv)\<rparr>
             in Inr (google_config c routingFunc options))))"

text \<open>\<open>Publisher.Publish\<close> and \<open>Publisher.Close\<close>.\<close>

definition Google_Publish ::
  "(ps_message, 'e topic_publisher, 'e) mp_config \<Rightarrow> addr \<Rightarrow> 'e topic_publisher mp_state \<Rightarrow> 'e world
     \<Rightarrow> (gerr option res \<times> 'e world) \<times> 'e topic_publisher mp_state"
where
  "Google_Publish p message = MessagePublisher_Publish p topic_impl message"

definition Google_Close ::
  "'e topic_publisher mp_state \<Rightarrow> 'e world \<Rightarrow> (gerr option res \<times> 'e world) \<times> 'e topic_publisher mp_state"
where
  "Google_Close = MessagePublisher_Close topic_impl"

section \<open>Properties\<close>

text \<open>An ordering key function that only reads the message.\<close>

definition pure_key :: "('e world \<Rightarrow> addr \<Rightarrow> string) \<Rightarrow> 'e ordering_key_provider" where
  "pure_key f msg w = (Ret (f w msg), w)"

definition key_of :: "('e world \<Rightarrow> addr \<Rightarrow> string) option \<Rightarrow> 'e world \<Rightarrow> addr \<Rightarrow> string" where
  "key_of f w m = (case f of None \<Rightarrow> [] | Some f \<Rightarrow> f w m)"

definition google_options ::
  "(gval \<Rightarrow> string) \<Rightarrow> ('e world \<Rightarrow> addr \<Rightarrow> string) option \<Rightarrow> 'e google_publisher_options"
where
  "google_options fv f =
     \<lparr>orderingKeyProvider = map_option pure_key f, attributesProvider = Some (MetadataAsAttributes fv)\<rparr>"

definition google_marshal ::
  "(gval \<Rightarrow> string) \<Rightarrow> ('e world \<Rightarrow> addr \<Rightarrow> string) option \<Rightarrow> 'e world \<Rightarrow> addr \<Rightarrow> gerr + ps_message"
where
  "google_marshal fv f w m =
     (case Payload (get_msg w m) of
        VBytes body \<Rightarrow> Inr \<lparr>ps_ID = ID (get_msg w m), ps_Data = body, ps_OrderingKey = key_of f w m,
          ps_Attributes = range_into (convert_entry (sprint_v fv)) (meta_of w m) []\<rparr>
      | _ \<Rightarrow> Inl google_payload_error)"

lemma google_marshaller_pure:
  "google_marshaller (google_options fv f) m w = (Ret (google_marshal fv f w m), w)"
  by (cases f; cases "Payload (get_msg w m)")
    (simp_all add: google_marshaller_def google_options_def google_marshal_def andThen_def pure_key_def
      key_of_def MetadataAsAttributes_def)

definition google_topic ::
  "'e pubsub_client \<Rightarrow> ('e world \<Rightarrow> addr \<Rightarrow> string) option \<Rightarrow> string \<Rightarrow> 'e topic_publisher"
where
  "google_topic c f d = \<lparr>tp_client = c, tp_topic = d, EnableMessageOrdering = (f \<noteq> None)\<rparr>"

lemma google_options_ordering [simp]: "(\<exists>y. orderingKeyProvider (google_options fv f) = Some y) \<longleftrightarrow> (\<exists>y. f = Some y)"
  by (cases f) (simp_all add: google_options_def)

interpretation google: publisher_adapter "google_config c routing (google_options fv f)" topic_impl
  "google_marshal fv f" "google_topic c f" TopicPublisher_send
  for c routing fv f
  by unfold_locales
    (simp_all add: google_config_def google_marshaller_pure topic_impl_def TopicPublisher_Publish_def
      google_topic_def)

text \<open>What one publish does, for every payload and ID.\<close>

lemma google_publish_cases:
  assumes "routing m w = (Ret (Inr d), w1)" "google.own_cache c f s" "Payload (get_msg w1 m) = VBytes body"
  shows "\<exists>s'. google.own_cache c f s' \<and>
     Google_Publish (google_config c routing (google_options fv f)) m s w =
       ((if ID (get_msg w1 m) \<noteq> [] then (Ret (Some readonly_id_error), w1)
         else case TopicPublisher_send (google_topic c f d) (Context w1 m)
                \<lparr>ps_ID = [], ps_Data = body, ps_OrderingKey = key_of f w1 m,
                 ps_Attributes = range_into (convert_entry (sprint_v fv)) (meta_of w1 m) []\<rparr> (env w1) of
             ((Some e, t), v) \<Rightarrow> (Ret (Some e), w1\<lparr>env := v\<rparr>)
           | ((None, t), v) \<Rightarrow> (Ret None, if ps_ID t = [] then w1\<lparr>env := v\<rparr>
               else upd_msg m (\<lambda>x. x\<lparr>ID := ps_ID t\<rparr>) (w1\<lparr>env := v\<rparr>))), s')"
proof -
  have "RoutingFunc (google_config c routing (google_options fv f)) m w = (Ret (Inr d), w1)"
    using assms(1) by (simp add: google_config_def)
  from google.publish_outcome [OF assms(2) this] show ?thesis
  proof (elim exE conjE, goal_cases)
    case (1 s')
    have msg_id: "GetMessageID topic_impl p t = ps_ID t" for p t
      by (simp add: topic_impl_def TopicPublisher_GetMessageID_def)
    note out = 1(3) [unfolded google_marshal_def assms(3) msg_id, simplified]
    show ?case
    proof (cases "ID (get_msg w1 m) = []")
      case True
      with 1(1) out show ?thesis
        by (intro exI [of _ s']) (simp add: Google_Publish_def)
    next
      case False
      with 1(1) out show ?thesis
        by (intro exI [of _ s']) (simp add: Google_Publish_def TopicPublisher_send_def)
    qed
  qed
qed

text \<open>C31: A successful publish to Pub/Sub gives the message the ID the server generated, and from then on
  the message cannot be published again: its ID is no longer empty, so every further publish of it
  fails with the read-only error before it reaches the broker, and changes nothing. The same holds
  for any message that arrives with an ID, such as one received from another broker.\<close>

theorem google_publish_once:
  assumes "NewGooglePublisher fv (Some c) (Some routing) [WithOrderingKeyProvider (map_option pure_key f)] = Inr pub"
    and "\<forall>w. routing m w = (Ret (Inr d), w)" "valid_msg w m" "Payload (get_msg w m) = VBytes body"
    and "\<forall>t en k a e i e'. ps_Publish c t en k a e = (Inr i, e') \<longrightarrow> i \<noteq> []"
    and "Google_Publish pub m mp_zero w = ((Ret None, w'), s')"
  shows "ID (get_msg w m) = []
    \<and> (\<exists>i a. ps_Publish c d (f \<noteq> None) (Context w m) a (env w) = (Inr i, env w') \<and> ps_Data a = body
          \<and> ps_OrderingKey a = key_of f w m \<and> i \<noteq> [] \<and> get_msg w' m = (get_msg w m)\<lparr>ID := i\<rparr>)
    \<and> (\<exists>s''. Google_Publish pub m s' w' = ((Ret (Some readonly_id_error), w'), s''))"
proof -
  have pub: "pub = google_config c routing (google_options fv f)"
    using assms(1) by (simp add: NewGooglePublisher_def WithOrderingKeyProvider_def google_options_def)
  have route: "routing m w = (Ret (Inr d), w)" "routing m w' = (Ret (Inr d), w')" using assms(2) by blast+
  let ?a = "\<lparr>ps_ID = [], ps_Data = body, ps_OrderingKey = key_of f w m,
             ps_Attributes = range_into (convert_entry (sprint_v fv)) (meta_of w m) []\<rparr>"
  have own: "google.own_cache c f s'" and out: "(Ret None, w') =
      (if ID (get_msg w m) \<noteq> [] then (Ret (Some readonly_id_error), w)
       else case TopicPublisher_send (google_topic c f d) (Context w m) ?a (env w) of
           ((Some e, t), v) \<Rightarrow> (Ret (Some e), w\<lparr>env := v\<rparr>)
         | ((None, t), v) \<Rightarrow> (Ret None, if ps_ID t = [] then w\<lparr>env := v\<rparr>
             else upd_msg m (\<lambda>x. x\<lparr>ID := ps_ID t\<rparr>) (w\<lparr>env := v\<rparr>)))"
    using google_publish_cases [where routing = routing and w = w and ?w1.0 = w and c = c and f = f and fv = fv and m = m and s = mp_zero and body = body,
        OF route(1) google.own_cache_zero assms(4)] assms(6) unfolding pub by auto
  from out have no_id: "ID (get_msg w m) = []" by (auto split: if_splits)
  obtain r v where send: "ps_Publish c d (f \<noteq> None) (Context w m) ?a (env w) = (r, v)" by fastforce
  obtain i where r: "r = Inr i"
    using out no_id send by (cases r) (simp_all add: TopicPublisher_send_def google_topic_def)
  with assms(5) send have i: "i \<noteq> []" by blast
  have w': "w' = upd_msg m (\<lambda>x. x\<lparr>ID := i\<rparr>) (w\<lparr>env := v\<rparr>)"
    using out no_id send r i by (simp add: TopicPublisher_send_def google_topic_def)
  have valid: "valid_msg (w\<lparr>env := v\<rparr>) m" using assms(3) by (simp add: valid_msg_def)
  have after: "get_msg w' m = (get_msg w m)\<lparr>ID := i\<rparr>" "env w' = v"
    by (simp_all add: w' upd_msg_same [OF valid])
  then have "ID (get_msg w' m) \<noteq> []" "Payload (get_msg w' m) = VBytes body" using i assms(4) by simp_all
  with google_publish_cases [where routing = routing and w = w' and ?w1.0 = w' and fv = fv and m = m and body = body, OF route(2) own]
  obtain s'' where "Google_Publish pub m s' w' = ((Ret (Some readonly_id_error), w'), s'')" unfolding pub by auto
  moreover have "ps_Data ?a = body" "ps_OrderingKey ?a = key_of f w m" by simp_all
  ultimately show ?thesis using no_id send r i after by blast
qed

text \<open>A server that numbers what it gets, for the witness.\<close>

definition demo_pubsub :: "nat pubsub_client" where
  "demo_pubsub = \<lparr>ps_Publish = (\<lambda>t en k a n. (Inr (show_nat n), Suc n)), ps_ResumePublish = (\<lambda>t en k n. n),
                  ps_Stop = (\<lambda>t en n. n)\<rparr>"

theorem google_publish_once_witness:
  "let w = snd (NewMessage Background (VBytes ''b'') (start_world (3 :: nat)))
   in \<exists>pub w' s' s''. NewGooglePublisher (\<lambda>v. []) (Some demo_pubsub) (Some (ConstantDestination ''t'')) [] = Inr pub
        \<and> Google_Publish pub 0 mp_zero w = ((Ret None, w'), s') \<and> env w' = 4
        \<and> Google_Publish pub 0 s' w' = ((Ret (Some readonly_id_error), w'), s'')"
proof -
  define w where "w = snd (NewMessage Background (VBytes ''b'') (start_world (3 :: nat)))"
  then have w: "valid_msg w 0" "Payload (get_msg w 0) = VBytes ''b''" "ID (get_msg w 0) = []" "env w = 3"
    by (simp_all add: message_defs world_defs start_world_def)
  have same: "NewGooglePublisher (\<lambda>v. []) (Some demo_pubsub) (Some (ConstantDestination ''t'')) []
      = NewGooglePublisher (\<lambda>v. []) (Some demo_pubsub) (Some (ConstantDestination ''t'')) [WithOrderingKeyProvider (map_option pure_key None)]"
    by (simp add: NewGooglePublisher_def WithOrderingKeyProvider_def)
  have pub: "NewGooglePublisher (\<lambda>v. []) (Some demo_pubsub) (Some (ConstantDestination ''t''))
      [WithOrderingKeyProvider (map_option pure_key None)]
      = Inr (google_config demo_pubsub (ConstantDestination ''t'') (google_options (\<lambda>v. []) None))" (is "_ = Inr ?pub")
    by (simp add: NewGooglePublisher_def WithOrderingKeyProvider_def google_options_def)
  have route: "\<forall>w :: nat world. ConstantDestination ''t'' 0 w = (Ret (Inr ''t''), w)"
    by (simp add: ConstantDestination_def)
  have ids: "\<forall>t en k a e i e'. ps_Publish demo_pubsub t en k a e = (Inr i, e') \<longrightarrow> i \<noteq> []"
    by (auto simp: demo_pubsub_def)
  obtain r w' s' where run: "Google_Publish ?pub 0 mp_zero w = ((r, w'), s')" by (metis prod.exhaust)
  have r: "r = Ret None"
    using google_publish_cases [where routing = "ConstantDestination ''t''" and w = w and ?w1.0 = w and c = demo_pubsub and f = None and fv = "\<lambda>v. []" and m = 0 and s = mp_zero and body = "''b''",
        OF route [rule_format, of w] google.own_cache_zero w(2)] run w
    by (auto simp: TopicPublisher_send_def google_topic_def demo_pubsub_def)
  from google_publish_once [OF pub route w(1,2) ids run [unfolded r]] w(4) run r same pub
  have "env w' = 4" "\<exists>s''. Google_Publish ?pub 0 s' w' = ((Ret (Some readonly_id_error), w'), s'')"
    by (auto simp: demo_pubsub_def)
  with run r same pub show ?thesis unfolding Let_def w_def [symmetric] by auto
qed

end
