(* ===== verification/Go_Strconv.thy ===== *)
theory Go_Strconv
  imports Go_Values
begin

text \<open>
  What the repository uses of Go's \<open>strconv\<close>: \<open>ParseInt(s, 10, 64)\<close> and \<open>ParseBool(s)\<close>, with \<open>None\<close>
  for an error (the callers only test it), and that they undo the rendering of integers and
  booleans by \<open>fmt\<close>. \<open>ParseFloat\<close> is a parameter where it is used: no theorem depends on how decimal
  text is rounded to a float.
\<close>

text \<open>
  An optional sign, then decimal digits only; syntax and range errors. Base 10 is given
  explicitly, so there are no underscores and no base prefixes.
\<close>

definition parse_signed :: "bool \<Rightarrow> string \<Rightarrow> 64 word option" where
  "parse_signed neg s =
     (case parse_nat s of
        None \<Rightarrow> None
      | Some n \<Rightarrow>
          if neg then (if n > 2 ^ 63 then None else Some (word_of_int (- int n)))
          else (if n \<ge> 2 ^ 63 then None else Some (word_of_int (int n))))"

fun ParseInt :: "string \<Rightarrow> 64 word option" where
  "ParseInt [] = None"
| "ParseInt (c # s) =
     (if c = CHR ''+'' then parse_signed False s
      else if c = CHR ''-'' then parse_signed True s
      else parse_signed False (c # s))"

definition ParseBool :: "string \<Rightarrow> bool option" where
  "ParseBool s =
     (if s \<in> set [''1'', ''t'', ''T'', ''true'', ''TRUE'', ''True''] then Some True
      else if s \<in> set [''0'', ''f'', ''F'', ''false'', ''FALSE'', ''False''] then Some False
      else None)"

lemma sint_word_small: "- (2 ^ 63) \<le> i \<Longrightarrow> i < 2 ^ 63 \<Longrightarrow> sint (word_of_int i :: 64 word) = i"
  by (simp add: sint_sbintrunc' signed_take_bit_int_eq_self)

lemma parse_signed_bounds:
  "parse_signed neg s = Some i \<Longrightarrow> \<exists>n. parse_nat s = Some n \<and> sint i = (if neg then - int n else int n)"
proof -
  assume parsed: "parse_signed neg s = Some i"
  then obtain n where n: "parse_nat s = Some n" by (auto simp: parse_signed_def split: option.splits)
  from parsed n have "i = word_of_int (if neg then - int n else int n)"
    and "- (2 ^ 63) \<le> (if neg then - int n else int n)" "(if neg then - int n else int n) < 2 ^ 63"
    by (auto simp: parse_signed_def split: if_splits)
  with n show ?thesis by (simp only: sint_word_small) blast
qed

lemma not_sign: "is_digit c \<Longrightarrow> c \<noteq> CHR ''+'' \<and> c \<noteq> CHR ''-''"
  by (auto simp: is_digit_def)

lemma parse_signed_show_nat:
  "parse_signed neg (show_nat n) =
     (if neg then (if n > 2 ^ 63 then None else Some (word_of_int (- int n)))
      else (if n \<ge> 2 ^ 63 then None else Some (word_of_int (int n))))"
  by (simp add: parse_signed_def)

lemma ParseInt_show_nat: "n < 2 ^ 63 \<Longrightarrow> ParseInt (show_nat n) = Some (word_of_int (int n))"
proof (cases "show_nat n")
  case (Cons c s)
  assume "n < 2 ^ 63"
  moreover from Cons have "is_digit c" using show_nat_digits [of c n] by simp
  ultimately show ?thesis using Cons not_sign [of c] parse_signed_show_nat [of False n] by simp
qed simp

text \<open>\<open>%v\<close> of an integer, parsed, is the integer.\<close>

lemma ParseInt_show_int [simp]: "ParseInt (show_int (sint w)) = Some (w :: 64 word)"
proof (cases "sint w < 0")
  case True
  have "- (2 ^ 63) \<le> sint w" using sint_ge [of w] by simp
  then have "nat (- sint w) \<le> 2 ^ 63" by (simp add: nat_le_iff)
  with True show ?thesis by (simp add: show_int_def parse_signed_show_nat not_less)
next
  case False
  have "sint w < 2 ^ 63" using sint_lt [of w] by simp
  with False have "nat (sint w) < 2 ^ 63" by (simp add: nat_less_iff)
  with False show ?thesis by (simp add: show_int_def ParseInt_show_nat)
qed

lemma ParseInt_letter: "\<not> is_digit c \<Longrightarrow> c \<noteq> CHR ''+'' \<Longrightarrow> c \<noteq> CHR ''-'' \<Longrightarrow> ParseInt (c # s) = None"
  by (simp add: parse_signed_def parse_nat_def)

text \<open>The strings that are integers: an optional sign and at least one digit, in the range of 64 bits.\<close>

lemma parse_digits_Some: "(\<exists>n. parse_digits acc s = Some n) \<longleftrightarrow> list_all is_digit s"
  by (induction acc s rule: parse_digits.induct) auto

lemma parse_nat_Some: "(\<exists>n. parse_nat s = Some n) \<longleftrightarrow> s \<noteq> [] \<and> list_all is_digit s"
  using parse_digits_Some [of 0 s] by (simp add: parse_nat_def)

definition split_sign :: "string \<Rightarrow> bool \<times> string" where
  "split_sign s =
     (if s \<noteq> [] \<and> hd s \<in> {CHR ''+'', CHR ''-''} then (hd s = CHR ''-'', tl s) else (False, s))"

lemma ParseInt_split: "ParseInt s = parse_signed (fst (split_sign s)) (snd (split_sign s))"
proof (cases s)
  case Nil
  then show ?thesis by (simp add: split_sign_def parse_signed_def parse_nat_def)
next
  case (Cons c t)
  then show ?thesis by (auto simp: split_sign_def)
qed

lemma ParseInt_iff:
  "(\<exists>i. ParseInt s = Some i) \<longleftrightarrow> (let (neg, ds) = split_sign s in
     ds \<noteq> [] \<and> list_all is_digit ds \<and> (if neg then the (parse_nat ds) \<le> 2 ^ 63 else the (parse_nat ds) < 2 ^ 63))"
proof -
  obtain neg ds where sp: "split_sign s = (neg, ds)" by fastforce
  show ?thesis
  proof (cases "parse_nat ds")
    case None
    with sp parse_nat_Some [of ds] show ?thesis by (auto simp: ParseInt_split parse_signed_def)
  next
    case (Some n)
    with sp parse_nat_Some [of ds] show ?thesis by (auto simp: ParseInt_split parse_signed_def not_less not_le)
  qed
qed

text \<open>The words for booleans are not integers, apart from the two digits.\<close>

lemma ParseInt_bool_words [simp]:
  "ParseInt ''true'' = None" "ParseInt ''false'' = None"
  by (rule ParseInt_letter; simp add: is_digit_def)+

lemma ParseBool_words [simp]: "ParseBool ''true'' = Some True" "ParseBool ''false'' = Some False"
  by (simp_all add: ParseBool_def)


declare ParseInt.simps [simp del]

end
