(* ===== verification/Google_Subscriber.thy ===== *)
theory Google_Subscriber
  imports Google_Publisher Dispatcher Go_Strconv
begin

text \<open>
  \<open>google/subscriber.go\<close>. The Pub/Sub client is a record: \<open>sub_Receive\<close> is its \<open>Receive\<close> on a
  subscription with its settings, which gets the callback of this package as an argument; a
  received message carries the handle its \<open>Ack\<close> and \<open>Nack\<close> act through. The client's settings are
  passed on unread, so their type is a variable. \<open>pf\<close> is \<open>strconv.ParseFloat(v, 64)\<close>, \<open>None\<close> for an
  error.
\<close>

section \<open>Options and constructor\<close>

definition DefaultProcessingTimeout :: "64 word" where
  "DefaultProcessingTimeout = 600 * 1000000000"

record 's google_subscriber_options =
  google_processingTimeout :: "64 word"
  receiveSettings :: 's
  parseAttributes :: bool

type_synonym 's google_subscriber_option = "'s google_subscriber_options \<Rightarrow> 's google_subscriber_options"

definition Google_WithProcessingTimeout :: "64 word \<Rightarrow> 's google_subscriber_option" where
  "Google_WithProcessingTimeout timeout opts = opts\<lparr>google_processingTimeout := timeout\<rparr>"

definition WithReceiveSettings :: "'s \<Rightarrow> 's google_subscriber_option" where
  "WithReceiveSettings settings opts = opts\<lparr>receiveSettings := settings\<rparr>"

definition WithParseAttributes :: "bool \<Rightarrow> 's google_subscriber_option" where
  "WithParseAttributes b opts = opts\<lparr>parseAttributes := b\<rparr>"

definition ErrSubscriptionNotFound :: gerr where
  "ErrSubscriptionNotFound = ErrVar ''google.ErrSubscriptionNotFound''"

record ps_received = ps_message +
  ps_handle :: string

record ('s, 'e) pubsub_receiver =
  sub_Receive :: "string \<Rightarrow> 's \<Rightarrow> ctx \<Rightarrow> (ctx \<Rightarrow> ps_received \<Rightarrow> ('e, unit) act) \<Rightarrow> ('e, gerr option) act"
  rcv_Ack :: "string \<Rightarrow> 'e \<Rightarrow> 'e"
  rcv_Nack :: "string \<Rightarrow> 'e \<Rightarrow> 'e"
  status_NotFound :: "gerr \<Rightarrow> bool" \<comment> \<open>\<open>status.Code(err) == codes.NotFound\<close>\<close>
  gcp_Error :: "gerr \<Rightarrow> string" \<comment> \<open>the text of an error the client returns\<close>

record ('s, 'e) google_subscriber =
  gs_client :: "('s, 'e) pubsub_receiver"
  gs_subscription :: string
  gs_options :: "'s google_subscriber_options"

text \<open>\<open>zero\<close> is the zero value of the client's settings.\<close>

definition NewGoogleSubscriber ::
  "'s \<Rightarrow> ('s, 'e) pubsub_receiver option \<Rightarrow> string \<Rightarrow> 's google_subscriber_option list
     \<Rightarrow> gerr + ('s, 'e) google_subscriber"
where
  "NewGoogleSubscriber zero c subscription opts =
     (case c of
        None \<Rightarrow> Inl (ErrNew ''client is required'')
      | Some c \<Rightarrow>
          (let options = fold (\<lambda>opt. opt) opts
                 \<lparr>google_processingTimeout = DefaultProcessingTimeout, receiveSettings = zero, parseAttributes = False\<rparr>
           in Inr \<lparr>gs_client = c, gs_subscription = subscription, gs_options = options\<rparr>))"

section \<open>Messages\<close>

definition parseAsPrimitiveType :: "(string \<Rightarrow> 64 word option) \<Rightarrow> string \<Rightarrow> gval" where
  "parseAsPrimitiveType pf v =
     (case ParseInt v of
        Some i \<Rightarrow> VInt64 i
      | None \<Rightarrow> (case ParseBool v of
          Some b \<Rightarrow> VBool b
        | None \<Rightarrow> (case pf v of
            Some f \<Rightarrow> VFloat64 f
          | None \<Rightarrow> VString v)))"

text \<open>The value of one attribute as metadata: the body of the loop of \<open>toMessage\<close>.\<close>

definition attribute_value ::
  "(string \<Rightarrow> 64 word option) \<Rightarrow> ('s, 'e) google_subscriber \<Rightarrow> string \<Rightarrow> gval"
where
  "attribute_value pf s v =
     (if parseAttributes (gs_options s) then parseAsPrimitiveType pf v else VString v)"

definition google_toMessage ::
  "(string \<Rightarrow> 64 word option) \<Rightarrow> ('s, 'e) google_subscriber \<Rightarrow> ctx \<Rightarrow> ps_received \<Rightarrow> 'e world \<Rightarrow> addr \<times> 'e world"
where
  "google_toMessage pf s c pubMsg w =
     (let (metadata, w1) = new_map (range_into (convert_entry (attribute_value pf s)) (ps_Attributes pubMsg) []) w;
          (msg, w2) = NewMessage c (VBytes (ps_Data pubMsg)) w1
      in (msg, upd_msg msg (\<lambda>m. m\<lparr>ID := ps_ID pubMsg, Metadata := Some metadata\<rparr>) w2))"

section \<open>Receiving\<close>

definition google_dispatcher ::
  "('s, 'e) google_subscriber \<Rightarrow> (addr \<Rightarrow> ('e, gerr option) act) \<Rightarrow> 'e dispatcher"
where
  "google_dispatcher s handler =
     NewDispatcher handler
       \<lparr>MaxInFlight = 0, ProcessingTimeout = sint (google_processingTimeout (gs_options s)),
        OnAckError = None, OnNackError = None\<rparr>"

definition google_delivery_of :: "('s, 'e) google_subscriber \<Rightarrow> ps_received \<Rightarrow> addr \<Rightarrow> 'e delivery" where
  "google_delivery_of s pubMsg msg =
     \<lparr>dl_Message = msg,
      dl_Ack = (\<lambda>_. on_env (\<lambda>e. (None, rcv_Ack (gs_client s) (ps_handle pubMsg) e))),
      dl_Nack = (\<lambda>_. on_env (\<lambda>e. (None, rcv_Nack (gs_client s) (ps_handle pubMsg) e)))\<rparr>"

text \<open>The callback given to the client.\<close>

definition google_callback ::
  "(string \<Rightarrow> 64 word option) \<Rightarrow> ('s, 'e) google_subscriber \<Rightarrow> (addr \<Rightarrow> ('e, gerr option) act)
     \<Rightarrow> ctx \<Rightarrow> ps_received \<Rightarrow> ('e, unit) act"
where
  "google_callback pf s handler c pubMsg w =
     (let (msg, w1) = google_toMessage pf s c pubMsg w
      in Handle (google_dispatcher s handler) (google_delivery_of s pubMsg msg) w1)"

definition receive_error :: "('s, 'e) google_subscriber \<Rightarrow> gerr option \<Rightarrow> gerr option" where
  "receive_error s err =
     (case err of
        None \<Rightarrow> None
      | Some e \<Rightarrow>
          if status_NotFound (gs_client s) e
          then Some (ErrWrap (''subscription does not exist: '' @ gs_subscription s @ '': '' @ gcp_Error (gs_client s) e)
                             [ErrSubscriptionNotFound, e])
          else Some e)"

definition Google_Receive ::
  "(string \<Rightarrow> 64 word option) \<Rightarrow> ('s, 'e) google_subscriber \<Rightarrow> ctx \<Rightarrow> (addr \<Rightarrow> ('e, gerr option) act)
     \<Rightarrow> ('e, gerr option) act"
where
  "Google_Receive pf s c handler =
     andThen (sub_Receive (gs_client s) (gs_subscription s) (receiveSettings (gs_options s)) c
                (google_callback pf s handler))
       (\<lambda>err w. (Ret (receive_error s err), w))"

lemma google_toMessage_facts:
  assumes "google_toMessage pf s c p w = (msg, w1)"
  shows "msg = length (heap_msgs w)" and "valid_msg w1 msg"
    and "get_msg w1 msg = \<lparr>ID = ps_ID p, Metadata = Some (length (heap_maps w)), Payload = VBytes (ps_Data p), msg_ctx = c\<rparr>"
    and "meta_of w1 msg = range_into (convert_entry (attribute_value pf s)) (ps_Attributes p) []"
    and "env w1 = env w" "clock w1 = clock w" "cancelled w1 = cancelled w" "tokens w1 = tokens w"
  using assms by (auto simp: google_toMessage_def message_defs world_defs Let_def nth_append)


section \<open>Attributes\<close>

lemmas parse_defs = parseAsPrimitiveType_def ParseInt_split

lemma parse_shown_int: "parseAsPrimitiveType pf (show_int (sint w)) = VInt64 w"
  by (simp add: parseAsPrimitiveType_def)

lemma parse_shown_bool: "parseAsPrimitiveType pf (if b then ''true'' else ''false'') = VBool b"
  by (simp add: parseAsPrimitiveType_def)

text \<open>Printing a parsed attribute and parsing it again gives the same value, unless it is a float.\<close>

lemma parse_stable:
  assumes "parseAsPrimitiveType pf v = x" "\<forall>f. x \<noteq> VFloat64 f"
  shows "parseAsPrimitiveType pf (sprint_v fv x) = x"
proof (cases "ParseInt v")
  case None
  show ?thesis
  proof (cases "ParseBool v")
    case None
    with assms \<open>ParseInt v = None\<close> show ?thesis by (auto simp: parseAsPrimitiveType_def split: option.splits)
  next
    case (Some b)
    with assms(1) None have "x = VBool b" by (simp add: parseAsPrimitiveType_def)
    then show ?thesis using parse_shown_bool [of pf b] by simp
  qed
next
  case (Some i)
  with assms(1) have "x = VInt64 i" by (simp add: parseAsPrimitiveType_def)
  then show ?thesis by (simp add: parse_shown_int)
qed

interpretation google_attributes: key_transport "convert_entry (sprint_v fv)" "\<lambda>v. v"
  "convert_entry (attribute_value pf s)" "\<lambda>v. attribute_value pf s (sprint_v fv v)" for fv pf s
  by unfold_locales (auto simp: entry_iffs)

lemma google_transported:
  assumes "wf_map meta" "wf_map (ps_Attributes p)"
    and "map_of (ps_Attributes p) = map_of (range_into (convert_entry (sprint_v fv)) meta [])"
    and "google_toMessage pf s c p w = (msg, w1)"
  shows "map_of (meta_of w1 msg) = map_option (\<lambda>v. attribute_value pf s (sprint_v fv v)) \<circ> map_of meta"
  unfolding google_toMessage_facts(4) [OF assms(4)]
proof (rule google_attributes.transported [where other = Map.empty])
  show "map_of (ps_Attributes p) = Map.empty ++ (map_option (\<lambda>v. v) \<circ> map_of (range_into (convert_entry (sprint_v fv)) meta []))"
    using assms(3) by (simp add: option.map_ident o_def)
qed (use assms(1,2) in simp_all)



text \<open>A client on which nothing happens, a subscriber, and its received message, for the witnesses.\<close>

definition demo_receiver :: "(unit, string list) pubsub_receiver" where
  "demo_receiver =
     \<lparr>sub_Receive = (\<lambda>sub st c cb. andThen (cb c \<lparr>ps_ID = ''1'', ps_Data = ''b'', ps_OrderingKey = [],
          ps_Attributes = [(''n'', ''-7'')], ps_handle = ''h1''\<rparr>) (\<lambda>_ w. (Ret (Some (ErrNew ''gone'')), w))),
      rcv_Ack = (\<lambda>h l. l @ [''ack'', h]), rcv_Nack = (\<lambda>h l. l @ [''nack'', h]),
      status_NotFound = (\<lambda>e. e = ErrNew ''gone''), gcp_Error = (\<lambda>e. [])\<rparr>"

definition demo_google :: "bool \<Rightarrow> (unit, string list) google_subscriber" where
  "demo_google b = \<lparr>gs_client = demo_receiver, gs_subscription = ''sub'',
     gs_options = \<lparr>google_processingTimeout = DefaultProcessingTimeout, receiveSettings = (), parseAttributes = b\<rparr>\<rparr>"

definition demo_received :: ps_received where
  "demo_received = \<lparr>ps_ID = ''1'', ps_Data = ''b'', ps_OrderingKey = [], ps_Attributes = [(''n'', ''-7'')], ps_handle = ''h1''\<rparr>"

lemmas demo_google_defs = demo_google_def demo_receiver_def demo_received_def


text \<open>A message that was received with parsed attributes and holds no float can be published again
  and received any number of times: the types and values of its metadata no longer change. (A float
  with an integral value prints without a fraction, and is an integer the second time.)\<close>

theorem google_relay_stable:
  assumes "parseAttributes (gs_options s)" "parseAttributes (gs_options s')"
    and "wf_map (ps_Attributes p)" "wf_map (ps_Attributes p')"
    and "google_toMessage pf s c p w = (m, w1)"
    and "\<forall>k f. map_of (meta_of w1 m) k \<noteq> Some (VFloat64 f)"
    and "google_marshal fv key w1 m = Inr t"
    and "map_of (ps_Attributes p') = map_of (ps_Attributes t)"
    and "google_toMessage pf s' c' p' w2 = (m', w3)"
  shows "map_of (meta_of w3 m') = map_of (meta_of w1 m)
    \<and> (\<forall>k v. map_of (meta_of w1 m) k = Some v \<longrightarrow> dyn_type v \<in> {Some TInt64, Some TBool, Some TString})"
proof -
  have meta: "meta_of w1 m = range_into (convert_entry (parseAsPrimitiveType pf)) (ps_Attributes p) []"
    using google_toMessage_facts(4) [OF assms(5)] assms(1) by (simp add: attribute_value_def [abs_def])
  then have wf: "wf_map (meta_of w1 m)" by simp
  have from_text: "\<exists>x. parseAsPrimitiveType pf x = v" if "map_of (meta_of w1 m) k = Some v" for k v
    using that assms(3) by (auto simp: meta map_of_convert_entry)
  have "ps_Attributes t = range_into (convert_entry (sprint_v fv)) (meta_of w1 m) []"
    using assms(7) by (auto simp: google_marshal_def split: gval.splits)
  with google_transported [OF wf assms(4) _ assms(9), of fv] assms(8)
  have again: "map_of (meta_of w3 m') = map_option (\<lambda>v. attribute_value pf s' (sprint_v fv v)) \<circ> map_of (meta_of w1 m)"
    by simp
  have same: "map_of (meta_of w3 m') k = map_of (meta_of w1 m) k" for k
  proof (cases "map_of (meta_of w1 m) k")
    case None
    then show ?thesis by (simp add: again)
  next
    case (Some v)
    then obtain x where "parseAsPrimitiveType pf x = v" using from_text by blast
    moreover have "\<forall>f. v \<noteq> VFloat64 f" using assms(6) Some by blast
    ultimately have "parseAsPrimitiveType pf (sprint_v fv v) = v" by (rule parse_stable)
    with Some assms(2) show ?thesis by (simp add: again attribute_value_def)
  qed
  have "dyn_type v \<in> {Some TInt64, Some TBool, Some TString}" if "map_of (meta_of w1 m) k = Some v" for k v
    using from_text [OF that] that assms(6) by (auto simp: parseAsPrimitiveType_def split: option.splits)
  with same show ?thesis by auto
qed


theorem google_relay_stable_witness:
  "let (m, w1) = google_toMessage (\<lambda>v. None) (demo_google True) Background demo_received (start_world []);
       (m', w3) = google_toMessage (\<lambda>v. None) (demo_google True) Background demo_received w1
   in map_of (meta_of w3 m') = map_of (meta_of w1 m) \<and> map_of (meta_of w1 m) ''n'' = Some (VInt64 (- 7))"
proof -
  let ?s = "demo_google True"
  have shown: "sprint_v (\<lambda>v. []) (VInt64 (- 7)) = ''-7''" by code_simp
  have parse: "parseAsPrimitiveType (\<lambda>v. None) ''-7'' = VInt64 (- 7)" "parseAttributes (gs_options ?s)"
    using parse_shown_int [of "\<lambda>v. None" "- 7"] shown by (simp_all add: demo_google_def)
  have wf: "wf_map (ps_Attributes demo_received)" by (simp add: demo_received_def)
  obtain m w1 where run: "google_toMessage (\<lambda>v. None) ?s Background demo_received (start_world []) = (m, w1)" by fastforce
  obtain m' w3 where again: "google_toMessage (\<lambda>v. None) ?s Background demo_received w1 = (m', w3)" by fastforce
  have meta: "meta_of w1 m = [(''n'', VInt64 (- 7))]" "Payload (get_msg w1 m) = VBytes ''b''"
    using google_toMessage_facts(3,4) [OF run] parse by (simp_all add: attribute_value_def convert_entry_def demo_received_def)
  obtain t where t: "google_marshal (\<lambda>v. []) None w1 m = Inr t" "ps_Attributes t = [(''n'', ''-7'')]"
    using shown by (auto simp: google_marshal_def meta convert_entry_def)
  have "map_of (meta_of w3 m') = map_of (meta_of w1 m)"
    using google_relay_stable [OF parse(2,2) wf wf run _ t(1) _ again] t(2) by (simp add: meta demo_received_def)
  with run again meta show ?thesis by simp
qed

text \<open>C32: What a parsed attribute becomes: an \<open>int64\<close> of the number it writes exactly if it is an optional
  sign and decimal digits in the range of 64 bits (so \<open>0\<close> and \<open>1\<close> are integers, not booleans, and a
  longer number is not an integer); otherwise a boolean for one of the ten words; otherwise a float
  if it parses as one, and else the text itself. There is no other outcome.\<close>

theorem attribute_types:
  "((\<exists>i. parseAsPrimitiveType pf v = VInt64 i) \<longleftrightarrow>
      (let (neg, ds) = split_sign v in ds \<noteq> [] \<and> list_all is_digit ds
         \<and> (if neg then the (parse_nat ds) \<le> 2 ^ 63 else the (parse_nat ds) < 2 ^ 63)))
   \<and> (case parseAsPrimitiveType pf v of
        VInt64 i \<Rightarrow> sint i = (let (neg, ds) = split_sign v in if neg then - int (the (parse_nat ds)) else int (the (parse_nat ds)))
      | VBool b \<Rightarrow> v \<in> set (if b then [''t'', ''T'', ''true'', ''TRUE'', ''True''] else [''f'', ''F'', ''false'', ''FALSE'', ''False''])
      | VFloat64 f \<Rightarrow> ParseInt v = None \<and> ParseBool v = None \<and> pf v = Some f
      | VString x \<Rightarrow> ParseInt v = None \<and> ParseBool v = None \<and> pf v = None \<and> x = v
      | _ \<Rightarrow> False)"
proof (intro conjI, goal_cases)
  case 1
  have "(\<exists>i. parseAsPrimitiveType pf v = VInt64 i) \<longleftrightarrow> (\<exists>i. ParseInt v = Some i)"
    by (auto simp: parseAsPrimitiveType_def split: option.split)
  then show ?case unfolding ParseInt_iff .
next
  case 2
  show ?case
  proof (cases "ParseInt v")
    case None
    have "ParseInt ''0'' = Some 0" "ParseInt ''1'' = Some 1"
      by (simp_all add: ParseInt.simps parse_signed_def parse_nat_def is_digit_def)
    with None have "v \<noteq> ''0''" "v \<noteq> ''1''" by auto
    then have words: "v \<in> set (if b then [''t'', ''T'', ''true'', ''TRUE'', ''True''] else [''f'', ''F'', ''false'', ''FALSE'', ''False''])"
      if "ParseBool v = Some b" for b
      using that by (auto simp: ParseBool_def split: if_splits)
    show ?thesis
    proof (cases "ParseBool v")
      case (Some b)
      with None words [OF Some] show ?thesis by (simp only: parseAsPrimitiveType_def option.case gval.case)
    qed (use None in \<open>simp add: parseAsPrimitiveType_def split: option.split\<close>)
  next
    case (Some i)
    obtain neg ds where sp: "split_sign v = (neg, ds)" by fastforce
    from Some sp parse_signed_bounds [of neg ds i] have "sint i = (if neg then - int (the (parse_nat ds)) else int (the (parse_nat ds)))"
      by (auto simp: ParseInt_split)
    with Some sp show ?thesis by (simp add: parseAsPrimitiveType_def)
  qed
qed

section \<open>Settling\<close>

interpretation google_received: delivery_contract "google_delivery_of s p m"
  "\<lambda>_. rcv_Ack (gs_client s) (ps_handle p)" "\<lambda>_. rcv_Nack (gs_client s) (ps_handle p)" for s p m
  by unfold_locales (simp_all add: google_delivery_of_def on_env_def)

text \<open>What one callback does, from its handler's result.\<close>

lemma google_callback_once:
  assumes "\<And>m v. \<exists>v'. h m v = (verdict (ID (get_msg v m)) (Payload (get_msg v m)), v')
      \<and> env v' = eff (ID (get_msg v m)) (Payload (get_msg v m)) (env v)"
    and r: "r = verdict (ps_ID p) (VBytes (ps_Data p))"
  shows "\<exists>w'. google_callback pf s h c p w = ((case r of Ret _ \<Rightarrow> Ret () | Panic q \<Rightarrow> Panic q), w')
    \<and> env w' = (if r = Ret None then rcv_Ack (gs_client s) (ps_handle p) (eff (ps_ID p) (VBytes (ps_Data p)) (env w))
                else rcv_Nack (gs_client s) (ps_handle p) (eff (ps_ID p) (VBytes (ps_Data p)) (env w)))"
proof -
  obtain m w1 where msg: "google_toMessage pf s c p w = (m, w1)" by fastforce
  let ?d = "google_dispatcher s h" and ?del = "google_delivery_of s p m"
  obtain a fin w2 where prep: "handle_prepare ?d ?del w1 = ((a, fin), w2)" by (metis prod.exhaust)
  have m: "dl_Message ?del = m" by (simp add: google_delivery_of_def)
  have "ID (get_msg w2 m) = ID (get_msg w1 m)" "Payload (get_msg w2 m) = Payload (get_msg w1 m)"
    using handle_prepare_same [OF prep] google_toMessage_facts(2) [OF msg] by (simp_all add: m)
  with assms(1) [of m w2] r google_toMessage_facts(3) [OF msg]
  obtain w3 where h: "h m w2 = (r, w3)" "env w3 = eff (ps_ID p) (VBytes (ps_Data p)) (env w2)" by auto
  have calm: "quiet (OnAckError (d_opts ?d))" "quiet (OnNackError (d_opts ?d))" "d_handler ?d = h"
    by (simp_all add: google_dispatcher_def NewDispatcher_def quiet_def)
  obtain w' where "Handle ?d ?del w1 = ((case r of Ret _ \<Rightarrow> Ret () | Panic q \<Rightarrow> Panic q), w')"
    "env w' = (if r = Ret None then rcv_Ack (gs_client s) (ps_handle p) (env w3) else rcv_Nack (gs_client s) (ps_handle p) (env w3))"
    using google_received.handled_once [OF calm(1,2) prep, of r w3] h(1) unfolding calm(3) m by blast
  moreover have "env w3 = eff (ps_ID p) (VBytes (ps_Data p)) (env w)"
    using h(2) handle_prepare_frame(1) [OF prep] google_toMessage_facts(5) [OF msg] by simp
  ultimately show ?thesis by (simp add: google_callback_def msg)
qed


text \<open>The client's \<open>Receive\<close> as far as the callbacks go: one message after the other, then its result.\<close>

fun call_each :: "(ps_received \<Rightarrow> ('e, unit) act) \<Rightarrow> ps_received list \<Rightarrow> gerr option \<Rightarrow> ('e, gerr option) act" where
  "call_each cb [] err w = (Ret err, w)"
| "call_each cb (p # ps) err w = andThen (cb p) (\<lambda>_. call_each cb ps err) w"

definition google_settle ::
  "('s, 'e) google_subscriber \<Rightarrow> (string \<Rightarrow> gval \<Rightarrow> gerr option) \<Rightarrow> (string \<Rightarrow> gval \<Rightarrow> 'e \<Rightarrow> 'e) \<Rightarrow> ps_received \<Rightarrow> 'e \<Rightarrow> 'e"
where
  "google_settle s verdict eff p e =
     (if verdict (ps_ID p) (VBytes (ps_Data p)) = None
      then rcv_Ack (gs_client s) (ps_handle p) (eff (ps_ID p) (VBytes (ps_Data p)) e)
      else rcv_Nack (gs_client s) (ps_handle p) (eff (ps_ID p) (VBytes (ps_Data p)) e))"

text \<open>C19: \<open>Receive\<close> handles each message the client hands to its callback once and settles it right after
  the handler, through the message's own handle: acked if the handler returned nil, nacked
  otherwise. It returns nil exactly if the client does, and otherwise the client's error, which is
  wrapped together with \<open>ErrSubscriptionNotFound\<close> exactly if its status code is NotFound.\<close>

theorem google_receive_settles_all:
  assumes "\<And>m v. \<exists>v'. h m v = (Ret (verdict (ID (get_msg v m)) (Payload (get_msg v m))), v')
      \<and> env v' = eff (ID (get_msg v m)) (Payload (get_msg v m)) (env v)"
    and "sub_Receive (gs_client s) (gs_subscription s) (receiveSettings (gs_options s)) c = (\<lambda>cb. call_each (cb c') ps err)"
    and "err \<noteq> None \<Longrightarrow> \<not> errors_Is (the err) ErrSubscriptionNotFound"
  shows "\<exists>w' r. Google_Receive pf s c h w = (Ret r, w')
    \<and> env w' = fold (google_settle s verdict eff) ps (env w)
    \<and> (r = None \<longleftrightarrow> err = None)
    \<and> (\<forall>e. err = Some e \<longrightarrow> errors_Is (the r) e
         \<and> (errors_Is (the r) ErrSubscriptionNotFound \<longleftrightarrow> status_NotFound (gs_client s) e))"
proof -
  have "\<exists>w'. call_each (google_callback pf s h c') ps err w = (Ret err, w')
      \<and> env w' = fold (google_settle s verdict eff) ps (env w)" for ps w
  proof (induction ps arbitrary: w)
    case (Cons p ps)
    from google_callback_once [of h "\<lambda>i v. Ret (verdict i v)" eff, OF assms(1) refl]
    obtain w1 where "google_callback pf s h c' p w = (Ret (), w1)" "env w1 = google_settle s verdict eff p (env w)"
      unfolding google_settle_def by force
    with Cons.IH [of w1] show ?case by (simp add: andThen_def)
  qed simp
  then obtain w' where run: "call_each (google_callback pf s h c') ps err w = (Ret err, w')"
    and e: "env w' = fold (google_settle s verdict eff) ps (env w)" by blast
  have "Google_Receive pf s c h w = (Ret (receive_error s err), w')"
    by (simp add: Google_Receive_def assms(2) andThen_def run)
  with e assms(3) show ?thesis by (auto simp: receive_error_def split: option.split)
qed

theorem google_receive_settles_all_witness:
  "\<exists>w' r. Google_Receive (\<lambda>v. None) (demo_google False) Background (\<lambda>m w. (Ret None, w)) (start_world []) = (Ret r, w')
     \<and> env w' = [''ack'', ''h1''] \<and> r \<noteq> None \<and> errors_Is (the r) ErrSubscriptionNotFound"
proof -
  let ?s = "demo_google False"
  have client: "sub_Receive (gs_client ?s) (gs_subscription ?s) (receiveSettings (gs_options ?s)) Background
      = (\<lambda>cb. call_each (cb Background) [demo_received] (Some (ErrNew ''gone'')))"
    by (auto simp: demo_google_defs fun_eq_iff andThen_def split: prod.split res.split)
  have "google_settle ?s (\<lambda>i v. None) (\<lambda>i v e. e) demo_received [] = [''ack'', ''h1'']"
    by (simp add: google_settle_def demo_google_defs)
  with google_receive_settles_all [of "\<lambda>m w. (Ret None, w)" "\<lambda>i v. None" "\<lambda>i v e. e", OF _ client, of "\<lambda>v. None" "start_world []"]
  show ?thesis by (auto simp: demo_google_defs ErrSubscriptionNotFound_def start_world_def)
qed

end
