(* ===== verification/Amqp_Reconnect.thy ===== *)
theory Amqp_Reconnect
  imports Amqp_Publisher
begin

text \<open>
  \<open>amqp/connection.go\<close> and the watcher of \<open>amqp/channel.go\<close>: the goroutines that replace a lost
  connection and a lost channel. The library's connections and channels are numbered in the order
  they were opened and are up, failed (the library notifies an error) or shut (closed gracefully, no
  error). What the model relies on of the library: \<open>NotifyClose\<close> on a connection or a channel that is
  down already closes the given Go channel at once, a connection that goes down takes its channels
  with it, and a channel can only be opened on a connection that is up. One connection with one
  reconnecting channel is modelled; the sleeps have no duration, but the number the retry strategy
  is called with is part of the state.
\<close>

section \<open>Connections\<close>

datatype link = Up | Failed | Shut

datatype conn_pc =
    CnRegister \<comment> \<open>before \<open>connection.NotifyClose\<close>\<close>
  | CnWait \<comment> \<open>receiving from the channel it returned\<close>
  | CnSleep \<comment> \<open>in the inner loop, before \<open>retryStrategy\<close> and the sleep\<close>
  | CnDial
  | CnEnd

datatype chan_pc =
    ChRegister
  | ChWait
  | ChNotice bool \<comment> \<open>received, with \<open>ok\<close>\<close>
  | ChSleep
  | ChOpen
  | ChEnd

record net =
  conns :: "link list"
  conn :: nat \<comment> \<open>\<open>c.Connection\<close>\<close>
  watched :: nat \<comment> \<open>the variable \<open>connection\<close> of the watcher\<close>
  conn_watch :: conn_pc
  conn_tries :: nat
  chans :: "(nat \<times> link) list" \<comment> \<open>the connection of each channel, and its state\<close>
  chan :: nat \<comment> \<open>\<open>ch.Channel\<close>\<close>
  chan_watch :: chan_pc
  chan_tries :: nat
  closed_flag :: bool \<comment> \<open>\<open>ch.closed == 1\<close>\<close>

text \<open>A connection after it was dialled, and after its channel was opened: both watchers start.\<close>

definition connected :: net where
  "connected = \<lparr>conns = [Up], conn = 0, watched = 0, conn_watch = CnRegister, conn_tries = 0,
                chans = [], chan = 0, chan_watch = ChEnd, chan_tries = 0, closed_flag = False\<rparr>"

definition open_channel :: "net \<Rightarrow> net" where
  "open_channel n = n\<lparr>chans := chans n @ [(conn n, Up)], chan := length (chans n), chan_watch := ChRegister\<rparr>"

record connection_options =
  retryStrategy :: "int \<Rightarrow> int"

type_synonym connection_option = "connection_options \<Rightarrow> connection_options"

definition WithReconnectionRetry :: "(int \<Rightarrow> int) \<Rightarrow> connection_option" where
  "WithReconnectionRetry s opts = opts\<lparr>retryStrategy := s\<rparr>"

definition DefaultRetryStrategy :: "int \<Rightarrow> int" where
  "DefaultRetryStrategy iterationCount = 1000000000"

record reconnecting_connection =
  rc_net :: net
  rc_url :: string
  rc_opts :: connection_options

text \<open>\<open>dial\<close> is \<open>amqp.DialConfig\<close>: an error, or nil for a connection that is up.\<close>

definition DialConfig ::
  "(string \<Rightarrow> 'c \<Rightarrow> gerr option) \<Rightarrow> string \<Rightarrow> 'c \<Rightarrow> connection_option list \<Rightarrow> gerr + reconnecting_connection"
where
  "DialConfig dial url config opts =
     (let options = fold (\<lambda>opt. opt) opts \<lparr>retryStrategy = DefaultRetryStrategy\<rparr>
      in case dial url config of
           Some err \<Rightarrow> Inl err
         | None \<Rightarrow> Inr \<lparr>rc_net = connected, rc_url = url, rc_opts = options\<rparr>)"

text \<open>\<open>locale_config\<close> makes the library's configuration with only a locale set.\<close>

definition Dial ::
  "(string \<Rightarrow> 'c \<Rightarrow> gerr option) \<Rightarrow> (string \<Rightarrow> 'c) \<Rightarrow> string \<Rightarrow> connection_option list
     \<Rightarrow> gerr + reconnecting_connection"
where
  "Dial dial locale_config url opts = DialConfig dial url (locale_config ''en_US'') opts"

text \<open>\<open>opened\<close> is the error of the library's \<open>Channel()\<close>.\<close>

definition Channel :: "gerr option \<Rightarrow> reconnecting_connection \<Rightarrow> gerr + reconnecting_connection" where
  "Channel opened c =
     (case opened of
        Some err \<Rightarrow> Inl err
      | None \<Rightarrow> Inr (c\<lparr>rc_net := open_channel (rc_net c)\<rparr>))"

section \<open>The watchers\<close>

definition conn_up :: "net \<Rightarrow> nat \<Rightarrow> bool" where
  "conn_up n i \<longleftrightarrow> i < length (conns n) \<and> conns n ! i = Up"

definition chan_up :: "net \<Rightarrow> nat \<Rightarrow> bool" where
  "chan_up n g \<longleftrightarrow> g < length (chans n) \<and> snd (chans n ! g) = Up"

text \<open>Connection \<open>i\<close> goes down, and its channels with it.\<close>

definition drop_conn :: "nat \<Rightarrow> link \<Rightarrow> net \<Rightarrow> net" where
  "drop_conn i l n = n\<lparr>conns := (conns n)[i := l],
     chans := map (\<lambda>(c, k). (c, if c = i \<and> k = Up then l else k)) (chans n)\<rparr>"

definition drop_chan :: "nat \<Rightarrow> link \<Rightarrow> net \<Rightarrow> net" where
  "drop_chan g l n = (if chan_up n g then n\<lparr>chans := (chans n)[g := (fst (chans n ! g), l)]\<rparr> else n)"

text \<open>
  What happens to the links from outside: the network, the broker, and the developer who closes the
  connection or the channel (\<open>ReconnectingChannel.Close\<close> sets the flag, and then closes the
  library's channel).
\<close>

inductive outside_step :: "net \<Rightarrow> net \<Rightarrow> bool" where
  conn_fails: "conn_up n i \<Longrightarrow> outside_step n (drop_conn i Failed n)"
| conn_closed: "conn_up n (conn n) \<Longrightarrow> outside_step n (drop_conn (conn n) Shut n)"
| chan_fails: "chan_up n g \<Longrightarrow> outside_step n (drop_chan g Failed n)"
| close_flag: "\<not> closed_flag n \<Longrightarrow> outside_step n (n\<lparr>closed_flag := True\<rparr>)"
| close_chan: "closed_flag n \<Longrightarrow> outside_step n (drop_chan (chan n) Shut n)"

text \<open>\<open>ReconnectingConnection.watchDisconnects\<close>.\<close>

inductive conn_watcher :: "net \<Rightarrow> net \<Rightarrow> bool" where
  cn_register: "conn_watch n = CnRegister \<Longrightarrow> conn_up n (watched n) \<Longrightarrow> conn_watcher n (n\<lparr>conn_watch := CnWait\<rparr>)"
| cn_late: "conn_watch n = CnRegister \<Longrightarrow> \<not> conn_up n (watched n) \<Longrightarrow> conn_watcher n (n\<lparr>conn_watch := CnEnd\<rparr>)"
| cn_error: "conn_watch n = CnWait \<Longrightarrow> conns n ! watched n = Failed \<Longrightarrow>
    conn_watcher n (n\<lparr>conn_watch := CnSleep, conn_tries := 0\<rparr>)"
| cn_shut: "conn_watch n = CnWait \<Longrightarrow> conns n ! watched n = Shut \<Longrightarrow> conn_watcher n (n\<lparr>conn_watch := CnEnd\<rparr>)"
| cn_sleep: "conn_watch n = CnSleep \<Longrightarrow> conn_watcher n (n\<lparr>conn_watch := CnDial, conn_tries := Suc (conn_tries n)\<rparr>)"
| cn_dial_fails: "conn_watch n = CnDial \<Longrightarrow> conn_watcher n (n\<lparr>conn_watch := CnSleep\<rparr>)"
| cn_dial: "conn_watch n = CnDial \<Longrightarrow>
    conn_watcher n (n\<lparr>conn_watch := CnRegister, conns := conns n @ [Up], conn := length (conns n)\<rparr>)"

text \<open>\<open>ReconnectingChannel.watchDisconnects\<close>.\<close>

inductive chan_watcher :: "net \<Rightarrow> net \<Rightarrow> bool" where
  ch_register: "chan_watch n = ChRegister \<Longrightarrow> chan_up n (chan n) \<Longrightarrow> chan_watcher n (n\<lparr>chan_watch := ChWait\<rparr>)"
| ch_late: "chan_watch n = ChRegister \<Longrightarrow> \<not> chan_up n (chan n) \<Longrightarrow> chan_watcher n (n\<lparr>chan_watch := ChNotice False\<rparr>)"
| ch_error: "chan_watch n = ChWait \<Longrightarrow> snd (chans n ! chan n) = Failed \<Longrightarrow> chan_watcher n (n\<lparr>chan_watch := ChNotice True\<rparr>)"
| ch_shut: "chan_watch n = ChWait \<Longrightarrow> snd (chans n ! chan n) = Shut \<Longrightarrow> chan_watcher n (n\<lparr>chan_watch := ChNotice False\<rparr>)"
| ch_stop: "chan_watch n = ChNotice ok \<Longrightarrow> \<not> ok \<or> closed_flag n \<Longrightarrow>
    chan_watcher n ((drop_chan (chan n) Shut n)\<lparr>chan_watch := ChEnd\<rparr>)"
| ch_retry: "chan_watch n = ChNotice True \<Longrightarrow> \<not> closed_flag n \<Longrightarrow>
    chan_watcher n (n\<lparr>chan_watch := ChSleep, chan_tries := 0\<rparr>)"
| ch_sleep: "chan_watch n = ChSleep \<Longrightarrow> chan_watcher n (n\<lparr>chan_watch := ChOpen, chan_tries := Suc (chan_tries n)\<rparr>)"
| ch_open_fails: "chan_watch n = ChOpen \<Longrightarrow> chan_watcher n (n\<lparr>chan_watch := ChSleep\<rparr>)"
| ch_open: "chan_watch n = ChOpen \<Longrightarrow> conn_up n (conn n) \<Longrightarrow> chan_watcher n (open_channel n)"

inductive net_step :: "net \<Rightarrow> net \<Rightarrow> bool" where
  outside: "outside_step n m \<Longrightarrow> net_step n m"
| connection: "conn_watcher n m \<Longrightarrow> net_step n m"
| channel: "chan_watcher n m \<Longrightarrow> net_step n m"

text \<open>The rules of the parts as rules of the whole.\<close>

lemmas conn_fails = outside_step.conn_fails [THEN net_step.outside]
lemmas chan_fails = outside_step.chan_fails [THEN net_step.outside]
lemmas close_flag = outside_step.close_flag [THEN net_step.outside]
lemmas close_chan = outside_step.close_chan [THEN net_step.outside]
lemmas cn_register = conn_watcher.cn_register [THEN net_step.connection]
lemmas cn_error = conn_watcher.cn_error [THEN net_step.connection]
lemmas cn_sleep = conn_watcher.cn_sleep [THEN net_step.connection]
lemmas cn_dial_fails = conn_watcher.cn_dial_fails [THEN net_step.connection]
lemmas cn_dial = conn_watcher.cn_dial [THEN net_step.connection]
lemmas ch_register = chan_watcher.ch_register [THEN net_step.channel]
lemmas ch_late = chan_watcher.ch_late [THEN net_step.channel]
lemmas ch_error = chan_watcher.ch_error [THEN net_step.channel]
lemmas ch_stop = chan_watcher.ch_stop [THEN net_step.channel]
lemmas ch_retry = chan_watcher.ch_retry [THEN net_step.channel]
lemmas ch_sleep = chan_watcher.ch_sleep [THEN net_step.channel]
lemmas ch_open_fails = chan_watcher.ch_open_fails [THEN net_step.channel]
lemmas ch_open = chan_watcher.ch_open [THEN net_step.channel]
lemmas net_step_elims = net_step.cases outside_step.cases conn_watcher.cases chan_watcher.cases

text \<open>The start: a connection that was dialled, and the channel opened on it.\<close>

definition net_init :: "net \<Rightarrow> bool" where
  "net_init n \<longleftrightarrow> n = open_channel connected"

lemmas net_defs = conn_up_def chan_up_def drop_conn_def drop_chan_def open_channel_def


section \<open>The invariant\<close>

text \<open>What the operations on the links do to each link.\<close>

lemma conn_up_simps [simp]:
  "l \<noteq> Up \<Longrightarrow> conn_up (drop_conn i l n) j \<longleftrightarrow> j \<noteq> i \<and> conn_up n j"
  "conn_up (drop_chan g l n) j \<longleftrightarrow> conn_up n j"
  "conn_up (open_channel n) j \<longleftrightarrow> conn_up n j"
  by (cases "j = i"; auto simp: net_defs)+

lemma link_frames [simp]:
  "conn (drop_conn i l n) = conn n" "watched (drop_conn i l n) = watched n" "conn_watch (drop_conn i l n) = conn_watch n"
  "chan (drop_conn i l n) = chan n" "chan_watch (drop_conn i l n) = chan_watch n" "closed_flag (drop_conn i l n) = closed_flag n"
  "length (conns (drop_conn i l n)) = length (conns n)" "length (chans (drop_conn i l n)) = length (chans n)"
  "conns (drop_chan g l n) = conns n"
  "conn (drop_chan g l n) = conn n" "watched (drop_chan g l n) = watched n" "conn_watch (drop_chan g l n) = conn_watch n"
  "chan (drop_chan g l n) = chan n" "chan_watch (drop_chan g l n) = chan_watch n" "closed_flag (drop_chan g l n) = closed_flag n"
  "length (chans (drop_chan g l n)) = length (chans n)"
  "conns (open_channel n) = conns n" "conn (open_channel n) = conn n" "watched (open_channel n) = watched n"
  "conn_watch (open_channel n) = conn_watch n" "chan (open_channel n) = length (chans n)"
  "chan_watch (open_channel n) = ChRegister" "closed_flag (open_channel n) = closed_flag n"
  "length (chans (open_channel n)) = Suc (length (chans n))"
  by (auto simp: net_defs)

lemma conn_up_frame [simp]:
  "conn_up (n\<lparr>conn_watch := x\<rparr>) j = conn_up n j" "conn_up (n\<lparr>conn_watch := x, conn_tries := y\<rparr>) j = conn_up n j"
  "conn_up (n\<lparr>chan_watch := z\<rparr>) j = conn_up n j" "conn_up (n\<lparr>chan_watch := z, chan_tries := y\<rparr>) j = conn_up n j"
  "conn_up (n\<lparr>closed_flag := b\<rparr>) j = conn_up n j"
  "chan_up (n\<lparr>conn_watch := x\<rparr>) g = chan_up n g" "chan_up (n\<lparr>conn_watch := x, conn_tries := y\<rparr>) g = chan_up n g"
  "chan_up (n\<lparr>chan_watch := z\<rparr>) g = chan_up n g" "chan_up (n\<lparr>chan_watch := z, chan_tries := y\<rparr>) g = chan_up n g"
  "chan_up (n\<lparr>closed_flag := b\<rparr>) g = chan_up n g"
  "chan_up (n\<lparr>conn_watch := x, conns := cs, conn := c\<rparr>) g = chan_up n g"
  by (simp_all add: conn_up_def chan_up_def)

lemma chan_up_simps [simp]:
  "l \<noteq> Up \<Longrightarrow> chan_up (drop_chan g l n) h \<longleftrightarrow> h \<noteq> g \<and> chan_up n h"
  "l \<noteq> Up \<Longrightarrow> chan_up (drop_conn i l n) h \<longleftrightarrow> chan_up n h \<and> fst (chans n ! h) \<noteq> i"
  "chan_up (open_channel n) h \<longleftrightarrow> h = length (chans n) \<or> chan_up n h"
  by (cases "h = g"; auto simp: net_defs nth_append split: prod.splits if_splits)+

lemma chan_conn_simps [simp]:
  "h < length (chans n) \<Longrightarrow> fst (chans (drop_conn i l n) ! h) = fst (chans n ! h)"
  "h < length (chans n) \<Longrightarrow> fst (chans (drop_chan g l n) ! h) = fst (chans n ! h)"
  "h < length (chans n) \<Longrightarrow> fst (chans (open_channel n) ! h) = fst (chans n ! h)"
  "fst (chans (open_channel n) ! length (chans n)) = conn n"
  by (auto simp: net_defs nth_list_update nth_append split: prod.splits)

text \<open>
  The watcher of the connection listens to the first connection only; a channel that is up is on a
  connection that is up; the channel in use is one of the channels opened, and is down once its
  watcher has stopped.
\<close>

definition net_inv :: "net \<Rightarrow> bool" where
  "net_inv n \<longleftrightarrow> watched n = 0 \<and> length (conns n) = Suc (conn n) \<and> conn n \<le> 1
     \<and> (conn n = 1 \<longrightarrow> \<not> conn_up n 0 \<and> conn_watch n \<in> {CnRegister, CnEnd})
     \<and> (conn_watch n \<in> {CnSleep, CnDial} \<longrightarrow> \<not> conn_up n 0)
     \<and> chan n < length (chans n)
     \<and> (\<forall>g. chan_up n g \<longrightarrow> conn_up n (fst (chans n ! g)))
     \<and> (\<forall>g < length (chans n). fst (chans n ! g) \<le> conn n)
     \<and> (chan_watch n \<in> {ChNotice False, ChEnd} \<longrightarrow> \<not> chan_up n (chan n))"

lemma net_init_inv: "net_init n \<Longrightarrow> net_inv n"
  by (auto simp: net_init_def net_inv_def connected_def net_defs)

lemma chan_up_bound: "chan_up n g \<Longrightarrow> g < length (chans n)"
  by (simp add: chan_up_def)

lemma outside_inv: "net_inv n \<Longrightarrow> outside_step n m \<Longrightarrow> net_inv m"
  by (erule outside_step.cases) (simp_all add: net_inv_def chan_up_bound)

lemma conn_watcher_inv:
  assumes "net_inv n" "conn_watcher n m"
  shows "net_inv m"
  using assms(2)
proof (cases rule: conn_watcher.cases)
  case cn_error
  then have "\<not> conn_up n (watched n)" by (simp add: conn_up_def)
  with cn_error assms(1) show ?thesis by (auto simp: net_inv_def)
next
  case cn_dial
  then show ?thesis
    using assms(1) by (auto simp: net_inv_def conn_up_def chan_up_def nth_append le_Suc_eq less_Suc_eq)
qed (use assms(1) in \<open>auto simp: net_inv_def\<close>)+

lemma chan_watcher_inv:
  assumes "net_inv n" "chan_watcher n m"
  shows "net_inv m"
  using assms(2)
proof (cases rule: chan_watcher.cases)
  case ch_shut
  with assms(1) show ?thesis by (simp add: net_inv_def chan_up_def)
next
  case ch_open
  then show ?thesis using assms(1) by (auto simp: net_inv_def less_Suc_eq chan_up_bound)
qed (use assms(1) in \<open>simp add: net_inv_def chan_up_bound\<close>)+

lemma net_step_inv: "net_inv n \<Longrightarrow> net_step n m \<Longrightarrow> net_inv m"
  by (erule net_step.cases) (blast intro: outside_inv conn_watcher_inv chan_watcher_inv)+

interpretation net: invariant_system net_init net_step net_inv
  by unfold_locales (rule net_init_inv net_step_inv; assumption)+


section \<open>Properties\<close>

text \<open>The state after the second loss: nothing is up, and nothing will be.\<close>

definition lost_for_good :: "net \<Rightarrow> bool" where
  "lost_for_good n \<longleftrightarrow> net_inv n \<and> conn n = 1 \<and> \<not> conn_up n 1"

lemma lost_for_good_down:
  assumes "lost_for_good n"
  shows "\<not> conn_up n i" "\<not> chan_up n g"
proof -
  have down: "\<not> conn_up n i" if "i \<le> 1" for i
    using that assms by (auto simp: lost_for_good_def net_inv_def le_Suc_eq)
  then show "\<not> conn_up n i"
    using assms by (cases "i \<le> 1") (auto simp: lost_for_good_def net_inv_def conn_up_def)
  show "\<not> chan_up n g"
    using assms down [of "fst (chans n ! g)"] by (auto simp: lost_for_good_def net_inv_def dest: chan_up_bound)
qed

lemma lost_for_good_step:
  assumes "lost_for_good n" "net_step n m"
  shows "lost_for_good m"
proof -
  have "net_inv m" using assms net_step_inv by (auto simp: lost_for_good_def)
  moreover have "conn m = 1 \<and> \<not> conn_up m 1"
    using assms(2) lost_for_good_down [OF assms(1)] assms(1)
    by (auto simp: lost_for_good_def net_inv_def elim!: net_step_elims)
  ultimately show ?thesis by (simp add: lost_for_good_def)
qed

interpretation lost: invariant_system lost_for_good net_step lost_for_good
  by unfold_locales (auto intro: lost_for_good_step)

text \<open>C14: However often the connection is lost, the watcher replaces it at most once: it goes on listening
  to the first connection, so when the replacement is lost too, neither the connection nor any
  channel on it is ever up again, whatever happens afterwards.\<close>

theorem connection_repaired_once:
  assumes "net_init n0" "steps net_step n0 n"
  shows "conn n \<le> 1 \<and> (conn n = 1 \<longrightarrow> \<not> conn_up n (conn n) \<longrightarrow>
    {(conn_up m (conn m), chan_up m (chan m)) |m. steps net_step n m} = {(False, False)})"
proof -
  have inv: "net_inv n" using assms by (rule net.reachable)
  have "{(conn_up m (conn m), chan_up m (chan m)) |m. steps net_step n m} = {(False, False)}"
    if "conn n = 1" "\<not> conn_up n (conn n)"
  proof (rule setcompr_singleton [where R = "steps net_step n", OF _ steps_refl])
    fix m assume run: "steps net_step n m"
    have "lost_for_good n" using inv that by (simp add: lost_for_good_def)
    with run have "lost_for_good m" by (blast intro: lost.steps_keep)
    then show "(conn_up m (conn m), chan_up m (chan m)) = (False, False)"
      by (simp add: lost_for_good_down)
  qed
  with inv show ?thesis by (simp add: net_inv_def)
qed


text \<open>A watcher that fails \<open>k\<close> more times, and then succeeds.\<close>

lemma conn_retry: "conn_watch n = CnSleep \<Longrightarrow> steps net_step n (n\<lparr>conn_tries := conn_tries n + k\<rparr>)"
proof (induction k)
  case (Suc k)
  let ?a = "n\<lparr>conn_tries := conn_tries n + k\<rparr>"
  let ?b = "?a\<lparr>conn_watch := CnDial, conn_tries := Suc (conn_tries ?a)\<rparr>"
  have "net_step ?a ?b" using Suc.prems by (intro cn_sleep) simp
  moreover have "net_step ?b (?b\<lparr>conn_watch := CnSleep\<rparr>)" by (intro cn_dial_fails) simp
  moreover have "?b\<lparr>conn_watch := CnSleep\<rparr> = n\<lparr>conn_tries := conn_tries n + Suc k\<rparr>"
    using Suc.prems by simp
  ultimately show ?case using Suc by (metis steps_step)
qed (simp add: steps_refl)

lemma chan_retry: "chan_watch n = ChSleep \<Longrightarrow> steps net_step n (n\<lparr>chan_tries := chan_tries n + k\<rparr>)"
proof (induction k)
  case (Suc k)
  let ?a = "n\<lparr>chan_tries := chan_tries n + k\<rparr>"
  let ?b = "?a\<lparr>chan_watch := ChOpen, chan_tries := Suc (chan_tries ?a)\<rparr>"
  have "net_step ?a ?b" using Suc.prems by (intro ch_sleep) simp
  moreover have "net_step ?b (?b\<lparr>chan_watch := ChSleep\<rparr>)" by (intro ch_open_fails) simp
  moreover have "?b\<lparr>chan_watch := ChSleep\<rparr> = n\<lparr>chan_tries := chan_tries n + Suc k\<rparr>"
    using Suc.prems by simp
  ultimately show ?case using Suc by (metis steps_step)
qed (simp add: steps_refl)

definition redialled :: "nat \<Rightarrow> net \<Rightarrow> net" where
  "redialled k n = n\<lparr>conn_watch := CnRegister, conn_tries := Suc k, conns := conns n @ [Up], conn := length (conns n)\<rparr>"

lemma conn_repair:
  assumes "conn_watch n = CnWait" "conns n ! watched n = Failed"
  shows "steps net_step n (redialled k n)"
proof -
  let ?a = "n\<lparr>conn_watch := CnSleep, conn_tries := 0\<rparr>"
  let ?b = "?a\<lparr>conn_tries := conn_tries ?a + k\<rparr>"
  let ?c = "?b\<lparr>conn_watch := CnDial, conn_tries := Suc (conn_tries ?b)\<rparr>"
  have "net_step n ?a" using assms by (rule cn_error)
  moreover have "steps net_step ?a ?b" by (rule conn_retry) simp
  moreover have "net_step ?b ?c" by (rule cn_sleep) simp
  moreover have "net_step ?c (?c\<lparr>conn_watch := CnRegister, conns := conns ?c @ [Up], conn := length (conns ?c)\<rparr>)"
    by (rule cn_dial) simp
  ultimately have "steps net_step n (?c\<lparr>conn_watch := CnRegister, conns := conns ?c @ [Up], conn := length (conns ?c)\<rparr>)"
    by (meson steps_single steps_trans steps_step)
  moreover have "?c\<lparr>conn_watch := CnRegister, conns := conns ?c @ [Up], conn := length (conns ?c)\<rparr> = redialled k n"
    by (simp add: redialled_def)
  ultimately show ?thesis by (simp only:)
qed

definition reopened :: "nat \<Rightarrow> net \<Rightarrow> net" where
  "reopened k n = (open_channel n)\<lparr>chan_tries := Suc k, chan_watch := ChWait\<rparr>"

lemma chan_repair:
  assumes "chan_watch n = ChWait" "snd (chans n ! chan n) = Failed" "\<not> closed_flag n" "conn_up n (conn n)"
  shows "steps net_step n (reopened k n)"
proof -
  let ?a = "n\<lparr>chan_watch := ChNotice True\<rparr>"
  let ?b = "?a\<lparr>chan_watch := ChSleep, chan_tries := 0\<rparr>"
  let ?c = "?b\<lparr>chan_tries := chan_tries ?b + k\<rparr>"
  let ?d = "?c\<lparr>chan_watch := ChOpen, chan_tries := Suc (chan_tries ?c)\<rparr>"
  let ?e = "open_channel ?d"
  have "net_step n ?a" using assms(1,2) by (rule ch_error)
  moreover have "net_step ?a ?b" using assms(3) by (intro ch_retry) simp_all
  moreover have "steps net_step ?b ?c" by (rule chan_retry) simp
  moreover have "net_step ?c ?d" by (rule ch_sleep) simp
  moreover have "net_step ?d ?e" using assms(4) by (intro ch_open) (simp_all add: conn_up_def)
  moreover have "net_step ?e (?e\<lparr>chan_watch := ChWait\<rparr>)"
    by (rule ch_register) (simp_all add: chan_up_def open_channel_def nth_append)
  ultimately have "steps net_step n (?e\<lparr>chan_watch := ChWait\<rparr>)"
    by (meson steps_single steps_trans steps_step)
  moreover have "?e\<lparr>chan_watch := ChWait\<rparr> = reopened k n"
    by (simp add: reopened_def open_channel_def)
  ultimately show ?thesis by (simp only:)
qed

text \<open>The first loss of the connection is repaired: while the developer closes nothing, both watchers
  keep trying, and whatever number of dials and of channel openings fail first, the next can
  succeed and puts a connection and a channel that are up in place, with the watcher of the channel
  listening again. A retry strategy is called with the number of the attempts failed so far.\<close>

theorem first_loss_repaired:
  assumes "net_init n0" "steps net_step n0 n"
    and "conn_watch n = CnWait" "conns n ! conn n = Failed"
    and "chan_watch n = ChWait" "snd (chans n ! chan n) = Failed" "\<not> closed_flag n"
  shows "\<exists>m. steps net_step n m \<and> conn_up m (conn m) \<and> chan_up m (chan m) \<and> conn m = Suc (conn n) \<and> chan m > chan n
    \<and> fst (chans m ! chan m) = conn m \<and> conn_tries m = Suc failed_dials \<and> chan_tries m = Suc failed_opens \<and> chan_watch m = ChWait"
proof -
  have inv: "net_inv n" using assms(1,2) by (rule net.reachable)
  then have zero: "watched n = conn n" "length (conns n) = Suc (conn n)" "chan n < length (chans n)"
    using assms(3) by (auto simp: net_inv_def le_Suc_eq)
  let ?a = "redialled failed_dials n"
  have "steps net_step n ?a" using assms(3,4) zero by (intro conn_repair) simp_all
  moreover have "steps net_step ?a (reopened failed_opens ?a)"
    using assms(5-7) zero by (intro chan_repair) (simp_all add: redialled_def conn_up_def nth_append)
  ultimately have "steps net_step n (reopened failed_opens ?a)" by (rule steps_trans)
  moreover have "conn_up (reopened failed_opens ?a) (conn n + 1)"
    using zero by (simp add: reopened_def redialled_def open_channel_def conn_up_def nth_append)
  ultimately show ?thesis
    using zero by (intro exI [of _ "reopened failed_opens ?a"])
      (simp add: reopened_def redialled_def open_channel_def chan_up_def nth_append)
qed


text \<open>A run in which both watchers listen and connection \<open>0\<close> is lost, for the witnesses.\<close>

definition listening :: net where
  "listening = (open_channel connected)\<lparr>conn_watch := CnWait, chan_watch := ChWait\<rparr>"

lemma listening_reached: "net_init (open_channel connected)" "steps net_step (open_channel connected) listening"
proof -
  let ?a = "(open_channel connected)\<lparr>conn_watch := CnWait\<rparr>"
  have "net_step (open_channel connected) ?a"
    by (rule cn_register) (simp_all add: open_channel_def connected_def conn_up_def)
  moreover have "net_step ?a (?a\<lparr>chan_watch := ChWait\<rparr>)"
    by (rule ch_register) (simp_all add: open_channel_def connected_def chan_up_def)
  ultimately show "steps net_step (open_channel connected) listening"
    unfolding listening_def by (meson steps.intros)
qed (simp add: net_init_def)

lemmas listening_defs = listening_def open_channel_def connected_def

definition broken :: net where
  "broken = drop_conn 0 Failed listening"

lemma broken_reached: "steps net_step (open_channel connected) broken"
proof -
  have "net_step listening broken"
    unfolding broken_def by (rule conn_fails) (simp add: listening_defs conn_up_def)
  with listening_reached(2) show ?thesis by (rule steps_step)
qed

lemma broken_simps [simp]:
  "conn_watch broken = CnWait" "conns broken = [Failed]" "conn broken = 0" "watched broken = 0"
  "chan_watch broken = ChWait" "chans broken = [(0, Failed)]" "chan broken = 0" "\<not> closed_flag broken"
  by (simp_all add: broken_def listening_defs drop_conn_def)

theorem first_loss_repaired_witness:
  "\<exists>m. steps net_step broken m \<and> conn_up m 1 \<and> chan_up m (chan m) \<and> conn_tries m = 3 \<and> chan_tries m = 1"
proof -
  have "\<exists>m. steps net_step broken m \<and> conn_up m (conn m) \<and> chan_up m (chan m) \<and> conn m = Suc (conn broken) \<and> chan m > chan broken
    \<and> fst (chans m ! chan m) = conn m \<and> conn_tries m = Suc 2 \<and> chan_tries m = Suc 0 \<and> chan_watch m = ChWait"
    by (rule first_loss_repaired [OF listening_reached(1) broken_reached]) simp_all
  then show ?thesis by auto
qed

theorem connection_repaired_once_witness:
  "\<exists>n0 n. net_init n0 \<and> steps net_step n0 n \<and> conn n = 1
    \<and> {(conn_up m (conn m), chan_up m (chan m)) |m. steps net_step n m} = {(False, False)}"
proof -
  let ?r = "redialled 0 broken"
  have "steps net_step broken ?r" by (rule conn_repair) simp_all
  moreover have "net_step ?r (drop_conn 1 Failed ?r)"
    by (rule conn_fails) (simp add: redialled_def conn_up_def)
  ultimately have run: "steps net_step (open_channel connected) (drop_conn 1 Failed ?r)"
    using broken_reached by (meson steps_trans steps_step)
  have last: "conn (drop_conn 1 Failed ?r) = 1" "\<not> conn_up (drop_conn 1 Failed ?r) 1"
    by (simp_all add: redialled_def)
  with connection_repaired_once [OF listening_reached(1) run] listening_reached(1) run show ?thesis
    by (intro exI [of _ "open_channel connected"] exI [of _ "drop_conn 1 Failed ?r"]) simp
qed

text \<open>C33: Two ways the watcher of a channel does not follow the developer. A channel that the developer
  closes while it is being replaced is opened again and stays up, although it is marked closed and
  closing it again only answers \<open>ErrClosed\<close>. And a channel that is lost before its watcher listens
  again is given up, although nobody closed it and the connection is up.\<close>

theorem channel_watcher_gaps:
  "(\<exists>n0 n. net_init n0 \<and> steps net_step n0 n \<and> closed_flag n \<and> chan_watch n = ChWait \<and> chan_up n (chan n)
      \<and> ReconnectingChannel_Close ch \<lparr>ch_closed = closed_flag n, broker = b\<rparr>
          = (Some amqp_ErrClosed, \<lparr>ch_closed = closed_flag n, broker = b\<rparr>))
   \<and> (\<exists>n0 n. net_init n0 \<and> steps net_step n0 n \<and> \<not> closed_flag n \<and> conn_up n (conn n) \<and> chan_watch n = ChEnd)"
proof (intro conjI, goal_cases)
  case 1
  let ?f = "drop_chan 0 Failed listening"
  let ?b = "?f\<lparr>chan_watch := ChSleep, chan_tries := 0\<rparr>"
  let ?c = "?b\<lparr>closed_flag := True\<rparr>"
  let ?d = "?c\<lparr>chan_watch := ChOpen, chan_tries := 1\<rparr>"
  let ?g = "(open_channel ?d)\<lparr>chan_watch := ChWait\<rparr>"
  note defs = listening_defs drop_chan_def chan_up_def conn_up_def
  have "net_step listening ?f" by (rule chan_fails) (simp add: defs)
  moreover have "net_step ?f (?f\<lparr>chan_watch := ChNotice True\<rparr>)" by (rule ch_error) (simp_all add: defs)
  moreover have "net_step (?f\<lparr>chan_watch := ChNotice True\<rparr>) ?b"
    using ch_retry [of "?f\<lparr>chan_watch := ChNotice True\<rparr>"] by (simp add: defs)
  moreover have "net_step ?b ?c" by (rule close_flag) (simp add: defs)
  moreover have "net_step ?c ?c" using close_chan [of ?c] by (simp add: defs)
  moreover have "net_step ?c ?d" using ch_sleep [of ?c] by simp
  moreover have "net_step ?d (open_channel ?d)" by (rule ch_open) (simp_all add: defs)
  moreover have "net_step (open_channel ?d) ?g" by (rule ch_register) (simp_all add: chan_up_def open_channel_def nth_append)
  ultimately have "steps net_step (open_channel connected) ?g"
    using listening_reached(2) by (meson steps_step)
  moreover have "closed_flag ?g" "chan_watch ?g = ChWait" "chan_up ?g (chan ?g)"
    by (simp_all add: open_channel_def chan_up_def nth_append)
  ultimately show ?case
    using listening_reached(1)
    by (intro exI [of _ "open_channel connected"] exI [of _ ?g])
      (simp add: ReconnectingChannel_Close_def ReconnectingChannel_IsClosed_def)
next
  case 2
  let ?f = "drop_chan 0 Failed (open_channel connected)"
  let ?e = "(drop_chan 0 Shut (?f\<lparr>chan_watch := ChNotice False\<rparr>))\<lparr>chan_watch := ChEnd\<rparr>"
  note defs = open_channel_def connected_def drop_chan_def chan_up_def conn_up_def
  have "net_step (open_channel connected) ?f" by (rule chan_fails) (simp add: defs)
  moreover have "net_step ?f (?f\<lparr>chan_watch := ChNotice False\<rparr>)" by (rule ch_late) (simp_all add: defs)
  moreover have "net_step (?f\<lparr>chan_watch := ChNotice False\<rparr>) ?e"
    using ch_stop [of "?f\<lparr>chan_watch := ChNotice False\<rparr>" False] by (simp add: defs)
  ultimately have "steps net_step (open_channel connected) ?e" by (meson steps.intros)
  moreover have "\<not> closed_flag ?e" "conn_up ?e (conn ?e)" "chan_watch ?e = ChEnd" by (simp_all add: defs)
  ultimately show ?case using listening_reached(1) by blast
qed

end
