(* ===== verification/Amqp_Subscriber.thy ===== *)
theory Amqp_Subscriber
  imports Amqp_Publisher Dispatcher
begin

text \<open>
  \<open>amqp/subscriber.go\<close> but for the receive loop, which runs together with the goroutine of \<open>Consume\<close>
  in the theory \<open>Amqp_Consume\<close>: options, constructor, the arguments of the consumer, the conversion
  of a delivery and its acknowledgement. A received message's headers are a map of the program that
  becomes the metadata of the message without a copy. The acknowledgements of the client library
  are functions on the environment.
\<close>

section \<open>Options and constructor\<close>

record 'e amqp_subscriber_options =
  autoAck :: bool
  noRequeueOnNack :: bool
  exclusive :: bool
  amqp_processingTimeout :: "64 word"
  amqp_maxInFlight :: int
  amqp_onAckError :: "(addr \<Rightarrow> gerr \<Rightarrow> ('e, unit) act) option"
  amqp_onNackError :: "(addr \<Rightarrow> gerr \<Rightarrow> ('e, unit) act) option"

type_synonym 'e amqp_subscriber_option = "'e amqp_subscriber_options \<Rightarrow> 'e amqp_subscriber_options"

definition WithAutoAck :: "'e amqp_subscriber_option" where
  "WithAutoAck opts = opts\<lparr>autoAck := True\<rparr>"

definition WithNoRequeueOnNack :: "'e amqp_subscriber_option" where
  "WithNoRequeueOnNack opts = opts\<lparr>noRequeueOnNack := True\<rparr>"

definition WithExclusive :: "'e amqp_subscriber_option" where
  "WithExclusive opts = opts\<lparr>exclusive := True\<rparr>"

definition Amqp_WithProcessingTimeout :: "64 word \<Rightarrow> 'e amqp_subscriber_option" where
  "Amqp_WithProcessingTimeout timeout opts = opts\<lparr>amqp_processingTimeout := timeout\<rparr>"

definition Amqp_WithMaxInFlight :: "int \<Rightarrow> 'e amqp_subscriber_option" where
  "Amqp_WithMaxInFlight n opts = opts\<lparr>amqp_maxInFlight := n\<rparr>"

definition Amqp_WithAckErrorHandler :: "(addr \<Rightarrow> gerr \<Rightarrow> ('e, unit) act) option \<Rightarrow> 'e amqp_subscriber_option" where
  "Amqp_WithAckErrorHandler h opts = opts\<lparr>amqp_onAckError := h\<rparr>"

definition WithNackErrorHandler :: "(addr \<Rightarrow> gerr \<Rightarrow> ('e, unit) act) option \<Rightarrow> 'e amqp_subscriber_option" where
  "WithNackErrorHandler h opts = opts\<lparr>amqp_onNackError := h\<rparr>"

definition ErrChannelClosed :: gerr where
  "ErrChannelClosed = ErrVar ''amqp.ErrChannelClosed''"

text \<open>The library's \<open>Delivery\<close>, and what its \<open>Ack(multiple)\<close> and \<open>Nack(multiple, requeue)\<close> do.\<close>

record amqp_delivery =
  del_Tag :: "64 word"
  del_Body :: string
  del_MessageId :: string
  del_Headers :: headers

record 'e acknowledger =
  del_Ack :: "64 word \<Rightarrow> bool \<Rightarrow> 'e \<Rightarrow> gerr option \<times> 'e"
  del_Nack :: "64 word \<Rightarrow> bool \<Rightarrow> bool \<Rightarrow> 'e \<Rightarrow> gerr option \<times> 'e"

record 'e amqp_subscriber =
  as_channel :: "'e acknowledger"
  as_queue :: string
  as_options :: "'e amqp_subscriber_options"

definition NewAMQPSubscriber ::
  "'e acknowledger option \<Rightarrow> string \<Rightarrow> 'e amqp_subscriber_option list \<Rightarrow> gerr + 'e amqp_subscriber"
where
  "NewAMQPSubscriber channel queue opts =
     (case channel of
        None \<Rightarrow> Inl (ErrNew ''channel is required'')
      | Some channel \<Rightarrow>
          (let options = fold (\<lambda>opt. opt) opts
                 \<lparr>autoAck = False, noRequeueOnNack = False, exclusive = False, amqp_processingTimeout = 0,
                  amqp_maxInFlight = DefaultMaxInFlight, amqp_onAckError = None, amqp_onNackError = None\<rparr>
           in Inr \<lparr>as_channel = channel, as_queue = queue, as_options = options\<rparr>))"

section \<open>Consuming\<close>

record consume_args =
  ca_queue :: string
  ca_consumer :: string
  ca_autoAck :: bool
  ca_exclusive :: bool
  ca_noLocal :: bool
  ca_noWait :: bool

text \<open>The arguments \<open>Receive\<close> gives to \<open>Consume\<close>; the table of arguments is nil.\<close>

definition amqp_consume_args :: "'e amqp_subscriber \<Rightarrow> consume_args" where
  "amqp_consume_args s =
     \<lparr>ca_queue = as_queue s, ca_consumer = [], ca_autoAck = autoAck (as_options s),
      ca_exclusive = exclusive (as_options s), ca_noLocal = False, ca_noWait = False\<rparr>"

definition ErrQueueNotFound :: gerr where
  "ErrQueueNotFound = ErrVar ''amqp.ErrQueueNotFound''"

text \<open>
  The error of the first, synchronous consume: \<open>not_found\<close> holds for an error that is, or wraps, a
  library error with the code NotFound.
\<close>

definition consume_error :: "(gerr \<Rightarrow> bool) \<Rightarrow> string \<Rightarrow> gerr \<Rightarrow> gerr" where
  "consume_error not_found queue err =
     (if not_found err then ErrWrap (''queue does not exist: '' @ queue) [ErrQueueNotFound] else err)"

definition amqp_dispatcher :: "'e amqp_subscriber \<Rightarrow> (addr \<Rightarrow> ('e, gerr option) act) \<Rightarrow> 'e dispatcher" where
  "amqp_dispatcher s handler =
     NewDispatcher handler
       \<lparr>MaxInFlight = amqp_maxInFlight (as_options s), ProcessingTimeout = sint (amqp_processingTimeout (as_options s)),
        OnAckError = amqp_onAckError (as_options s), OnNackError = amqp_onNackError (as_options s)\<rparr>"

section \<open>Deliveries\<close>

definition amqp_ack :: "'e amqp_subscriber \<Rightarrow> amqp_delivery \<Rightarrow> 'e \<Rightarrow> gerr option \<times> 'e" where
  "amqp_ack s delivery e =
     (if autoAck (as_options s) then (None, e) else del_Ack (as_channel s) (del_Tag delivery) False e)"

definition amqp_nack :: "'e amqp_subscriber \<Rightarrow> amqp_delivery \<Rightarrow> 'e \<Rightarrow> gerr option \<times> 'e" where
  "amqp_nack s delivery e =
     (if autoAck (as_options s) then (None, e)
      else del_Nack (as_channel s) (del_Tag delivery) False (\<not> noRequeueOnNack (as_options s)) e)"

definition amqp_delivery_of :: "'e amqp_subscriber \<Rightarrow> amqp_delivery \<Rightarrow> addr \<Rightarrow> 'e delivery" where
  "amqp_delivery_of s delivery msg =
     \<lparr>dl_Message = msg, dl_Ack = (\<lambda>_. on_env (amqp_ack s delivery)), dl_Nack = (\<lambda>_. on_env (amqp_nack s delivery))\<rparr>"

definition amqp_delivery_fn ::
  "'e amqp_subscriber \<Rightarrow> ctx \<Rightarrow> amqp_delivery \<Rightarrow> 'e world \<Rightarrow> 'e delivery \<times> 'e world"
where
  "amqp_delivery_fn s c delivery w =
     (let (msg, w1) = NewMessage c (VBytes (del_Body delivery)) w;
          w2 = upd_msg msg (\<lambda>m. m\<lparr>ID := del_MessageId delivery\<rparr>) w1;
          w3 = (case del_Headers delivery of
                  None \<Rightarrow> w2
                | Some h \<Rightarrow> upd_msg msg (\<lambda>m. m\<lparr>Metadata := Some h\<rparr>) w2)
      in (amqp_delivery_of s delivery msg, w3))"

interpretation amqp_received: delivery_contract "amqp_delivery_of s d m"
  "\<lambda>_ e. snd (amqp_ack s d e)" "\<lambda>_ e. snd (amqp_nack s d e)" for s d m
  by unfold_locales (auto simp: amqp_delivery_of_def on_env_def split: prod.split)

lemma amqp_delivery_facts:
  assumes "amqp_delivery_fn s c d w = (del, w1)"
  shows "del = amqp_delivery_of s d (length (heap_msgs w))" and "valid_msg w1 (dl_Message del)"
    and "get_msg w1 (dl_Message del) = \<lparr>ID = del_MessageId d,
          Metadata = (case del_Headers d of None \<Rightarrow> Some (length (heap_maps w)) | Some h \<Rightarrow> Some h),
          Payload = VBytes (del_Body d), msg_ctx = c\<rparr>"
    and "heap_maps w1 = heap_maps w @ [[]]" and "env w1 = env w"
  using assms
  by (auto simp: amqp_delivery_fn_def message_defs world_defs Let_def amqp_delivery_of_def split: option.splits)

section \<open>Properties\<close>

text \<open>C20: A message received over AMQP is settled once, right after its handler. With automatic
  acknowledgement nothing is ever sent; otherwise it is acked alone (never together with earlier
  ones) if the handler returned nil, and nacked alone, with requeueing unless that was switched off,
  if it returned an error or panicked. The message has the delivery's ID, body and headers, and the
  headers are shared: the handler that writes metadata writes the delivery's own headers.\<close>

theorem amqp_message_settled:
  assumes "amqp_delivery_fn s c d w0 = (del, w)"
    and "quiet (amqp_onAckError (as_options s))" "quiet (amqp_onNackError (as_options s))"
    and "handle_prepare (amqp_dispatcher s h) del w = ((ackCtx, fin), w1)"
    and "h (dl_Message del) w1 = (r, w2)"
  shows "(\<exists>w'. Handle (amqp_dispatcher s h) del w = ((case r of Ret _ \<Rightarrow> Ret () | Panic q \<Rightarrow> Panic q), w')
        \<and> env w' = (if autoAck (as_options s) then env w2
            else if r = Ret None then snd (del_Ack (as_channel s) (del_Tag d) False (env w2))
            else snd (del_Nack (as_channel s) (del_Tag d) False (\<not> noRequeueOnNack (as_options s)) (env w2))))
    \<and> ID (get_msg w1 (dl_Message del)) = del_MessageId d \<and> Payload (get_msg w1 (dl_Message del)) = VBytes (del_Body d)
    \<and> (\<forall>a. del_Headers d = Some a \<longrightarrow> Metadata (get_msg w1 (dl_Message del)) = Some a)
    \<and> (del_Headers d = None \<longrightarrow> meta_of w1 (dl_Message del) = [])"
proof -
  note facts = amqp_delivery_facts [OF assms(1)]
  have calm: "quiet (OnAckError (d_opts (amqp_dispatcher s h)))" "quiet (OnNackError (d_opts (amqp_dispatcher s h)))"
    "d_handler (amqp_dispatcher s h) = h"
    using assms(2,3) by (simp_all add: amqp_dispatcher_def NewDispatcher_def)
  obtain w' where "Handle (amqp_dispatcher s h) del w = ((case r of Ret _ \<Rightarrow> Ret () | Panic q \<Rightarrow> Panic q), w')"
    "env w' = (if r = Ret None then snd (amqp_ack s d (env w2)) else snd (amqp_nack s d (env w2)))"
    using amqp_received.handled_once [OF calm(1,2) assms(4) [unfolded facts(1)], of r w2] assms(5)
    unfolding facts(1) calm(3) by blast
  moreover have "heap_maps w1 = heap_maps w0 @ [[]]"
    using handle_prepare_frame(3) [OF assms(4)] facts(4) by simp
  ultimately show ?thesis
    using facts(3) by (auto simp: handle_prepare_same [OF assms(4) facts(2)] amqp_ack_def amqp_nack_def read_map_def)
qed

text \<open>A channel that logs the tags it settles, for the witness.\<close>

definition log_acks :: "(64 word \<times> bool) list acknowledger" where
  "log_acks = \<lparr>del_Ack = (\<lambda>t m l. (None, l @ [(t, True)])), del_Nack = (\<lambda>t m q l. (None, l @ [(t, q)]))\<rparr>"

theorem amqp_message_settled_witness:
  "\<exists>s del w w'. NewAMQPSubscriber (Some log_acks) ''q'' [WithNoRequeueOnNack] = Inr s
     \<and> amqp_delivery_fn s Background \<lparr>del_Tag = 7, del_Body = ''b'', del_MessageId = ''m'', del_Headers = None\<rparr> (start_world []) = (del, w)
     \<and> Handle (amqp_dispatcher s (\<lambda>m w. (Ret (Some (ErrNew ''e'')), w))) del w = (Ret (), w') \<and> env w' = [(7, False)]"
proof -
  let ?d = "\<lparr>del_Tag = 7, del_Body = ''b'', del_MessageId = ''m'', del_Headers = None\<rparr>"
  obtain s where s: "NewAMQPSubscriber (Some log_acks) ''q'' [WithNoRequeueOnNack] = Inr s" by (simp add: NewAMQPSubscriber_def)
  then have opts: "\<not> autoAck (as_options s)" "noRequeueOnNack (as_options s)" "as_channel s = log_acks"
    "quiet (amqp_onAckError (as_options s))" "quiet (amqp_onNackError (as_options s))"
    by (auto simp: NewAMQPSubscriber_def WithNoRequeueOnNack_def quiet_def)
  obtain del w where run: "amqp_delivery_fn s Background ?d (start_world []) = (del, w)" by fastforce
  obtain a fin w1 where prep: "handle_prepare (amqp_dispatcher s (\<lambda>m w. (Ret (Some (ErrNew ''e'')), w))) del w = ((a, fin), w1)"
    by (metis prod.exhaust)
  have "env w1 = []"
    using handle_prepare_frame(1) [OF prep] amqp_delivery_facts(5) [OF run] by (simp add: start_world_def)
  with amqp_message_settled [OF run opts(4,5) prep refl] opts
  have "\<exists>w'. Handle (amqp_dispatcher s (\<lambda>m w. (Ret (Some (ErrNew ''e'')), w))) del w = (Ret (), w') \<and> env w' = [(7, False)]"
    by (auto simp: log_acks_def)
  with s run show ?thesis by blast
qed

end
