(* ===== verification/Amqp_Consume.thy ===== *)
theory Amqp_Consume
  imports Amqp_Reconnect Amqp_Subscriber Dispatcher_Slots
begin

text \<open>
  Receiving over AMQP as it runs: the goroutine of \<open>Consume\<close> (\<open>amqp/channel.go\<close>) that reads the
  library's deliveries and consumes again after a loss, the loop of \<open>Receive\<close>
  (\<open>amqp/subscriber.go\<close>) that takes them over the unbuffered channel \<open>deliveries\<close> and dispatches them,
  the dispatcher's goroutines (the relation of \<open>Dispatcher_Slots\<close>) and the watchers with the network
  (the relation of \<open>Amqp_Reconnect\<close>). The first, synchronous consume has succeeded at the start. The
  library may end a delivery channel at any time, and then may drop what it still buffered; it adds
  deliveries only while the library's channel is up. The sleep before a new attempt has no duration.
\<close>

section \<open>The system\<close>

datatype 'm consumer_pc =
    Ranging \<comment> \<open>at the head of \<open>for msg := range d\<close>\<close>
  | Handing 'm \<comment> \<open>in the \<open>select\<close> that sends to \<open>deliveries\<close>\<close>
  | Drained \<comment> \<open>after the range, before \<open>consumingOn.IsClosed()\<close>\<close>
  | Checking \<comment> \<open>at the head of the inner loop\<close>
  | Pausing \<comment> \<open>in the \<open>select\<close> on \<open>time.After\<close>\<close>
  | Reopening \<comment> \<open>before \<open>consumingOn = ch.Channel\<close> and the consume\<close>
  | Stopped \<comment> \<open>returned, \<open>deliveries\<close> is closed\<close>

datatype 'm receiver_pc =
    RSelect
  | RDispatch 'm
  | RWait "gerr option" \<comment> \<open>in the deferred \<open>d.Wait()\<close>, with the result\<close>
  | RDone "gerr option"

record 'm amqp_sys =
  links :: net
  ctx_ended :: bool
  consuming :: nat \<comment> \<open>\<open>consumingOn\<close>\<close>
  feed :: "'m list" \<comment> \<open>buffered in \<open>d\<close>\<close>
  feed_open :: bool
  consumer :: "'m consumer_pc"
  attempts :: nat
  receiver :: "'m receiver_pc"
  pool :: disp
  received :: "'m list" \<comment> \<open>read from \<open>d\<close>, in order\<close>
  dispatched :: "'m list" \<comment> \<open>given to \<open>Dispatch\<close>, in order\<close>
  broker_cancelled :: bool \<comment> \<open>the broker ended a consumer whose channel was up\<close>
  late_calls :: nat \<comment> \<open>consumes tried after the developer closed the channel\<close>

text \<open>The calls of \<open>Dispatch\<close> and the goroutines move on by themselves, but start no new call.\<close>

definition pool_moves :: "nat \<Rightarrow> disp \<Rightarrow> disp \<Rightarrow> bool" where
  "pool_moves cap p q \<longleftrightarrow> disp_step cap p q \<and> stopped q = stopped p \<and> length (jobs q) \<le> length (jobs p)"

definition calling :: "job \<Rightarrow> bool" where
  "calling j \<longleftrightarrow> j \<in> {Offered, Selecting, Refusing, HasSlot}"

definition count_late :: "'m amqp_sys \<Rightarrow> nat" where
  "count_late s = (if closed_flag (links s) then Suc (late_calls s) else late_calls s)"

text \<open>The surroundings: the links, the context, and the broker, which fills and ends \<open>d\<close>.\<close>

inductive broker_step :: "'m amqp_sys \<Rightarrow> 'm amqp_sys \<Rightarrow> bool" where
  network: "net_step (links s) n \<Longrightarrow> broker_step s (s\<lparr>links := n\<rparr>)"
| end_ctx: "broker_step s (s\<lparr>ctx_ended := True, pool := (pool s)\<lparr>stopped := True\<rparr>\<rparr>)"
| deliver: "feed_open s \<Longrightarrow> chan_up (links s) (consuming s) \<Longrightarrow> broker_step s (s\<lparr>feed := feed s @ [m]\<rparr>)"
| feed_end: "feed_open s \<Longrightarrow> broker_step s (s\<lparr>feed_open := False, feed := take k (feed s),
    broker_cancelled := broker_cancelled s \<or> (chan_up (links s) (consuming s) \<and> \<not> ctx_ended s)\<rparr>)"

text \<open>
  The goroutine of \<open>ReconnectingChannel.Consume\<close>. Its send to \<open>deliveries\<close> meets the receive of
  \<open>Receive\<close>, which calls \<open>Dispatch\<close> with the message.
\<close>

inductive consume_step :: "'m amqp_sys \<Rightarrow> 'm amqp_sys \<Rightarrow> bool" where
  take: "consumer s = Ranging \<Longrightarrow> feed s = m # f \<Longrightarrow>
    consume_step s (s\<lparr>consumer := Handing m, feed := f, received := received s @ [m]\<rparr>)"
| drain: "consumer s = Ranging \<Longrightarrow> feed s = [] \<Longrightarrow> \<not> feed_open s \<Longrightarrow> consume_step s (s\<lparr>consumer := Drained\<rparr>)"
| hand: "consumer s = Handing m \<Longrightarrow> receiver s = RSelect \<Longrightarrow>
    consume_step s (s\<lparr>consumer := Ranging, receiver := RDispatch m,
      pool := (pool s)\<lparr>jobs := jobs (pool s) @ [Offered]\<rparr>, dispatched := dispatched s @ [m]\<rparr>)"
| hand_over: "consumer s = Handing m \<Longrightarrow> ctx_ended s \<Longrightarrow> consume_step s (s\<lparr>consumer := Stopped\<rparr>)"
| cancelled: "consumer s = Drained \<Longrightarrow> chan_up (links s) (consuming s) \<Longrightarrow> consume_step s (s\<lparr>consumer := Stopped\<rparr>)"
| lost: "consumer s = Drained \<Longrightarrow> \<not> chan_up (links s) (consuming s) \<Longrightarrow> consume_step s (s\<lparr>consumer := Checking\<rparr>)"
| give_up: "consumer s = Checking \<Longrightarrow> ctx_ended s \<or> closed_flag (links s) \<Longrightarrow> consume_step s (s\<lparr>consumer := Stopped\<rparr>)"
| go_on: "consumer s = Checking \<Longrightarrow> \<not> ctx_ended s \<Longrightarrow> \<not> closed_flag (links s) \<Longrightarrow> consume_step s (s\<lparr>consumer := Pausing\<rparr>)"
| pause_over: "consumer s = Pausing \<Longrightarrow> ctx_ended s \<Longrightarrow> consume_step s (s\<lparr>consumer := Stopped\<rparr>)"
| pause_end: "consumer s = Pausing \<Longrightarrow> consume_step s (s\<lparr>consumer := Reopening, attempts := Suc (attempts s)\<rparr>)"
| reopen_fails: "consumer s = Reopening \<Longrightarrow>
    consume_step s (s\<lparr>consumer := Checking, consuming := chan (links s), feed := [], feed_open := False,
      late_calls := count_late s\<rparr>)"
| reopen: "consumer s = Reopening \<Longrightarrow> chan_up (links s) (chan (links s)) \<Longrightarrow>
    consume_step s (s\<lparr>consumer := Ranging, consuming := chan (links s), feed := [], feed_open := True,
      attempts := 0, late_calls := count_late s\<rparr>)"

text \<open>The loop of \<open>Subscriber.Receive\<close>, with the goroutines of its dispatcher.\<close>

inductive receive_step :: "nat \<Rightarrow> 'm amqp_sys \<Rightarrow> 'm amqp_sys \<Rightarrow> bool" for cap where
  recv_over: "receiver s = RSelect \<Longrightarrow> ctx_ended s \<Longrightarrow> receive_step cap s (s\<lparr>receiver := RWait None\<rparr>)"
| recv_closed: "receiver s = RSelect \<Longrightarrow> consumer s = Stopped \<Longrightarrow>
    receive_step cap s (s\<lparr>receiver := RWait (if ctx_ended s then None else Some ErrChannelClosed)\<rparr>)"
| handlers: "pool_moves cap (pool s) p \<Longrightarrow> receive_step cap s (s\<lparr>pool := p\<rparr>)"
| dispatch_returns: "receiver s = RDispatch m \<Longrightarrow> tally calling (jobs (pool s)) = 0 \<Longrightarrow>
    receive_step cap s (s\<lparr>receiver := RSelect\<rparr>)"
| wait: "receiver s = RWait r \<Longrightarrow> wait_returns (pool s) \<Longrightarrow> receive_step cap s (s\<lparr>receiver := RDone r\<rparr>)"

inductive amqp_step :: "nat \<Rightarrow> 'm amqp_sys \<Rightarrow> 'm amqp_sys \<Rightarrow> bool" for cap where
  surroundings: "broker_step s t \<Longrightarrow> amqp_step cap s t"
| consuming: "consume_step s t \<Longrightarrow> amqp_step cap s t"
| receiving: "receive_step cap s t \<Longrightarrow> amqp_step cap s t"

text \<open>The rules of the parts as rules of the whole.\<close>

lemmas network = broker_step.network [THEN amqp_step.surroundings]
lemmas end_ctx = broker_step.end_ctx [THEN amqp_step.surroundings]
lemmas deliver = broker_step.deliver [THEN amqp_step.surroundings]
lemmas feed_end = broker_step.feed_end [THEN amqp_step.surroundings]
lemmas take = consume_step.take [THEN amqp_step.consuming]
lemmas drain = consume_step.drain [THEN amqp_step.consuming]
lemmas lost = consume_step.lost [THEN amqp_step.consuming]
lemmas go_on = consume_step.go_on [THEN amqp_step.consuming]
lemmas pause_end = consume_step.pause_end [THEN amqp_step.consuming]
lemmas reopen_fails = consume_step.reopen_fails [THEN amqp_step.consuming]
lemmas reopen = consume_step.reopen [THEN amqp_step.consuming]
lemmas recv_over = receive_step.recv_over [THEN amqp_step.receiving]
lemmas handlers = receive_step.handlers [THEN amqp_step.receiving]
lemmas dispatch_returns = receive_step.dispatch_returns [THEN amqp_step.receiving]
lemmas wait = receive_step.wait [THEN amqp_step.receiving]
lemmas amqp_step_elims = amqp_step.cases broker_step.cases consume_step.cases receive_step.cases

definition amqp_init :: "'m amqp_sys \<Rightarrow> bool" where
  "amqp_init s \<longleftrightarrow> (\<exists>n0. net_init n0 \<and> steps net_step n0 (links s)) \<and> chan_up (links s) (chan (links s))
     \<and> consuming s = chan (links s) \<and> feed s = [] \<and> feed_open s \<and> consumer s = Ranging \<and> attempts s = 0
     \<and> receiver s = RSelect \<and> disp_init (pool s) \<and> stopped (pool s) = ctx_ended s
     \<and> received s = [] \<and> dispatched s = [] \<and> \<not> broker_cancelled s \<and> late_calls s = 0"

section \<open>The invariant\<close>

lemma net_step_flag: "net_step n m \<Longrightarrow> closed_flag n \<Longrightarrow> closed_flag m"
  by (elim net_step_elims) simp_all

lemma net_step_chans: "net_step n m \<Longrightarrow> length (chans n) \<le> length (chans m)"
  by (elim net_step_elims) simp_all

lemma net_step_up: "net_step n m \<Longrightarrow> g < length (chans n) \<Longrightarrow> chan_up m g \<Longrightarrow> chan_up n g"
  by (elim net_step_elims) simp_all

lemmas net_step_mono = net_step_flag net_step_up net_step_chans

lemma pool_moves_calling:
  assumes "pool_moves cap p q"
  shows "tally calling (jobs q) \<le> tally calling (jobs p)"
proof -
  have step: "disp_step cap p q" "length (jobs q) \<le> length (jobs p)" using assms by (simp_all add: pool_moves_def)
  from step show ?thesis
    by (cases rule: disp_step.cases) (auto simp: tally_update tally_at [of _ "jobs p"] calling_def)
qed

text \<open>What the consumer read and did not hand on.\<close>

definition unhanded :: "'m amqp_sys \<Rightarrow> 'm list \<Rightarrow> bool" where
  "unhanded s ms \<longleftrightarrow> ms = [] \<and> (\<forall>m. consumer s \<noteq> Handing m)
     \<or> (\<exists>m. ms = [m] \<and> (consumer s = Handing m \<or> consumer s = Stopped \<and> ctx_ended s))"

definition feed_inv :: "'m amqp_sys \<Rightarrow> bool" where
  "feed_inv s \<longleftrightarrow> net_inv (links s) \<and> consuming s < length (chans (links s))
     \<and> (\<not> feed_open s \<longrightarrow> chan_up (links s) (consuming s) \<longrightarrow> consumer s \<in> {Ranging, Drained} \<or> (\<exists>m. consumer s = Handing m)
          \<longrightarrow> broker_cancelled s \<or> ctx_ended s)
     \<and> (consumer s = Drained \<longrightarrow> \<not> feed_open s)
     \<and> (consumer s = Stopped \<longrightarrow> ctx_ended s \<or> closed_flag (links s) \<or> broker_cancelled s)"

definition order_inv :: "'m amqp_sys \<Rightarrow> bool" where
  "order_inv s \<longleftrightarrow> (\<exists>ms. received s = dispatched s @ ms \<and> unhanded s ms)"

definition late_inv :: "'m amqp_sys \<Rightarrow> bool" where
  "late_inv s \<longleftrightarrow> late_calls s \<le> 1 \<and> (0 < late_calls s \<longrightarrow> closed_flag (links s) \<and> consumer s \<notin> {Pausing, Reopening})"

definition pool_inv :: "nat \<Rightarrow> 'm amqp_sys \<Rightarrow> bool" where
  "pool_inv cap s \<longleftrightarrow> disp_inv cap (pool s) \<and> stopped (pool s) = ctx_ended s
     \<and> tally calling (jobs (pool s)) \<le> (case receiver s of RDispatch m \<Rightarrow> 1 | _ \<Rightarrow> 0)
     \<and> (\<forall>r. receiver s = RDone r \<longrightarrow> jobs (pool s) = [])"

definition result_inv :: "'m amqp_sys \<Rightarrow> bool" where
  "result_inv s \<longleftrightarrow> (\<forall>r. receiver s \<in> {RWait r, RDone r} \<longrightarrow>
     (case r of None \<Rightarrow> ctx_ended s
      | Some e \<Rightarrow> e = ErrChannelClosed \<and> consumer s = Stopped \<and> (closed_flag (links s) \<or> broker_cancelled s)))"

lemmas amqp_invs = feed_inv_def order_inv_def late_inv_def pool_inv_def result_inv_def unhanded_def

lemma feed_inv_step:
  assumes "feed_inv s" "amqp_step cap s t"
  shows "feed_inv t"
  using assms(2)
proof (cases rule: amqp_step.cases)
  case surroundings
  then show ?thesis
  proof (cases rule: broker_step.cases)
    case (network n)
    with assms(1) have "net_inv n" "consuming s < length (chans n)" "closed_flag (links s) \<Longrightarrow> closed_flag n"
      "chan_up n (consuming s) \<Longrightarrow> chan_up (links s) (consuming s)"
      using net_step_mono [OF network(2)] net_step_inv [of "links s" n] by (simp_all add: feed_inv_def)
    with network(1) assms(1) show ?thesis by (simp add: feed_inv_def) blast
  qed (use assms(1) in \<open>auto simp: feed_inv_def\<close>)+
next
  case consuming
  have "chan (links s) < length (chans (links s))" using assms(1) by (simp add: feed_inv_def net_inv_def)
  with consuming assms(1) show ?thesis by (cases rule: consume_step.cases) (auto simp: feed_inv_def)
next
  case receiving
  then show ?thesis
    using assms(1) by (cases rule: receive_step.cases) (auto simp: feed_inv_def)
qed

lemma order_inv_step: "amqp_step cap s t \<Longrightarrow> order_inv s \<Longrightarrow> order_inv t"
  by (elim amqp_step_elims) (auto simp: order_inv_def unhanded_def)

lemma late_inv_step:
  assumes "late_inv s" "amqp_step cap s t"
  shows "late_inv t"
  using assms(2,1) by (auto simp: late_inv_def count_late_def elim!: amqp_step_elims dest: net_step_flag split: if_splits)

lemma pool_empty:
  assumes "disp_inv cap p" "wait_returns p" "tally calling (jobs p) = 0"
  shows "jobs p = []"
proof (cases "jobs p")
  case (Cons j js)
  with assms show ?thesis
    by (cases j) (auto simp: disp_inv_def wait_returns_def tally_none job_kinds calling_def)
qed

lemma pool_inv_step:
  assumes "pool_inv cap s" "amqp_step cap s t"
  shows "pool_inv cap t"
  using assms(2)
proof (cases rule: amqp_step.cases)
  case surroundings
  then show ?thesis
    using assms(1) by (cases rule: broker_step.cases) (simp_all add: pool_inv_def disp_inv_def)
next
  case consuming
  then show ?thesis
    using assms(1) by (cases rule: consume_step.cases) (simp_all add: pool_inv_def disp_inv_def job_kinds calling_def)
next
  case receiving
  then show ?thesis
  proof (cases rule: receive_step.cases)
    case (handlers p)
    have "disp_inv cap p" "stopped p = ctx_ended s" "length (jobs p) \<le> length (jobs (pool s))"
      using handlers(2) assms(1) by (auto simp: pool_moves_def pool_inv_def intro: disp_step_inv)
    moreover note pool_moves_calling [OF handlers(2)]
    ultimately show ?thesis using handlers(1) assms(1) by (auto simp: pool_inv_def)
  next
    case (wait r)
    with assms(1) have "jobs (pool s) = []" by (intro pool_empty [of cap]) (simp_all add: pool_inv_def)
    with wait assms(1) show ?thesis by (simp add: pool_inv_def)
  qed (use assms(1) in \<open>simp add: pool_inv_def\<close>)+
qed

lemma result_inv_step:
  assumes "feed_inv s" "result_inv s" "amqp_step cap s t"
  shows "result_inv t"
  using assms(3)
proof (cases rule: amqp_step.cases)
  case surroundings
  then show ?thesis
    using assms(2) by (cases rule: broker_step.cases) (auto simp: result_inv_def split: option.splits dest: net_step_flag)
next
  case consuming
  then show ?thesis
    using assms(2) by (cases rule: consume_step.cases) (auto simp: result_inv_def split: option.splits)
next
  case receiving
  then show ?thesis
    using assms(1,2) by (cases rule: receive_step.cases) (auto simp: result_inv_def feed_inv_def split: option.splits)
qed

definition amqp_inv :: "nat \<Rightarrow> 'm amqp_sys \<Rightarrow> bool" where
  "amqp_inv cap s \<longleftrightarrow> feed_inv s \<and> order_inv s \<and> late_inv s \<and> pool_inv cap s \<and> result_inv s"

lemma amqp_init_inv:
  assumes "amqp_init s"
  shows "amqp_inv cap s"
proof -
  have "net_inv (links s)" using assms by (auto simp: amqp_init_def intro: net.reachable)
  moreover have "disp_inv cap (pool s)" "jobs (pool s) = []"
    using assms disp_init_inv by (auto simp: amqp_init_def disp_init_def)
  ultimately show ?thesis
    using assms by (auto simp: amqp_inv_def amqp_invs amqp_init_def net_inv_def)
qed

lemma amqp_step_inv: "amqp_inv cap s \<Longrightarrow> amqp_step cap s t \<Longrightarrow> amqp_inv cap t"
  unfolding amqp_inv_def
  by (blast intro: feed_inv_step order_inv_step late_inv_step pool_inv_step result_inv_step)

interpretation amqp_run: invariant_system amqp_init "amqp_step cap" "amqp_inv cap" for cap
  by unfold_locales (rule amqp_init_inv amqp_step_inv; assumption)+


section \<open>Properties\<close>

text \<open>C9: Every message read from the broker is dispatched exactly once and in order, across any number of
  reconnections: only the last one read may still be on its way to \<open>Receive\<close>, and it is dropped only
  when the context is done. At most \<open>maxInFlight\<close> handlers run at the same time.\<close>

theorem amqp_dispatches_in_order:
  assumes "amqp_init s0" "steps (amqp_step (nat (d_slots (amqp_dispatcher sub h)))) s0 s"
  shows "(dispatched s = received s \<and> (\<forall>m. consumer s \<noteq> Handing m)
      \<or> (\<exists>m. received s = dispatched s @ [m] \<and> (consumer s = Handing m \<or> consumer s = Stopped \<and> ctx_ended s)))
    \<and> tally (\<lambda>j. j = Handling) (jobs (pool s))
        \<le> (if amqp_maxInFlight (as_options sub) \<le> 0 then 10 else nat (amqp_maxInFlight (as_options sub)))"
proof -
  let ?cap = "nat (d_slots (amqp_dispatcher sub h))"
  have inv: "order_inv s" "disp_inv ?cap (pool s)"
    using amqp_run.reachable [OF assms] by (simp_all add: amqp_inv_def pool_inv_def)
  have "tally (\<lambda>j. j = Handling) (jobs (pool s)) \<le> tally holds_slot (jobs (pool s))"
    by (rule tally_mono) (simp add: job_kinds)
  also have "\<dots> \<le> ?cap" using inv(2) by (simp add: disp_inv_def)
  also have "?cap = (if amqp_maxInFlight (as_options sub) \<le> 0 then 10 else nat (amqp_maxInFlight (as_options sub)))"
    by (simp add: amqp_dispatcher_def NewDispatcher_def DefaultMaxInFlight_def)
  finally show ?thesis using inv(1) by (auto simp: order_inv_def unhanded_def)
qed

text \<open>C11: \<open>Receive\<close> returns only when none of its handlers is left. It returns nil only if the context is
  done, and otherwise \<open>ErrChannelClosed\<close>, and that only if the developer closed the channel or the
  broker ended the consumer while its channel was up: losing the connection or the channel never
  ends it.\<close>

theorem amqp_receive_result:
  assumes "amqp_init s0" "steps (amqp_step cap) s0 s" "receiver s = RDone r"
  shows "jobs (pool s) = [] \<and> slots (pool s) = 0
    \<and> (case r of None \<Rightarrow> ctx_ended s
        | Some e \<Rightarrow> e = ErrChannelClosed \<and> (closed_flag (links s) \<or> broker_cancelled s))"
proof -
  have inv: "pool_inv cap s" "result_inv s" using amqp_run.reachable [OF assms(1,2)] by (simp_all add: amqp_inv_def)
  then have "jobs (pool s) = []" "disp_inv cap (pool s)" using assms(3) by (simp_all add: pool_inv_def)
  with inv(2) assms(3) show ?thesis by (auto simp: disp_inv_def result_inv_def split: option.splits)
qed

text \<open>Steps of the network are steps of the system.\<close>

lemma steps_network: "steps net_step (links s) n \<Longrightarrow> steps (amqp_step cap) s (s\<lparr>links := n\<rparr>)"
proof (induction "links s" n rule: steps.induct)
  case (steps_step t u)
  then have "amqp_step cap (s\<lparr>links := t\<rparr>) (s\<lparr>links := t\<rparr>\<lparr>links := u\<rparr>)"
    by (intro network) simp
  with steps_step show ?case by (auto intro: steps.steps_step)
qed (simp add: steps_refl)


text \<open>The start of a run on a network whose watchers listen, for the witnesses.\<close>

definition fresh :: "nat amqp_sys" where
  "fresh = \<lparr>links = listening, ctx_ended = False, consuming = 0, feed = [], feed_open = True, consumer = Ranging,
            attempts = 0, receiver = RSelect, pool = \<lparr>jobs = [], slots = 0, wg = 0, stopped = False\<rparr>,
            received = [], dispatched = [], broker_cancelled = False, late_calls = 0\<rparr>"

lemma fresh_init: "amqp_init fresh"
  using listening_reached
  by (auto simp: amqp_init_def fresh_def disp_init_def listening_defs chan_up_def)

text \<open>The connection is lost and the library ended the deliveries.\<close>

definition cut_off :: "nat amqp_sys" where
  "cut_off = fresh\<lparr>links := broken, feed_open := False\<rparr>"

lemma cut_off_reached: "steps (amqp_step cap) fresh cut_off"
proof -
  have "net_step listening broken"
    unfolding broken_def by (rule conn_fails) (simp add: listening_defs conn_up_def)
  then have "amqp_step cap fresh (fresh\<lparr>links := broken\<rparr>)" by (intro network) (simp add: fresh_def)
  moreover have "amqp_step cap (fresh\<lparr>links := broken\<rparr>) cut_off"
    using feed_end [of "fresh\<lparr>links := broken\<rparr>" cap 0] by (simp add: cut_off_def fresh_def chan_up_def)
  ultimately show ?thesis by (meson steps.intros)
qed

lemma cut_off_simps [simp]:
  "links cut_off = broken" "\<not> ctx_ended cut_off" "consuming cut_off = 0" "feed cut_off = []" "\<not> feed_open cut_off"
  "consumer cut_off = Ranging" "receiver cut_off = RSelect" "received cut_off = []" "dispatched cut_off = []"
  "late_calls cut_off = 0" "\<not> broker_cancelled cut_off"
  by (simp_all add: cut_off_def fresh_def)

theorem amqp_dispatches_in_order_witness:
  "\<exists>s. steps (amqp_step 10) fresh s \<and> received s = [7] \<and> dispatched s = [] \<and> (consumer s = Handing 7 \<or> consumer s = Stopped)"
proof -
  let ?sub = "\<lparr>as_channel = log_acks, as_queue = [], as_options = \<lparr>autoAck = False, noRequeueOnNack = False, exclusive = False,
     amqp_processingTimeout = 0, amqp_maxInFlight = 0, amqp_onAckError = None, amqp_onNackError = None\<rparr>\<rparr>"
  have cap: "nat (d_slots (amqp_dispatcher ?sub h)) = 10" for h
    by (simp add: amqp_dispatcher_def NewDispatcher_def DefaultMaxInFlight_def)
  let ?a = "fresh\<lparr>feed := [7]\<rparr>" and ?b = "fresh\<lparr>feed := [], consumer := Handing 7, received := [7]\<rparr>"
  have "amqp_step 10 fresh ?a"
    using deliver [of fresh 10 7] by (simp add: fresh_def listening_defs chan_up_def)
  moreover have "amqp_step 10 ?a ?b"
    using take [of ?a 7 "[]" 10] by (simp add: fresh_def)
  ultimately have run: "steps (amqp_step 10) fresh ?b" by (meson steps.intros)
  have "received ?b = [7]" "dispatched ?b = []" "consumer ?b = Handing 7" by (simp_all add: fresh_def)
  moreover have "steps (amqp_step (nat (d_slots (amqp_dispatcher ?sub (\<lambda>m w. (Ret None, w)))))) fresh ?b"
    using run by (simp only: cap)
  note amqp_dispatches_in_order [OF fresh_init this]
  ultimately show ?thesis using run by (intro exI [of _ ?b]) simp
qed

theorem amqp_receive_result_witness:
  "\<exists>s. steps (amqp_step 10) fresh s \<and> receiver s = RDone None \<and> jobs (pool s) = [] \<and> ctx_ended s"
proof -
  let ?a = "fresh\<lparr>ctx_ended := True, pool := (pool fresh)\<lparr>stopped := True\<rparr>\<rparr>"
  have "amqp_step 10 fresh ?a" by (rule end_ctx)
  moreover have "amqp_step 10 ?a (?a\<lparr>receiver := RWait None\<rparr>)" by (rule recv_over) (simp_all add: fresh_def)
  moreover have "amqp_step 10 (?a\<lparr>receiver := RWait None\<rparr>) (?a\<lparr>receiver := RDone None\<rparr>)"
    using wait [of "?a\<lparr>receiver := RWait None\<rparr>" None 10] by (simp add: fresh_def wait_returns_def)
  ultimately have run: "steps (amqp_step 10) fresh (?a\<lparr>receiver := RDone None\<rparr>)" by (meson steps.intros)
  from amqp_receive_result [OF fresh_init run] run show ?thesis
    by (intro exI [of _ "?a\<lparr>receiver := RDone None\<rparr>"]) simp
qed

text \<open>After the developer closed the channel, at most one more consume is tried on it. (The closed flag
  is tested before the pause, not after it, so that one can happen, on a channel that is down.)\<close>

theorem at_most_one_late_consume:
  assumes "amqp_init s0" "steps (amqp_step cap) s0 s"
  shows "late_calls s \<le> 1 \<and> (late_calls s = 1 \<longrightarrow> closed_flag (links s) \<and> consumer s \<notin> {Pausing, Reopening})"
  using amqp_run.reachable [OF assms] by (simp add: amqp_inv_def late_inv_def)

theorem at_most_one_late_consume_witness:
  "\<exists>s. steps (amqp_step 10) fresh s \<and> late_calls s = 1 \<and> closed_flag (links s) \<and> \<not> chan_up (links s) (consuming s)"
proof -
  let ?closed = "broken\<lparr>closed_flag := True\<rparr>"
  let ?p = "cut_off\<lparr>consumer := Pausing\<rparr>"
  let ?c = "?p\<lparr>links := ?closed\<rparr>"
  let ?r = "?c\<lparr>consumer := Reopening, attempts := 1\<rparr>"
  let ?e = "?r\<lparr>consumer := Checking, late_calls := 1\<rparr>"
  have "amqp_step 10 cut_off (cut_off\<lparr>consumer := Drained\<rparr>)" by (rule drain) simp_all
  moreover have "amqp_step 10 (cut_off\<lparr>consumer := Drained\<rparr>) (cut_off\<lparr>consumer := Checking\<rparr>)"
    using lost [of "cut_off\<lparr>consumer := Drained\<rparr>" 10] by (simp add: chan_up_def)
  moreover have "amqp_step 10 (cut_off\<lparr>consumer := Checking\<rparr>) ?p"
    using go_on [of "cut_off\<lparr>consumer := Checking\<rparr>" 10] by simp
  moreover have "amqp_step 10 ?p ?c"
  proof (rule network)
    show "net_step (links ?p) ?closed" using close_flag [of broken] by simp
  qed
  moreover have "amqp_step 10 ?c ?r"
    using pause_end [of ?c 10] by (simp add: cut_off_def fresh_def)
  moreover have "amqp_step 10 ?r ?e"
    using reopen_fails [of ?r 10] by (simp add: count_late_def cut_off_def fresh_def)
  ultimately have run: "steps (amqp_step 10) fresh ?e"
    using cut_off_reached [of 10] by (meson steps_step)
  from at_most_one_late_consume [OF fresh_init run] run show ?thesis
    by (intro exI [of _ ?e]) (simp add: chan_up_def)
qed








text \<open>What the system does once the second connection is lost: only what is buffered is still read.\<close>

definition starved :: "'m amqp_sys \<Rightarrow> 'm amqp_sys \<Rightarrow> bool" where
  "starved s t \<longleftrightarrow> lost_for_good (links t) \<and> broker_cancelled t = broker_cancelled s
     \<and> (\<exists>ms. received t = received s @ ms \<and> prefix (ms @ feed t) (feed s))"

lemma starved_step:
  assumes "starved s t" "amqp_step cap t u"
  shows "starved s u"
proof -
  obtain ms where ms: "lost_for_good (links t)" "broker_cancelled t = broker_cancelled s"
    "received t = received s @ ms" "prefix (ms @ feed t) (feed s)"
    using assms(1) by (auto simp: starved_def)
  note down = lost_for_good_down(2) [OF ms(1)]
  from assms(2) show ?thesis
  proof (cases rule: amqp_step.cases)
    case surroundings
    then show ?thesis
    proof (cases rule: broker_step.cases)
      case (network n)
      with ms lost_for_good_step show ?thesis by (auto simp: starved_def)
    next
      case (feed_end k)
      have "prefix (ms @ take k (feed t)) (ms @ feed t)" by (simp add: take_is_prefix)
      with ms(4) have "prefix (ms @ take k (feed t)) (feed s)" by (metis prefix_order.trans)
      with feed_end ms down show ?thesis by (simp add: starved_def)
    qed (use ms down in \<open>simp_all add: starved_def\<close>)
  next
    case consuming
    then show ?thesis
      using ms down by (cases rule: consume_step.cases) (auto simp: starved_def dest: append_prefixD)
  next
    case receiving
    then show ?thesis using ms by (cases rule: receive_step.cases) (simp_all add: starved_def)
  qed
qed

text \<open>C12: The second loss of the connection silently ends the work of a subscriber: whatever happens from
  then on, no message is read any more but those the library had already buffered, and \<open>Receive\<close>
  does not return either, until the context is done or the developer closes the channel.\<close>

theorem second_loss_starves_receive:
  assumes "amqp_init s0" "steps (amqp_step cap) s0 s"
    and "conn (links s) = 1" "\<not> conn_up (links s) 1" "\<not> broker_cancelled s"
    and "steps (amqp_step cap) s t"
  shows "(\<exists>k. received t = received s @ take k (feed s))
    \<and> (\<forall>r. receiver t = RDone r \<longrightarrow> ctx_ended t \<or> closed_flag (links t))"
proof -
  have "lost_for_good (links s)"
    using amqp_run.reachable [OF assms(1,2)] assms(3,4) by (simp add: lost_for_good_def amqp_inv_def feed_inv_def)
  then have "starved s s" by (simp add: starved_def)
  from assms(6) this have "starved s t"
    by (induction rule: steps.induct) (blast intro: starved_step)+
  then obtain ms where ms: "received t = received s @ ms" "prefix (ms @ feed t) (feed s)" "\<not> broker_cancelled t"
    using assms(5) by (auto simp: starved_def)
  then have "received t = received s @ take (length ms) (feed s)" by (auto elim!: prefixE)
  moreover have "result_inv t"
    using amqp_run.reachable [OF assms(1) steps_trans [OF assms(2,6)]] by (simp add: amqp_inv_def)
  then have "ctx_ended t \<or> closed_flag (links t)" if "receiver t = RDone r" for r
    using that ms(3) by (auto simp: result_inv_def split: option.splits)
  ultimately show ?thesis by blast
qed

theorem second_loss_starves_receive_witness:
  "\<exists>s. steps (amqp_step 10) fresh s \<and> conn (links s) = 1 \<and> consumer s = Ranging \<and> feed s = []
     \<and> (\<forall>t. steps (amqp_step 10) s t \<longrightarrow> received t = [])"
proof -
  let ?n = "drop_conn 1 Failed (redialled 0 broken)"
  let ?s = "cut_off\<lparr>links := ?n\<rparr>"
  have "steps net_step broken (redialled 0 broken)" by (rule conn_repair) simp_all
  moreover have "net_step (redialled 0 broken) ?n"
    by (rule conn_fails) (simp add: redialled_def conn_up_def)
  ultimately have "steps net_step (links cut_off) ?n" by (auto intro: steps_step)
  then have "steps (amqp_step 10) cut_off ?s" by (rule steps_network)
  with cut_off_reached have run: "steps (amqp_step 10) fresh ?s" by (rule steps_trans)
  have last: "conn (links ?s) = 1" "\<not> conn_up (links ?s) 1" "\<not> broker_cancelled ?s"
    by (simp_all add: redialled_def)
  have "received t = []" if "steps (amqp_step 10) ?s t" for t
    using second_loss_starves_receive [OF fresh_init run last that] by auto
  with run last(1) show ?thesis by (intro exI [of _ ?s]) simp
qed


section \<open>Shutting down\<close>

text \<open>The steps of the program itself, without the network, the broker's deliveries and the end of the context.\<close>

definition own_step :: "nat \<Rightarrow> 'm amqp_sys \<Rightarrow> 'm amqp_sys \<Rightarrow> bool" where
  "own_step cap s t \<longleftrightarrow> amqp_step cap s t \<and> t \<noteq> s \<and> links t = links s \<and> ctx_ended t = ctx_ended s
     \<and> length (received t) + length (feed t) \<le> length (received s) + length (feed s)"

text \<open>What is left to do once the context is done.\<close>

fun job_work :: "job \<Rightarrow> nat" where
  "job_work Offered = 5"
| "job_work Selecting = 4"
| "job_work HasSlot = 3"
| "job_work Handling = 2"
| "job_work Leaving = 1"
| "job_work Refusing = 1"

fun consumer_work :: "'m consumer_pc \<Rightarrow> nat" where
  "consumer_work Pausing = 6"
| "consumer_work Reopening = 5"
| "consumer_work (Handing m) = 10"
| "consumer_work Ranging = 3"
| "consumer_work Drained = 2"
| "consumer_work Checking = 1"
| "consumer_work Stopped = 0"

fun receiver_work :: "'m receiver_pc \<Rightarrow> nat" where
  "receiver_work (RDispatch m) = 3"
| "receiver_work RSelect = 2"
| "receiver_work (RWait r) = 1"
| "receiver_work (RDone r) = 0"

definition work_left :: "'m amqp_sys \<Rightarrow> nat" where
  "work_left s = consumer_work (consumer s) + 8 * length (feed s) + (if feed_open s then 1 else 0)
     + receiver_work (receiver s) + work job_work (jobs (pool s))"

lemma pool_work:
  assumes "disp_step cap p q" "stopped p" "stopped q = stopped p" "length (jobs q) \<le> length (jobs p)" "q \<noteq> p"
  shows "work job_work (jobs q) < work job_work (jobs p)"
  using assms
  by (cases rule: disp_step.cases) (auto simp: work_update work_at [of _ "jobs p"])

lemma own_step_works:
  assumes "own_step cap s t" "ctx_ended s" "stopped (pool s)"
  shows "work_left t < work_left s"
proof -
  have step: "amqp_step cap s t" and own: "t \<noteq> s" "links t = links s" "ctx_ended t = ctx_ended s"
    "length (received t) + length (feed t) \<le> length (received s) + length (feed s)"
    using assms(1) by (simp_all add: own_step_def)
  from step show ?thesis
  proof (cases rule: amqp_step.cases)
    case surroundings
    then show ?thesis
    proof (cases rule: broker_step.cases)
      case (deliver m)
      with own(4) show ?thesis by simp
    qed (use own assms(2,3) in \<open>simp_all add: work_left_def\<close>)
  next
    case consuming
    then show ?thesis
      using assms(2) by (cases rule: consume_step.cases) (simp_all add: work_left_def)
  next
    case receiving
    then show ?thesis
    proof (cases rule: receive_step.cases)
      case (handlers p)
      then have "work job_work (jobs p) < work job_work (jobs (pool s))"
        using own(1) assms(3) by (intro pool_work [of cap]) (auto simp: pool_moves_def)
      with handlers show ?thesis by (simp add: work_left_def)
    qed (simp_all add: work_left_def)
  qed
qed

lemma pool_progress:
  assumes "disp_inv cap p" "stopped p" "jobs p \<noteq> []"
  shows "\<exists>q. pool_moves cap p q \<and> q \<noteq> p"
proof -
  obtain j js where js: "jobs p = j # js" using assms(3) by (cases "jobs p") auto
  have first: "0 < length (jobs p)" "jobs p ! 0 = j" by (simp_all add: js)
  have counts: "j = Handling \<Longrightarrow> 0 < slots p" "j = Leaving \<Longrightarrow> 0 < wg p"
    using assms(1) js by (auto simp: disp_inv_def job_kinds)
  have shrink: "length (remove_at 0 (jobs p)) = length js" "jobs p \<noteq> js" by (simp_all add: js remove_at_def)
  show ?thesis
  proof (cases j)
    case Offered
    with disp_step.late [of 0 p cap] first assms(2) js show ?thesis
      by (intro exI [of _ "p\<lparr>jobs := (jobs p)[0 := Refusing]\<rparr>"]) (auto simp: pool_moves_def dest: arg_cong [of _ _ jobs])
  next
    case Selecting
    with disp_step.give_up [of 0 p cap] first assms(2) js show ?thesis
      by (intro exI [of _ "p\<lparr>jobs := (jobs p)[0 := Refusing]\<rparr>"]) (auto simp: pool_moves_def dest: arg_cong [of _ _ jobs])
  next
    case Refusing
    with disp_step.refused [of 0 p cap] first js show ?thesis
      by (intro exI [of _ "p\<lparr>jobs := remove_at 0 (jobs p)\<rparr>"])
        (auto simp: pool_moves_def remove_at_def dest: arg_cong [of _ _ jobs])
  next
    case HasSlot
    with disp_step.start [of 0 p cap] first js show ?thesis
      by (intro exI [of _ "p\<lparr>jobs := (jobs p)[0 := Handling], wg := Suc (wg p)\<rparr>"])
        (auto simp: pool_moves_def dest: arg_cong [of _ _ jobs])
  next
    case Handling
    with disp_step.free [of 0 p cap] first counts js show ?thesis
      by (intro exI [of _ "p\<lparr>jobs := (jobs p)[0 := Leaving], slots := slots p - 1\<rparr>"])
        (auto simp: pool_moves_def dest: arg_cong [of _ _ jobs])
  next
    case Leaving
    with disp_step.leave [of 0 p cap] first counts js show ?thesis
      by (intro exI [of _ "p\<lparr>jobs := remove_at 0 (jobs p), wg := wg p - 1\<rparr>"])
        (auto simp: pool_moves_def remove_at_def dest: arg_cong [of _ _ jobs])
  qed
qed

lemma shutdown_progress:
  assumes "pool_inv cap s" "ctx_ended s" "\<forall>r. receiver s \<noteq> RDone r"
  shows "\<exists>t. own_step cap s t"
proof -
  have pool: "\<exists>t. own_step cap s t" if busy: "jobs (pool s) \<noteq> []"
  proof -
    obtain p where p: "pool_moves cap (pool s) p" "p \<noteq> pool s"
      using pool_progress [of cap "pool s"] assms(1,2) busy by (auto simp: pool_inv_def)
    from handlers [OF p(1)] p(2) show ?thesis
      by (intro exI [of _ "s\<lparr>pool := p\<rparr>"]) (auto simp: own_step_def dest: arg_cong [of _ _ pool])
  qed
  show ?thesis
  proof (cases "receiver s")
    case RSelect
    with recv_over [OF RSelect assms(2), of cap] show ?thesis
      by (intro exI [of _ "s\<lparr>receiver := RWait None\<rparr>"]) (auto simp: own_step_def dest: arg_cong [of _ _ receiver])
  next
    case (RDispatch m)
    show ?thesis
    proof (cases "tally calling (jobs (pool s)) = 0")
      case True
      from dispatch_returns [OF RDispatch True, of cap] RDispatch show ?thesis
        by (intro exI [of _ "s\<lparr>receiver := RSelect\<rparr>"]) (auto simp: own_step_def dest: arg_cong [of _ _ receiver])
    qed (auto intro: pool)
  next
    case (RWait r)
    show ?thesis
    proof (cases "wait_returns (pool s)")
      case True
      from wait [OF RWait True, of cap] RWait show ?thesis
        by (intro exI [of _ "s\<lparr>receiver := RDone r\<rparr>"]) (auto simp: own_step_def dest: arg_cong [of _ _ receiver])
    next
      case False
      then have "jobs (pool s) \<noteq> []" using assms(1) by (auto simp: wait_returns_def pool_inv_def disp_inv_def)
      then show ?thesis by (rule pool)
    qed
  qed (use assms(3) in simp)
qed

text \<open>C10: Once the context is done, \<open>Receive\<close> terminates: every run of the program's own steps is finite,
  at most as long as the work left (a few steps for every message buffered and every delivery being
  handled), and such a run can only end when \<open>Receive\<close> has returned. (A handler that is called
  returns, and the broker delivers no more.)\<close>

theorem amqp_shutdown_terminates:
  assumes "amqp_init s0" "steps (amqp_step cap) s0 s" "ctx_ended s"
  shows "(\<forall>f n. f 0 = s \<and> (\<forall>i < n. own_step cap (f i) (f (Suc i))) \<longrightarrow> n \<le> work_left s)
    \<and> (\<forall>t. steps (own_step cap) s t \<longrightarrow> (\<exists>u. own_step cap t u) \<or> (\<exists>r. receiver t = RDone r))"
proof -
  have inv: "amqp_inv cap s \<and> ctx_ended s" using amqp_run.reachable [OF assms(1,2)] assms(3) by simp
  have keep: "amqp_inv cap u \<and> ctx_ended u \<and> work_left u < work_left t"
    if "own_step cap t u" "amqp_inv cap t \<and> ctx_ended t" for t u
    using that amqp_step_inv [of cap t u] own_step_works [OF that(1)]
    by (auto simp: own_step_def amqp_inv_def pool_inv_def)
  have left: "amqp_inv cap (f n) \<and> ctx_ended (f n) \<and> work_left (f n) + n \<le> work_left s"
    if "f 0 = s" "\<forall>i < n. own_step cap (f i) (f (Suc i))" for f n
    using that
  proof (induction n)
    case (Suc n)
    then have "amqp_inv cap (f n) \<and> ctx_ended (f n) \<and> work_left (f n) + n \<le> work_left s" by simp
    with Suc.prems keep [of "f n" "f (Suc n)"] show ?case by auto
  qed (use inv in simp)
  then have "n \<le> work_left s" if "f 0 = s" "\<forall>i < n. own_step cap (f i) (f (Suc i))" for f n
    using left [OF that] by linarith
  moreover have "amqp_inv cap t \<and> ctx_ended t" if "steps (own_step cap) s t" for t
    using that inv by (induction rule: steps.induct) (use keep in blast)+
  then have "(\<exists>u. own_step cap t u) \<or> (\<exists>r. receiver t = RDone r)" if "steps (own_step cap) s t" for t
    using that shutdown_progress [of cap t] by (auto simp: amqp_inv_def)
  ultimately show ?thesis by blast
qed

theorem amqp_shutdown_terminates_witness:
  "\<exists>s. steps (amqp_step 10) fresh s \<and> ctx_ended s \<and> work_left s = 6
     \<and> (\<forall>f n. f 0 = s \<and> (\<forall>i < n. own_step 10 (f i) (f (Suc i))) \<longrightarrow> n \<le> 6)"
proof -
  let ?s = "fresh\<lparr>ctx_ended := True, pool := (pool fresh)\<lparr>stopped := True\<rparr>\<rparr>"
  have run: "steps (amqp_step 10) fresh ?s" by (intro steps_single end_ctx)
  have "ctx_ended ?s" and six: "work_left ?s = 6" by (simp_all add: work_left_def fresh_def)
  from amqp_shutdown_terminates [OF fresh_init run this(1)] run six show ?thesis
    by (intro exI [of _ ?s]) simp
qed

end
