(* ===== verification/Metrics.thy ===== *)
theory Metrics
  imports Middleware
begin

text \<open>
  \<open>prometheus/middleware/metrics.go\<close>: the counting and timing middlewares. The collectors of the
  client library are arguments: functions on the environment, and for the labelled ones an
  operation that may panic (the library panics on labels that do not fit). A duration is in
  nanoseconds; its conversion to seconds belongs to the argument.
\<close>

text \<open>\<open>defer func() { f() }()\<close> of an \<open>f\<close> that may panic: its panic replaces the result.\<close>

definition deferring_act :: "('e, unit) act \<Rightarrow> 'a res \<times> 'e world \<Rightarrow> 'a res \<times> 'e world" where
  "deferring_act f rw =
     (case rw of (r, w) \<Rightarrow> (case f w of (Ret _, w') \<Rightarrow> (r, w') | (Panic q, w') \<Rightarrow> (Panic q, w')))"

text \<open>The named result \<open>err\<close> as a deferred function sees it: still nil if the handler panicked.\<close>

fun named_err :: "gerr option res \<Rightarrow> gerr option" where
  "named_err (Ret err) = err"
| "named_err (Panic q) = None"

type_synonym labels = "(string, string) gomap"

type_synonym 'e labels_producer = "addr \<Rightarrow> gerr option \<Rightarrow> ('e, labels) act"

definition PrometheusMetricsCount :: "('e \<Rightarrow> 'e) \<Rightarrow> 'e middleware" where
  "PrometheusMetricsCount inc next msg w =
     deferring (\<lambda>w. w\<lparr>env := inc (env w)\<rparr>) (next msg) w"

definition PrometheusMetricsCountVec ::
  "(labels \<Rightarrow> ('e, unit) act) \<Rightarrow> 'e labels_producer \<Rightarrow> 'e middleware"
where
  "PrometheusMetricsCountVec inc_with labelsProducer next msg w =
     (let (r, w1) = next msg w
      in deferring_act (andThen (labelsProducer msg (named_err r)) inc_with) (r, w1))"

definition PrometheusMetricsDuration :: "(int \<Rightarrow> 'e \<Rightarrow> 'e) \<Rightarrow> 'e middleware" where
  "PrometheusMetricsDuration observe next msg w =
     (let start = clock w
      in deferring (\<lambda>w. w\<lparr>env := observe (clock w - start) (env w)\<rparr>) (next msg) w)"

definition PrometheusMetricsDurationVec ::
  "(labels \<Rightarrow> int \<Rightarrow> ('e, unit) act) \<Rightarrow> 'e labels_producer \<Rightarrow> 'e middleware"
where
  "PrometheusMetricsDurationVec observe_with labelsProducer next msg w =
     (let start = clock w;
          (r, w1) = next msg w
      in deferring_act (andThen (labelsProducer msg (named_err r))
           (\<lambda>ls w. observe_with ls (clock w - start) w)) (r, w1))"

interpretation count: around_middleware "PrometheusMetricsCount inc" "\<lambda>m w. w"
  "\<lambda>m w r w'. w'\<lparr>env := inc (env w')\<rparr>" for inc
  by unfold_locales (simp add: PrometheusMetricsCount_def deferring_def split: prod.split)

interpretation duration: around_middleware "PrometheusMetricsDuration observe" "\<lambda>m w. w"
  "\<lambda>m w r w'. w'\<lparr>env := observe (clock w' - clock w) (env w')\<rparr>" for observe
  by unfold_locales (simp add: PrometheusMetricsDuration_def deferring_def split: prod.split)

text \<open>Labels and collectors that do not panic.\<close>

definition pure_labels :: "(addr \<Rightarrow> gerr option \<Rightarrow> labels) \<Rightarrow> 'e labels_producer" where
  "pure_labels f msg err w = (Ret (f msg err), w)"

definition collect :: "('e \<Rightarrow> 'e) \<Rightarrow> ('e, unit) act" where
  "collect f w = (Ret (), w\<lparr>env := f (env w)\<rparr>)"

interpretation count_vec: around_middleware
  "PrometheusMetricsCountVec (\<lambda>ls. collect (inc ls)) (pure_labels f)" "\<lambda>m w. w"
  "\<lambda>m w r w'. w'\<lparr>env := inc (f m (named_err r)) (env w')\<rparr>" for inc f
  by unfold_locales
    (auto simp: PrometheusMetricsCountVec_def deferring_act_def andThen_def pure_labels_def collect_def
      split: prod.split)

interpretation duration_vec: around_middleware
  "PrometheusMetricsDurationVec (\<lambda>ls d. collect (observe ls d)) (pure_labels f)" "\<lambda>m w. w"
  "\<lambda>m w r w'. w'\<lparr>env := observe (f m (named_err r)) (clock w' - clock w) (env w')\<rparr>" for observe f
  by unfold_locales
    (auto simp: PrometheusMetricsDurationVec_def deferring_act_def andThen_def pure_labels_def collect_def
      split: prod.split)

text \<open>Wrapped around any handler, the four metrics middlewares record exactly one observation for each
  message, whether the handler returns nil, returns an error or panics, and pass its result on
  unchanged. The observation is made after the handler; the duration is the time from the call to
  the end of the handler. A handler that panics is labelled like one that returned nil.\<close>

theorem metrics_record_once:
  assumes "h msg w = (r, w1)"
  shows "PrometheusMetricsCount inc h msg w = (r, w1\<lparr>env := inc (env w1)\<rparr>)
    \<and> PrometheusMetricsDuration observe h msg w = (r, w1\<lparr>env := observe (clock w1 - clock w) (env w1)\<rparr>)
    \<and> PrometheusMetricsCountVec (\<lambda>ls. collect (inc_with ls)) (pure_labels f) h msg w
        = (r, w1\<lparr>env := inc_with (f msg (case r of Ret err \<Rightarrow> err | Panic _ \<Rightarrow> None)) (env w1)\<rparr>)
    \<and> PrometheusMetricsDurationVec (\<lambda>ls d. collect (observe_with ls d)) (pure_labels f) h msg w
        = (r, w1\<lparr>env := observe_with (f msg (case r of Ret err \<Rightarrow> err | Panic _ \<Rightarrow> None)) (clock w1 - clock w) (env w1)\<rparr>)"
proof -
  have "named_err r = (case r of Ret err \<Rightarrow> err | Panic _ \<Rightarrow> None)" by (cases r) simp_all
  with assms show ?thesis
    by (simp add: count.form duration.form count_vec.form duration_vec.form)
qed

theorem metrics_record_once_witness:
  "PrometheusMetricsCount Suc (\<lambda>m w. (Panic (PVal VNil), w)) 0 (start_world 4) = (Panic (PVal VNil), start_world 5)"
proof -
  have "(\<lambda>m w. (Panic (PVal VNil), w)) (0 :: addr) (start_world (4 :: nat)) = (Panic (PVal VNil), start_world 4)" by simp
  from metrics_record_once [where h = "\<lambda>m w. (Panic (PVal VNil), w)", OF this]
  have "PrometheusMetricsCount Suc (\<lambda>m w. (Panic (PVal VNil), w)) 0 (start_world (4 :: nat))
      = (Panic (PVal VNil), (start_world 4)\<lparr>env := Suc (env (start_world 4))\<rparr>)" by blast
  then show ?thesis by (simp add: start_world_def)
qed

end
