(* ===== verification/Examples.thy ===== *)
theory Examples
  imports Engines Metrics Json_Payload Publisher_Adapter Dispatcher
begin

text \<open>
  What the example programs share: \<open>examples/types.go\<close>, the circuit breaker middleware, the event type
  middleware and the metered engines, which \<open>examples/amqp\<close>, \<open>examples/redis\<close> and \<open>examples/google\<close> set
  up alike. The environment of a running program has three parts: the cache of its publisher, the
  broker's client, and what it prints and counts. The Prometheus registry and its collectors, the
  random source and the terminal are functions on the third.
\<close>

section \<open>A running program\<close>

record ('p, 'c, 'u) program =
  prog_cache :: "'p mp_state"
  prog_client :: 'c
  prog_out :: 'u

text \<open>A broker's publisher as the publisher of an engine of the program.\<close>

definition publisher_handler ::
  "(addr \<Rightarrow> 'p mp_state \<Rightarrow> 'c world \<Rightarrow> (gerr option res \<times> 'c world) \<times> 'p mp_state)
     \<Rightarrow> ('p, 'c, 'u) program handler"
where
  "publisher_handler pub msg w =
     (let x = env w;
          ((r, w1), s1) = pub msg (prog_cache x) (with_env (prog_client x) w)
      in (r, with_env (x\<lparr>prog_cache := s1, prog_client := env w1\<rparr>) w1))"

definition on_out :: "('u \<Rightarrow> 'a res \<times> 'u) \<Rightarrow> (('p, 'c, 'u) program, 'a) act" where
  "on_out f w = (case f (prog_out (env w)) of (r, u) \<Rightarrow> (r, w\<lparr>env := (env w)\<lparr>prog_out := u\<rparr>\<rparr>))"

section \<open>Event types\<close>

text \<open>
  \<open>reflect.Type\<close>, as far as \<open>getTypeName\<close> looks at it. The payloads of the model are no pointers, so
  \<open>reflect_TypeOf\<close> gives no \<open>Pointer\<close>.
\<close>

datatype rtype = Defined gtype | Pointer gtype

definition reflect_TypeOf :: "gval \<Rightarrow> rtype option" where
  "reflect_TypeOf v = map_option Defined (dyn_type v)"

fun getTypeName :: "rtype option \<Rightarrow> string res" where
  "getTypeName None = Panic nil_deref_panic"
| "getTypeName (Some (Pointer T)) = Ret (''*'' @ type_name T)"
| "getTypeName (Some (Defined T)) = Ret (type_name T)"

definition AddStructNameToMetadata :: "'e middleware" where
  "AddStructNameToMetadata next msg w =
     (case getTypeName (reflect_TypeOf (Payload (get_msg w msg))) of
        Panic q \<Rightarrow> (Panic q, w)
      | Ret name \<Rightarrow>
          andThen (map_assign (Metadata (get_msg w msg)) ''event_type'' (VString name)) (\<lambda>_. next msg) w)"

section \<open>Collectors\<close>

datatype vec_kind = CounterVec | HistogramVec

record collector =
  col_kind :: vec_kind
  Namespace :: string
  Subsystem :: string
  Name :: string
  label_names :: "string list"

record 'u prom =
  prom_Register :: "collector \<Rightarrow> 'u \<Rightarrow> gerr option \<times> 'u"
  prom_Inc :: "collector \<Rightarrow> labels \<Rightarrow> 'u \<Rightarrow> unit res \<times> 'u"
  prom_Observe :: "collector \<Rightarrow> labels \<Rightarrow> int \<Rightarrow> 'u \<Rightarrow> unit res \<times> 'u"

definition register_collector :: "'u prom \<Rightarrow> collector \<Rightarrow> (('p, 'c, 'u) program, collector) act" where
  "register_collector P c = on_out (\<lambda>u. case prom_Register P c u of
     (None, u) \<Rightarrow> (Ret c, u) | (Some err, u) \<Rightarrow> (Panic (PErr err), u))"

definition CreatePromOutgoingCount :: "'u prom \<Rightarrow> string list \<Rightarrow> (('p, 'c, 'u) program, collector) act" where
  "CreatePromOutgoingCount P labels = register_collector P \<lparr>col_kind = CounterVec, Namespace = ''test'',
     Subsystem = ''test'', Name = ''outgoing_test_counter'', label_names = labels\<rparr>"

definition CreatePromOutgoingDuration :: "'u prom \<Rightarrow> string list \<Rightarrow> (('p, 'c, 'u) program, collector) act" where
  "CreatePromOutgoingDuration P labels = register_collector P \<lparr>col_kind = HistogramVec, Namespace = ''test'',
     Subsystem = ''test'', Name = ''outgoing_test_duration'', label_names = labels\<rparr>"

definition CreatePromIncomingCount :: "'u prom \<Rightarrow> string list \<Rightarrow> (('p, 'c, 'u) program, collector) act" where
  "CreatePromIncomingCount P labels = register_collector P \<lparr>col_kind = CounterVec, Namespace = ''test'',
     Subsystem = ''test'', Name = ''incoming_test_counter'', label_names = labels\<rparr>"

definition CreatePromIncomingDuration :: "'u prom \<Rightarrow> string list \<Rightarrow> (('p, 'c, 'u) program, collector) act" where
  "CreatePromIncomingDuration P labels = register_collector P \<lparr>col_kind = HistogramVec, Namespace = ''test'',
     Subsystem = ''test'', Name = ''incoming_test_duration'', label_names = labels\<rparr>"

definition FormatBool :: "bool \<Rightarrow> string" where
  "FormatBool b = (if b then ''true'' else ''false'')"

text \<open>\<open>publisherLabelsProducer\<close> and \<open>subscriberLabelsProducer\<close>, which differ in their first label.\<close>

definition engine_labels :: "string \<Rightarrow> string \<Rightarrow> gerr option \<Rightarrow> labels" where
  "engine_labels key name err = [(key, name), (''error'', FormatBool (err \<noteq> None))]"

definition publisherLabelsProducer :: "'e labels_producer" where
  "publisherLabelsProducer msg err w = (Ret (engine_labels ''publisher'' ''my_publisher'' err), w)"

definition subscriberLabelsProducer :: "'e labels_producer" where
  "subscriberLabelsProducer msg err w = (Ret (engine_labels ''subscriber'' ''my_subscriber'' err), w)"

section \<open>The terminal and the event handlers\<close>

text \<open>
  \<open>term_Errorf\<close> prints the line of an error callback: its text, the message's ID and metadata and the
  error. \<open>StampMilli\<close> is the text of a time.
\<close>

record 'u terminal =
  Intn :: "int \<Rightarrow> 'u \<Rightarrow> int \<times> 'u"
  term_Print :: "string \<Rightarrow> 'u \<Rightarrow> 'u"
  term_Errorf :: "string \<Rightarrow> string \<Rightarrow> (string, gval) gomap \<Rightarrow> gerr \<Rightarrow> 'u \<Rightarrow> 'u"
  StampMilli :: "int \<Rightarrow> string"

definition print_error :: "'u terminal \<Rightarrow> string \<Rightarrow> addr \<Rightarrow> gerr \<Rightarrow> (('p, 'c, 'u) program, unit) act" where
  "print_error io what msg err w =
     on_out (\<lambda>u. (Ret (), term_Errorf io what (ID (get_msg w msg)) (meta_of w msg) err u)) w"

definition newline :: string where
  "newline = [CHR 0x0A]"

text \<open>The body the handlers of \<open>main\<close> share: sleep for a random time and say so before and after.\<close>

definition sleepy ::
  "'u terminal \<Rightarrow> int \<Rightarrow> int \<Rightarrow> string \<Rightarrow> string \<Rightarrow> (('p, 'c, 'u) program, gerr option) act"
where
  "sleepy io spread least before after w =
     (let (k, u) = Intn io spread (prog_out (env w));
          sec = k + least;
          start = clock w;
          u1 = term_Print io (before @ show_int sec @ '' seconds'' @ newline) u;
          now = start + sec * 1000000000;
          u2 = term_Print io (after @ '' at '' @ StampMilli io start @ '' finished at '' @ StampMilli io now @ newline) u1
      in (Ret None, w\<lparr>clock := now, env := (env w)\<lparr>prog_out := u2\<rparr>\<rparr>))"

text \<open>The text of a string field of a struct.\<close>

fun text_field :: "nat \<Rightarrow> gval \<Rightarrow> string" where
  "text_field i (VStruct n fs) = (if i < length fs then (case fs ! i of VString s \<Rightarrow> s | _ \<Rightarrow> []) else [])"
| "text_field i _ = []"

section \<open>Middlewares\<close>

text \<open>
  \<open>examples/middleware/circuitbreaker.go\<close>: \<open>execute\<close> is the breaker's \<open>Execute\<close>, which runs the
  function it is given or refuses with an error of its own.
\<close>

definition CircuitBreaker ::
  "(('e, gerr option) act \<Rightarrow> ('e, gerr option) act) \<Rightarrow> 'e middleware"
where
  "CircuitBreaker execute next msg = execute (next msg)"

text \<open>The four middlewares each engine starts with.\<close>

definition metered ::
  "'u prom \<Rightarrow> 'u terminal \<Rightarrow> (gval \<Rightarrow> string) \<Rightarrow> ('p, 'c, 'u) program labels_producer \<Rightarrow> string
     \<Rightarrow> collector \<Rightarrow> collector \<Rightarrow> ('p, 'c, 'u) program middleware list"
where
  "metered P io fv producer what counter timer =
     [PrometheusMetricsCountVec (\<lambda>ls. on_out (prom_Inc P counter ls)) producer,
      PrometheusMetricsDurationVec (\<lambda>ls d. on_out (prom_Observe P timer ls d)) producer,
      OnError (print_error io what),
      ConvertPanicToError fv]"

text \<open>
  The rest of the three \<open>createPublisher\<close> and \<open>createSubscriber\<close> functions once the broker's publisher
  or subscriber is made: the engine with its collectors and middlewares. \<open>ms\<close> are the middlewares a
  program adds after the common ones, \<open>outer\<close> those it adds before.
\<close>

definition pe_add_all :: "'e publishing_engine \<Rightarrow> 'e middleware list \<Rightarrow> 'e publishing_engine" where
  "pe_add_all e ms = foldl (\<lambda>e m. snd (PublishingEngine_AddMiddleware e m)) e ms"

lemma pe_add_all_fresh:
  "pe_handlerFn e = None \<Longrightarrow> pe_add_all e ms = e\<lparr>pe_mc := foldl Add (pe_mc e) ms\<rparr>"
  unfolding pe_add_all_def
  by (induction ms arbitrary: e) (simp_all add: PublishingEngine_AddMiddleware_def)

definition metered_publisher ::
  "'u prom \<Rightarrow> 'u terminal \<Rightarrow> (gval \<Rightarrow> string) \<Rightarrow> ('p, 'c, 'u) program handler \<Rightarrow> ('p, 'c, 'u) program middleware list
     \<Rightarrow> (('p, 'c, 'u) program, ('p, 'c, 'u) program publishing_engine) act"
where
  "metered_publisher P io fv pub ms =
     (let pubEngine = NewPublishingEngine pub
      in andThen (CreatePromOutgoingCount P [''publisher'', ''error'']) (\<lambda>counter.
         andThen (CreatePromOutgoingDuration P [''publisher'', ''error'']) (\<lambda>timer w.
           (Ret (pe_add_all pubEngine (metered P io fv publisherLabelsProducer ''publisher'' counter timer @ ms)), w))))"

definition metered_subscriber ::
  "'u prom \<Rightarrow> 'u terminal \<Rightarrow> (gval \<Rightarrow> string)
     \<Rightarrow> (ctx \<Rightarrow> (('p, 'c, 'u) program rstore \<Rightarrow> ('p, 'c, 'u) program handler) \<Rightarrow> (('p, 'c, 'u) program, gerr option) act)
     \<Rightarrow> ('p, 'c, 'u) program router \<Rightarrow> ('p, 'c, 'u) program middleware list
     \<Rightarrow> (('p, 'c, 'u) program, ('p, 'c, 'u) program subscription_engine) act"
where
  "metered_subscriber P io fv receive router outer =
     (let subEngine = NewSubscriptionEngine receive router
      in andThen (CreatePromIncomingCount P [''subscriber'', ''error'']) (\<lambda>counter.
         andThen (CreatePromIncomingDuration P [''subscriber'', ''error'']) (\<lambda>timer w.
           (Ret (add_all subEngine (outer @ metered P io fv subscriberLabelsProducer ''handler'' counter timer)), w))))"

text \<open>
  The router each \<open>main\<close> sets up: routes by the event type, with their middlewares and handlers, and a
  default handler. The handlers sleep and print.
\<close>

type_synonym 'e event_route = "string \<times> 'e middleware list \<times> 'e handler"

definition event_router ::
  "(gval \<Rightarrow> string) \<Rightarrow> 'e event_route list \<Rightarrow> 'e handler \<Rightarrow> 'e rstore \<Rightarrow> 'e router res \<times> 'e rstore"
where
  "event_router fv routes dflt st =
     (let (router, st1) = NewRouter (RouteFromMetadataKey fv ''event_type'') [] st;
          st2 = fold (\<lambda>(key, r). register router key r) routes st1
      in (AddDefaultHandler router (Some dflt), st2))"

definition sleeping_handler1 :: "'u terminal \<Rightarrow> addr \<Rightarrow> gval \<Rightarrow> (('p, 'c, 'u) program, gerr option) act" where
  "sleeping_handler1 io msg dummyEvent1 w =
     sleepy io 5 2 ''Dummy event handler 1: Sleeping for ''
       (''Dummy event handler 1: handler received message '' @ ID (get_msg w msg) @ '' with prop1=['' @ text_field 0 dummyEvent1 @ '']'') w"

definition sleeping_default_handler :: "'u terminal \<Rightarrow> ('p, 'c, 'u) program handler" where
  "sleeping_default_handler io msg w =
     sleepy io 5 2 ''Default handler: Sleeping for '' (''Default handler received message '' @ ID (get_msg w msg)) w"

section \<open>Facts on metered engines\<close>

lemma publisher_handler_run:
  "pub m (prog_cache (env w)) (with_env (prog_client (env w)) w) = ((r, w1), s') \<Longrightarrow>
   publisher_handler pub m w = (r, with_env ((env w)\<lparr>prog_cache := s', prog_client := env w1\<rparr>) w1)"
  by (simp add: publisher_handler_def Let_def)

lemma read_map_env: "read_map (w\<lparr>env := e\<rparr>) r = read_map w r"
  by (simp add: read_map_def split: option.split)

text \<open>What a collector of the client library does with labels that fit its names.\<close>

definition fits :: "collector \<Rightarrow> labels \<Rightarrow> bool" where
  "fits c ls \<longleftrightarrow> set (map fst ls) = set (label_names c)"

text \<open>The error that leaves \<open>ConvertPanicToError\<close>.\<close>

fun recovered :: "(gval \<Rightarrow> string) \<Rightarrow> gerr option res \<Rightarrow> gerr option" where
  "recovered fv (Ret err) = err"
| "recovered fv (Panic (PErr e)) = Some e"
| "recovered fv (Panic (PVal v)) = Some (ErrNew (''panic recovered: '' @ sprint_v fv v))"

lemma ConvertPanicToError_recovered:
  "next msg w = (r, w1) \<Longrightarrow> ConvertPanicToError fv next msg w = (Ret (recovered fv r), w1)"
  by (cases "(fv, r)" rule: recovered.cases) (auto simp: ConvertPanicToError_def)

text \<open>
  The outcome of a metered engine: it never panics; an error is printed first, then the duration is
  observed and the message counted, both under the labels of the result.
\<close>

definition metered_out ::
  "(collector \<Rightarrow> labels \<Rightarrow> 'u \<Rightarrow> 'u) \<Rightarrow> (collector \<Rightarrow> labels \<Rightarrow> int \<Rightarrow> 'u \<Rightarrow> 'u) \<Rightarrow> 'u terminal \<Rightarrow> string
     \<Rightarrow> collector \<Rightarrow> collector \<Rightarrow> labels \<Rightarrow> int \<Rightarrow> string \<Rightarrow> (string, gval) gomap \<Rightarrow> gerr option \<Rightarrow> 'u \<Rightarrow> 'u"
where
  "metered_out inc observe io what counter timer ls d i meta err u =
     inc counter ls (observe timer ls d
       (case err of None \<Rightarrow> u | Some e \<Rightarrow> term_Errorf io what i meta e u))"

text \<open>The labels and durations that fit are recorded, as the client library documents.\<close>

definition records ::
  "'u prom \<Rightarrow> (collector \<Rightarrow> labels \<Rightarrow> 'u \<Rightarrow> 'u) \<Rightarrow> (collector \<Rightarrow> labels \<Rightarrow> int \<Rightarrow> 'u \<Rightarrow> 'u) \<Rightarrow> bool"
where
  "records P inc observe \<longleftrightarrow>
     (\<forall>c ls u. fits c ls \<longrightarrow> prom_Inc P c ls u = (Ret (), inc c ls u))
   \<and> (\<forall>c ls d u. fits c ls \<longrightarrow> prom_Observe P c ls d u = (Ret (), observe c ls d u))"

lemma counted_outcome:
  assumes recs: "records P inc observe" and prod: "\<forall>m err w. producer m err w = (Ret (ls err), w)"
    and fit: "\<forall>err. fits counter (ls err) \<and> fits timer (ls err)"
    and inner: "h msg w = (Ret err, w1)"
  shows "PrometheusMetricsCountVec (\<lambda>ls. on_out (prom_Inc P counter ls)) producer
      (PrometheusMetricsDurationVec (\<lambda>ls d. on_out (prom_Observe P timer ls d)) producer h) msg w =
    (Ret err, w1\<lparr>env := (env w1)\<lparr>prog_out :=
       inc counter (ls err) (observe timer (ls err) (clock w1 - clock w) (prog_out (env w1)))\<rparr>\<rparr>)"
  using inner recs
  by (simp add: PrometheusMetricsCountVec_def PrometheusMetricsDurationVec_def deferring_act_def andThen_def prod on_out_def
      records_def fit)

lemma metered_outcome:
  assumes recs: "records P inc observe" and prod: "\<forall>m err w. producer m err w = (Ret (ls err), w)"
    and fit: "\<forall>err. fits counter (ls err) \<and> fits timer (ls err)"
    and inner: "h msg w = (r, w1)"
  shows "foldr (\<lambda>m inner. m inner) (metered P io fv producer what counter timer) h msg w =
    (Ret (recovered fv r), w1\<lparr>env := (env w1)\<lparr>prog_out :=
       metered_out inc observe io what counter timer (ls (recovered fv r)) (clock w1 - clock w)
         (ID (get_msg w1 msg)) (meta_of w1 msg) (recovered fv r) (prog_out (env w1))\<rparr>\<rparr>)"
proof -
  let ?c = "ConvertPanicToError fv h"
  have c: "?c msg w = (Ret (recovered fv r), w1)" using inner by (rule ConvertPanicToError_recovered)
  define u where "u = (case recovered fv r of None \<Rightarrow> prog_out (env w1)
      | Some e \<Rightarrow> term_Errorf io what (ID (get_msg w1 msg)) (meta_of w1 msg) e (prog_out (env w1)))"
  have "OnError (print_error io what) ?c msg w = (Ret (recovered fv r), w1\<lparr>env := (env w1)\<lparr>prog_out := u\<rparr>\<rparr>)"
    using c by (cases "recovered fv r") (simp_all add: OnError_def andThen_def print_error_def on_out_def u_def)
  from counted_outcome [where producer = producer and ls = ls and h = "OnError (print_error io what) ?c", OF recs prod fit this] show ?thesis
    by (simp add: metered_def metered_out_def u_def)
qed

lemma metered_publisher_made:
  assumes "metered_publisher P io fv pub ms v = (Ret eng, v')"
  shows "\<exists>counter timer. label_names counter = [''publisher'', ''error''] \<and> label_names timer = [''publisher'', ''error'']
    \<and> eng = (NewPublishingEngine pub)
        \<lparr>pe_mc := foldl Add NewChain (metered P io fv publisherLabelsProducer ''publisher'' counter timer @ ms)\<rparr>"
  using assms
  by (intro exI [of _ "\<lparr>col_kind = CounterVec, Namespace = ''test'', Subsystem = ''test'',
        Name = ''outgoing_test_counter'', label_names = [''publisher'', ''error'']\<rparr>"]
      exI [of _ "\<lparr>col_kind = HistogramVec, Namespace = ''test'', Subsystem = ''test'',
        Name = ''outgoing_test_duration'', label_names = [''publisher'', ''error'']\<rparr>"])
    (auto simp: metered_publisher_def andThen_def CreatePromOutgoingCount_def
      CreatePromOutgoingDuration_def register_collector_def on_out_def pe_add_all_fresh NewPublishingEngine_def
      split: prod.splits res.splits option.splits)

lemma metered_subscriber_made:
  assumes "metered_subscriber P io fv receive router outer v = (Ret e, v')"
  shows "\<exists>counter timer. label_names counter = [''subscriber'', ''error''] \<and> label_names timer = [''subscriber'', ''error'']
    \<and> e = (NewSubscriptionEngine receive router)
        \<lparr>se_mc := foldl Add NewChain (outer @ metered P io fv subscriberLabelsProducer ''handler'' counter timer)\<rparr>"
  using assms
  by (intro exI [of _ "\<lparr>col_kind = CounterVec, Namespace = ''test'', Subsystem = ''test'',
        Name = ''incoming_test_counter'', label_names = [''subscriber'', ''error'']\<rparr>"]
      exI [of _ "\<lparr>col_kind = HistogramVec, Namespace = ''test'', Subsystem = ''test'',
        Name = ''incoming_test_duration'', label_names = [''subscriber'', ''error'']\<rparr>"])
    (auto simp: metered_subscriber_def andThen_def CreatePromIncomingCount_def
      CreatePromIncomingDuration_def register_collector_def on_out_def add_all_fresh NewSubscriptionEngine_def
      split: prod.splits res.splits option.splits)

lemma program_labels:
  "publisherLabelsProducer m err w = (Ret (engine_labels ''publisher'' ''my_publisher'' err), w)"
  "subscriberLabelsProducer m err w = (Ret (engine_labels ''subscriber'' ''my_subscriber'' err), w)"
  "label_names c = [k, ''error''] \<Longrightarrow> fits c (engine_labels k n err)"
  by (simp_all add: publisherLabelsProducer_def subscriberLabelsProducer_def fits_def engine_labels_def)

text \<open>What a metered engine leaves in the output when the rest of it gives \<open>r\<close>.\<close>

definition publisher_out where
  "publisher_out inc observe io counter timer d i meta err u =
     metered_out inc observe io ''publisher'' counter timer (engine_labels ''publisher'' ''my_publisher'' err) d i meta err u"

definition subscriber_out where
  "subscriber_out inc observe io counter timer d i meta err u =
     metered_out inc observe io ''handler'' counter timer (engine_labels ''subscriber'' ''my_subscriber'' err) d i meta err u"

lemma metered_published:
  assumes "metered_publisher P io fv pub ms v = (Ret eng, v')" "records P inc observe"
    and inner: "foldr (\<lambda>m inner. m inner) ms pub msg w = (r0, w2)"
    and run: "PublishingEngine_Publish eng msg w = ((r, w'), eng')"
  shows "\<exists>counter timer. r = Ret (recovered fv r0) \<and> w' = w2\<lparr>env := (env w2)\<lparr>prog_out :=
      publisher_out inc observe io counter timer (clock w2 - clock w) (ID (get_msg w2 msg)) (meta_of w2 msg)
        (recovered fv r0) (prog_out (env w2))\<rparr>\<rparr>"
proof -
  obtain counter timer where labels: "label_names counter = [''publisher'', ''error'']" "label_names timer = [''publisher'', ''error'']"
    and eng: "eng = (NewPublishingEngine pub)
        \<lparr>pe_mc := foldl Add NewChain (metered P io fv publisherLabelsProducer ''publisher'' counter timer @ ms)\<rparr>"
    using metered_publisher_made [OF assms(1)] by blast
  let ?h = "foldr (\<lambda>m inner. m inner) ms pub"
  have "PublishingEngine_Publish eng msg w
      = (foldr (\<lambda>m inner. m inner) (metered P io fv publisherLabelsProducer ''publisher'' counter timer) ?h msg w,
         eng\<lparr>pe_handlerFn := Some (foldr (\<lambda>m inner. m inner) (metered P io fv publisherLabelsProducer ''publisher'' counter timer) ?h)\<rparr>)"
    by (simp add: eng PublishingEngine_Publish_def NewPublishingEngine_def Wrap_foldr foldl_Add NewChain_def)
  moreover have "foldr (\<lambda>m inner. m inner) (metered P io fv publisherLabelsProducer ''publisher'' counter timer) ?h msg w =
    (Ret (recovered fv r0), w2\<lparr>env := (env w2)\<lparr>prog_out :=
      publisher_out inc observe io counter timer (clock w2 - clock w) (ID (get_msg w2 msg)) (meta_of w2 msg)
        (recovered fv r0) (prog_out (env w2))\<rparr>\<rparr>)"
    unfolding publisher_out_def
    by (rule metered_outcome)
      (use assms(2) labels inner in \<open>simp_all add: program_labels\<close>)
  ultimately show ?thesis using run by auto
qed

lemma metered_started:
  assumes "metered_subscriber P io fv receive router outer v = (Ret e, v')" "Start e c w = (out, e1)"
  shows "\<exists>h counter timer. label_names counter = [''subscriber'', ''error''] \<and> label_names timer = [''subscriber'', ''error'']
    \<and> h = (\<lambda>st. foldr (\<lambda>m inner. m inner) outer (foldr (\<lambda>m inner. m inner)
            (metered P io fv subscriberLabelsProducer ''handler'' counter timer) (HandlerFunc st router)))
    \<and> out = receive c h w \<and> se_handlerFn e1 = Some h"
proof -
  obtain counter timer where labels: "label_names counter = [''subscriber'', ''error'']" "label_names timer = [''subscriber'', ''error'']"
    and e: "e = (NewSubscriptionEngine receive router)
        \<lparr>se_mc := foldl Add NewChain (outer @ metered P io fv subscriberLabelsProducer ''handler'' counter timer)\<rparr>"
    using metered_subscriber_made [OF assms(1)] by blast
  have "Start e c w = (receive c (\<lambda>st. foldr (\<lambda>m inner. m inner) outer (foldr (\<lambda>m inner. m inner)
            (metered P io fv subscriberLabelsProducer ''handler'' counter timer) (HandlerFunc st router))) w,
      e\<lparr>se_handlerFn := Some (\<lambda>st. foldr (\<lambda>m inner. m inner) outer (foldr (\<lambda>m inner. m inner)
            (metered P io fv subscriberLabelsProducer ''handler'' counter timer) (HandlerFunc st router)))\<rparr>)"
    by (simp add: Start_def e NewSubscriptionEngine_def Wrap_foldr foldl_Add NewChain_def Let_def)
  with assms(2) have "out = receive c (\<lambda>st. foldr (\<lambda>m inner. m inner) outer (foldr (\<lambda>m inner. m inner)
            (metered P io fv subscriberLabelsProducer ''handler'' counter timer) (HandlerFunc st router))) w"
    "se_handlerFn e1 = Some (\<lambda>st. foldr (\<lambda>m inner. m inner) outer (foldr (\<lambda>m inner. m inner)
            (metered P io fv subscriberLabelsProducer ''handler'' counter timer) (HandlerFunc st router)))"
    by auto
  with labels show ?thesis by (intro exI conjI) (rule refl | assumption)+
qed

lemma event_router_serves:
  fixes d :: "'e router"
  assumes "event_router fv routes dflt \<lparr>route_maps = [], builders = []\<rparr> = (Ret d, st)"
    and "map_of (meta_of w msg) ''event_type'' = Some (VString n)"
  shows "HandlerFunc st d msg w = (case map_of (rev routes) n of
      Some (ms, h) \<Rightarrow> foldr (\<lambda>m inner. m inner) ms h msg w | None \<Rightarrow> dflt msg w)"
proof -
  obtain d0 :: "'e router" and st0 where new: "NewRouter (RouteFromMetadataKey fv ''event_type'') [] \<lparr>route_maps = [], builders = []\<rparr> = (d0, st0)"
    by fastforce
  have ok: "router_ok d0 st0" using new by (rule router_ok_New)
  have d0: "generator d0 = RouteFromMetadataKey fv ''event_type''" "defaultRoute d0 = None" "\<not> ackOnUnknownRoute (router_opts d0)"
    "route d0 st0 key = None" for key
    using new by (auto simp: NewRouter_def Let_def route_def)
  then have d: "d = d0\<lparr>defaultRoute := Some dflt\<rparr>"
    and st: "st = fold (\<lambda>(key, r). register d0 key r) routes st0"
    using assms(1) by (simp_all add: event_router_def new Let_def AddDefaultHandler_def)
  have key: "generator d msg w = (Ret n, w)" using assms(2) by (simp add: d d0 RouteFromMetadataKey_def)
  have "route d st n = route d0 st n" by (simp add: route_def d)
  also have "\<dots> = map_of (rev routes) n"
    unfolding st using routes.get_puts [OF ok] d0(4) by (simp split: option.split)
  finally have "route d st n = map_of (rev routes) n" .
  with key show ?thesis by (simp add: HandlerFunc_route d Wrap_foldr split: option.split)
qed

lemma sleepy_returns: "\<exists>w'. sleepy io k l before after w = (Ret None, w')"
  by (simp add: sleepy_def Let_def split: prod.split)

text \<open>A delivery whose dispatcher runs a metered engine, behind middlewares that pass the message on.\<close>

lemma metered_delivery:
  assumes contract: "delivery_contract delivery acked nacked"
    and quiet: "quiet (OnAckError (d_opts d))" "quiet (OnNackError (d_opts d))"
    and labels: "label_names counter = [''subscriber'', ''error'']" "label_names timer = [''subscriber'', ''error'']"
    and h: "d_handler d (dl_Message delivery) w2 = foldr (\<lambda>m inner. m inner)
            (metered P io fv subscriberLabelsProducer ''handler'' counter timer) inner (dl_Message delivery) w2"
    and recs: "records P inc observe"
    and prep: "handle_prepare d delivery w = ((c, fin), w2)"
    and inner: "inner (dl_Message delivery) w2 = (r, w3)"
  shows "\<exists>w4. Handle d delivery w = (Ret (), w4)
    \<and> (let e = (env w3)\<lparr>prog_out := subscriber_out inc observe io counter timer (clock w3 - clock w2)
            (ID (get_msg w3 (dl_Message delivery))) (meta_of w3 (dl_Message delivery)) (recovered fv r) (prog_out (env w3))\<rparr>
       in env w4 = (if recovered fv r = None then acked c e else nacked c e))"
proof -
  let ?m = "dl_Message delivery"
  have "d_handler d ?m w2 = (Ret (recovered fv r), w3\<lparr>env := (env w3)\<lparr>prog_out :=
      subscriber_out inc observe io counter timer (clock w3 - clock w2) (ID (get_msg w3 ?m)) (meta_of w3 ?m)
        (recovered fv r) (prog_out (env w3))\<rparr>\<rparr>)"
    unfolding h subscriber_out_def
    by (rule metered_outcome) (use recs labels inner in \<open>simp_all add: program_labels\<close>)
  from delivery_contract.handled_once [OF contract quiet prep this] show ?thesis by (auto simp: Let_def)
qed

text \<open>What \<open>AddStructNameToMetadata\<close> does to the world.\<close>

definition event_named :: "string \<Rightarrow> addr \<Rightarrow> 'e world \<Rightarrow> 'e world" where
  "event_named name a w = w\<lparr>heap_maps := (heap_maps w)[a := AList.update ''event_type'' (VString name) (heap_maps w ! a)]\<rparr>"

lemma event_named_facts [simp]:
  "get_msg (event_named name a w) m = get_msg w m" "heap_msgs (event_named name a w) = heap_msgs w"
  "env (event_named name a w) = env w" "clock (event_named name a w) = clock w"
  "a < length (heap_maps w) \<Longrightarrow>
     read_map (event_named name a w) (Some a) = AList.update ''event_type'' (VString name) (read_map w (Some a))"
  by (simp_all add: event_named_def get_msg_def read_map_def)

lemma AddStructNameToMetadata_named:
  assumes "Metadata (get_msg w m) = Some a" "dyn_type (Payload (get_msg w m)) = Some T"
  shows "AddStructNameToMetadata h m w = h m (event_named (type_name T) a w)"
  using assms by (simp add: AddStructNameToMetadata_def reflect_TypeOf_def andThen_def map_assign_def event_named_def)

text \<open>What the AMQP and the Google engine do to a message before their publisher runs.\<close>

definition event_ready :: "string \<Rightarrow> string \<Rightarrow> addr \<Rightarrow> addr \<Rightarrow> 'e world \<Rightarrow> 'e world" where
  "event_ready name body m a w =
     set_Payload m (VBytes body) (event_named name a w)"

lemma event_ready_facts:
  assumes "valid_msg w m" "Metadata (get_msg w m) = Some a" "a < length (heap_maps w)"
  shows "get_msg (event_ready name body m a w) m = (get_msg w m)\<lparr>Payload := VBytes body\<rparr>"
    and "read_map (event_ready name body m a w) (Some a) = AList.update ''event_type'' (VString name) (read_map w (Some a))"
    and "env (event_ready name body m a w) = env w" "clock (event_ready name body m a w) = clock w"
  using assms by (simp_all add: event_ready_def event_named_def set_Payload_def world_defs)

lemma event_prepared:
  assumes "valid_msg w m" "Metadata (get_msg w m) = Some a" "a < length (heap_maps w)"
    and "Payload (get_msg w m) = v" "dyn_type v = Some T"
    and "\<forall>w. json_Marshal C v w = (Ret (Inr body), w)"
  shows "AddStructNameToMetadata (Amqp_MarshallPayloadToJson C h) m w = h m (event_ready (type_name T) body m a w)"
proof -
  have "Metadata (get_msg w m) = Some a" "dyn_type (Payload (get_msg w m)) = Some T" using assms by simp_all
  from AddStructNameToMetadata_named [OF this] show ?thesis
    using assms(4,6) by (simp add: andThen_def Amqp_MarshallPayloadToJson_def event_ready_def)
qed

section \<open>What the \<open>main\<close> functions share\<close>

text \<open>Publishing one event and running the subscription engine, with \<open>if err != nil { panic(err) }\<close>.\<close>

definition must_publish :: "'e publishing_engine \<Rightarrow> addr \<Rightarrow> ('e, 'e publishing_engine) act" where
  "must_publish pubEngine msg w =
     (case PublishingEngine_Publish pubEngine msg w of
        ((Panic q, w1), _) \<Rightarrow> (Panic q, w1)
      | ((Ret (Some err), w1), _) \<Rightarrow> (Panic (PErr err), w1)
      | ((Ret None, w1), pubEngine) \<Rightarrow> (Ret pubEngine, w1))"

definition publish_event :: "'e publishing_engine \<Rightarrow> gval \<Rightarrow> ('e, 'e publishing_engine) act" where
  "publish_event pubEngine v w = (let (msg, w1) = NewMessage Background v w in must_publish pubEngine msg w1)"

definition run_engine ::
  "'u terminal \<Rightarrow> ('p, 'c, 'u) program subscription_engine \<Rightarrow> ctx \<Rightarrow> (('p, 'c, 'u) program, unit) act"
where
  "run_engine io subEngine runCtx w =
     (case fst (Start subEngine runCtx w) of
        (Panic q, w1) \<Rightarrow> (Panic q, w1)
      | (Ret (Some err), w1) \<Rightarrow> (Panic (PErr err), w1)
      | (Ret None, w1) \<Rightarrow> on_out (\<lambda>u. (Ret (), term_Print io (''Shutdown complete'' @ newline) u)) w1)"

section \<open>A program for the witnesses\<close>

text \<open>A registry, a terminal and a codec for the witnesses: the output is a list of lines.\<close>

definition demo_count :: "labels \<Rightarrow> string list \<Rightarrow> string list" where
  "demo_count ls u = u @ [join_with '' '' (map snd ls)]"

definition demo_prom :: "string list prom" where
  "demo_prom = \<lparr>prom_Register = (\<lambda>c u. (None, u)),
     prom_Inc = (\<lambda>c ls u. if fits c ls then (Ret (), demo_count ls u) else (Panic (PVal VNil), u)),
     prom_Observe = (\<lambda>c ls d u. if fits c ls then (Ret (), u) else (Panic (PVal VNil), u))\<rparr>"

definition demo_terminal :: "string list terminal" where
  "demo_terminal = \<lparr>Intn = (\<lambda>n u. (0, u)), term_Print = (\<lambda>s u. u), term_Errorf = (\<lambda>s i m e u. u @ [s]), StampMilli = (\<lambda>t. [])\<rparr>"

definition struct_codec :: "'e json_codec" where
  "struct_codec = \<lparr>json_Marshal = (\<lambda>v w. (Ret (Inr (text_field 0 v)), w)),
     json_Unmarshal = (\<lambda>T b w. (Ret (Inr (VStruct (type_name T) [VString b])), w))\<rparr>"

definition demo_event :: gval where
  "demo_event = VStruct ''DummyEvent1'' [VString ''value1'']"

lemma demo_records: "records demo_prom (\<lambda>c. demo_count) (\<lambda>c ls d u. u)"
  by (simp add: records_def demo_prom_def)

text \<open>What \<open>main\<close> reports of \<open>Start\<close>.\<close>

definition main_end ::
  "'u terminal \<Rightarrow> gerr option res \<times> ('p, 'c, 'u) program world \<Rightarrow> unit res \<times> ('p, 'c, 'u) program world"
where
  "main_end io out =
     (case out of
        (Panic q, w) \<Rightarrow> (Panic q, w)
      | (Ret (Some err), w) \<Rightarrow> (Panic (PErr err), w)
      | (Ret None, w) \<Rightarrow> on_out (\<lambda>u. (Ret (), term_Print io (''Shutdown complete'' @ newline) u)) w)"

lemma run_engine_end: "run_engine io e c w = main_end io (fst (Start e c w))"
  by (simp add: run_engine_def main_end_def)

section \<open>A second publish\<close>

lemma engine_again:
  "PublishingEngine_Publish eng m w = (x, eng') \<Longrightarrow> PublishingEngine_Publish eng' = PublishingEngine_Publish eng"
  by (auto simp: PublishingEngine_Publish_def fun_eq_iff split: option.splits)

lemma same_engine:
  assumes "PublishingEngine_Publish e1 = PublishingEngine_Publish e2"
  shows "must_publish e1 = must_publish e2" "publish_event e1 = publish_event e2"
  using assms by (simp_all add: fun_eq_iff must_publish_def publish_event_def)

section \<open>The registry\<close>

text \<open>
  What the client library documents of a registry: it takes a collector whose name is new, and only
  registering adds a name. The program's other output leaves the names alone.
\<close>

definition fqName :: "collector \<Rightarrow> string" where
  "fqName c = Namespace c @ ''_'' @ Subsystem c @ ''_'' @ Name c"

definition registry ::
  "'u prom \<Rightarrow> 'u terminal \<Rightarrow> (collector \<Rightarrow> labels \<Rightarrow> 'u \<Rightarrow> 'u) \<Rightarrow> (collector \<Rightarrow> labels \<Rightarrow> int \<Rightarrow> 'u \<Rightarrow> 'u)
     \<Rightarrow> ('u \<Rightarrow> string set) \<Rightarrow> bool"
where
  "registry P io inc observe names \<longleftrightarrow>
     (\<forall>c u. fqName c \<notin> names u \<longrightarrow> (\<exists>v. prom_Register P c u = (None, v) \<and> names v = insert (fqName c) (names u)))
   \<and> (\<forall>c ls u. names (inc c ls u) = names u) \<and> (\<forall>c ls d u. names (observe c ls d u) = names u)
   \<and> (\<forall>what i m e u. names (term_Errorf io what i m e u) = names u)"

text \<open>The names the programs register, for publishing and for receiving.\<close>

definition outgoing_names :: "string set" where
  "outgoing_names = {''test_test_outgoing_test_counter'', ''test_test_outgoing_test_duration''}"

definition incoming_names :: "string set" where
  "incoming_names = {''test_test_incoming_test_counter'', ''test_test_incoming_test_duration''}"

lemma names_disjoint: "outgoing_names \<inter> incoming_names = {}"
  by (simp add: outgoing_names_def incoming_names_def)

lemma publisher_out_names:
  "registry P io inc observe names \<Longrightarrow> names (publisher_out inc observe io counter timer d i meta err u) = names u"
  by (simp add: registry_def publisher_out_def metered_out_def split: option.split)

lemma register_collector_new:
  assumes "registry P io inc observe names" "fqName c \<notin> names (prog_out (env w))"
  shows "register_collector P c w = (Ret c, w\<lparr>env := (env w)\<lparr>prog_out := snd (prom_Register P c (prog_out (env w)))\<rparr>\<rparr>)"
    and "names (snd (prom_Register P c (prog_out (env w)))) = insert (fqName c) (names (prog_out (env w)))"
proof -
  from assms obtain v where "prom_Register P c (prog_out (env w)) = (None, v)" "names v = insert (fqName c) (names (prog_out (env w)))"
    unfolding registry_def by blast
  then show "register_collector P c w = (Ret c, w\<lparr>env := (env w)\<lparr>prog_out := snd (prom_Register P c (prog_out (env w)))\<rparr>\<rparr>)"
    "names (snd (prom_Register P c (prog_out (env w)))) = insert (fqName c) (names (prog_out (env w)))"
    by (simp_all add: register_collector_def on_out_def)
qed

text \<open>Registering a counter and then a histogram under new names.\<close>

definition registered :: "'u prom \<Rightarrow> collector \<Rightarrow> collector \<Rightarrow> 'u \<Rightarrow> 'u" where
  "registered P counter timer u = snd (prom_Register P timer (snd (prom_Register P counter u)))"

lemma register_both:
  assumes reg: "registry P io inc observe names"
    and new: "names (prog_out (env w)) \<inter> {fqName c, fqName t} = {}" "fqName c \<noteq> fqName t"
  shows "andThen (register_collector P c) (\<lambda>counter. andThen (register_collector P t) (k counter)) w
      = k c t (w\<lparr>env := (env w)\<lparr>prog_out := registered P c t (prog_out (env w))\<rparr>\<rparr>)"
    and "names (registered P c t (prog_out (env w))) = names (prog_out (env w)) \<union> {fqName c, fqName t}"
proof -
  let ?w = "w\<lparr>env := (env w)\<lparr>prog_out := snd (prom_Register P c (prog_out (env w)))\<rparr>\<rparr>"
  have c: "fqName c \<notin> names (prog_out (env w))" using new by blast
  note first = register_collector_new [OF reg c]
  have t: "fqName t \<notin> names (prog_out (env ?w))" using new first(2) by auto
  note second = register_collector_new [OF reg t]
  show "andThen (register_collector P c) (\<lambda>counter. andThen (register_collector P t) (k counter)) w
      = k c t (w\<lparr>env := (env w)\<lparr>prog_out := registered P c t (prog_out (env w))\<rparr>\<rparr>)"
    using second(1) by (simp add: andThen_def first(1) registered_def)
  show "names (registered P c t (prog_out (env w))) = names (prog_out (env w)) \<union> {fqName c, fqName t}"
    using first(2) second(2) by (auto simp: registered_def)
qed

definition outgoing_count :: "string list \<Rightarrow> collector" where
  "outgoing_count ls = \<lparr>col_kind = CounterVec, Namespace = ''test'', Subsystem = ''test'', Name = ''outgoing_test_counter'', label_names = ls\<rparr>"

definition outgoing_duration :: "string list \<Rightarrow> collector" where
  "outgoing_duration ls = \<lparr>col_kind = HistogramVec, Namespace = ''test'', Subsystem = ''test'', Name = ''outgoing_test_duration'', label_names = ls\<rparr>"

lemma register_outgoing:
  assumes "registry P io inc observe names" "names (prog_out (env w)) \<inter> outgoing_names = {}"
  shows "andThen (CreatePromOutgoingCount P ls) (\<lambda>counter. andThen (CreatePromOutgoingDuration P ls) (k counter)) w
      = k (outgoing_count ls) (outgoing_duration ls)
          (w\<lparr>env := (env w)\<lparr>prog_out := registered P (outgoing_count ls) (outgoing_duration ls) (prog_out (env w))\<rparr>\<rparr>)"
    and "names (registered P (outgoing_count ls) (outgoing_duration ls) (prog_out (env w))) = names (prog_out (env w)) \<union> outgoing_names"
proof -
  have ids: "{fqName (outgoing_count ls), fqName (outgoing_duration ls)} = outgoing_names" "fqName (outgoing_count ls) \<noteq> fqName (outgoing_duration ls)"
    by (simp_all add: fqName_def outgoing_names_def outgoing_count_def outgoing_duration_def)
  note both = register_both [OF assms(1) assms(2) [folded ids(1)] ids(2)]
  show "andThen (CreatePromOutgoingCount P ls) (\<lambda>counter. andThen (CreatePromOutgoingDuration P ls) (k counter)) w
      = k (outgoing_count ls) (outgoing_duration ls)
          (w\<lparr>env := (env w)\<lparr>prog_out := registered P (outgoing_count ls) (outgoing_duration ls) (prog_out (env w))\<rparr>\<rparr>)"
    using both(1) unfolding CreatePromOutgoingCount_def CreatePromOutgoingDuration_def outgoing_count_def outgoing_duration_def .
  show "names (registered P (outgoing_count ls) (outgoing_duration ls) (prog_out (env w))) = names (prog_out (env w)) \<union> outgoing_names"
    using both(2) unfolding ids(1) .
qed

definition incoming_count :: "string list \<Rightarrow> collector" where
  "incoming_count ls = \<lparr>col_kind = CounterVec, Namespace = ''test'', Subsystem = ''test'', Name = ''incoming_test_counter'', label_names = ls\<rparr>"

definition incoming_duration :: "string list \<Rightarrow> collector" where
  "incoming_duration ls = \<lparr>col_kind = HistogramVec, Namespace = ''test'', Subsystem = ''test'', Name = ''incoming_test_duration'', label_names = ls\<rparr>"

lemma register_incoming:
  assumes "registry P io inc observe names" "names (prog_out (env w)) \<inter> incoming_names = {}"
  shows "andThen (CreatePromIncomingCount P ls) (\<lambda>counter. andThen (CreatePromIncomingDuration P ls) (k counter)) w
      = k (incoming_count ls) (incoming_duration ls)
          (w\<lparr>env := (env w)\<lparr>prog_out := registered P (incoming_count ls) (incoming_duration ls) (prog_out (env w))\<rparr>\<rparr>)"
    and "names (registered P (incoming_count ls) (incoming_duration ls) (prog_out (env w))) = names (prog_out (env w)) \<union> incoming_names"
proof -
  have ids: "{fqName (incoming_count ls), fqName (incoming_duration ls)} = incoming_names" "fqName (incoming_count ls) \<noteq> fqName (incoming_duration ls)"
    by (simp_all add: fqName_def incoming_names_def incoming_count_def incoming_duration_def)
  note both = register_both [OF assms(1) assms(2) [folded ids(1)] ids(2)]
  show "andThen (CreatePromIncomingCount P ls) (\<lambda>counter. andThen (CreatePromIncomingDuration P ls) (k counter)) w
      = k (incoming_count ls) (incoming_duration ls)
          (w\<lparr>env := (env w)\<lparr>prog_out := registered P (incoming_count ls) (incoming_duration ls) (prog_out (env w))\<rparr>\<rparr>)"
    using both(1) unfolding CreatePromIncomingCount_def CreatePromIncomingDuration_def incoming_count_def incoming_duration_def .
  show "names (registered P (incoming_count ls) (incoming_duration ls) (prog_out (env w))) = names (prog_out (env w)) \<union> incoming_names"
    using both(2) unfolding ids(1) .
qed

text \<open>So the engines of a program are made when its names are new.\<close>

lemma metered_publisher_returns:
  assumes "registry P io inc observe names" "names (prog_out (env w)) \<inter> outgoing_names = {}"
  shows "\<exists>eng u. metered_publisher P io fv pub ms w = (Ret eng, w\<lparr>env := (env w)\<lparr>prog_out := u\<rparr>\<rparr>)
    \<and> names u = names (prog_out (env w)) \<union> outgoing_names"
  unfolding metered_publisher_def Let_def register_outgoing(1) [OF assms] using register_outgoing(2) [OF assms] by blast

lemma metered_subscriber_returns:
  assumes "registry P io inc observe names" "names (prog_out (env w)) \<inter> incoming_names = {}"
  shows "\<exists>e u. metered_subscriber P io fv receive router outer w = (Ret e, w\<lparr>env := (env w)\<lparr>prog_out := u\<rparr>\<rparr>)
    \<and> names u = names (prog_out (env w)) \<union> incoming_names"
  unfolding metered_subscriber_def Let_def register_incoming(1) [OF assms] using register_incoming(2) [OF assms] by blast

text \<open>A freshly made message.\<close>

lemma new_message_facts:
  assumes "NewMessage c v w = (m, w1)"
  shows "m = length (heap_msgs w)" "valid_msg w1 m" "get_msg w1 m = \<lparr>ID = [], Metadata = Some (length (heap_maps w)), Payload = v, msg_ctx = c\<rparr>"
    "read_map w1 (Some (length (heap_maps w))) = []" "length (heap_maps w) < length (heap_maps w1)" "env w1 = env w"
  using assms by (auto simp: message_defs world_defs nth_append)

text \<open>A registry that refuses a name it has, and a terminal, for the witnesses on whole programs.\<close>

definition demo_registry :: "(string set \<times> string list) prom" where
  "demo_registry = \<lparr>prom_Register = (\<lambda>c (ns, u).
       if fqName c \<in> ns then (Some (ErrNew ''duplicate metrics collector registration attempted''), ns, u)
       else (None, insert (fqName c) ns, u)),
     prom_Inc = (\<lambda>c ls (ns, u). if fits c ls then (Ret (), ns, demo_count ls u) else (Panic (PVal VNil), ns, u)),
     prom_Observe = (\<lambda>c ls d u. if fits c ls then (Ret (), u) else (Panic (PVal VNil), u))\<rparr>"

definition demo_screen :: "(string set \<times> string list) terminal" where
  "demo_screen = \<lparr>Intn = (\<lambda>n u. (0, u)), term_Print = (\<lambda>s u. u), term_Errorf = (\<lambda>s i m e (ns, u). (ns, u @ [s])), StampMilli = (\<lambda>t. [])\<rparr>"

definition demo_inc :: "collector \<Rightarrow> labels \<Rightarrow> string set \<times> string list \<Rightarrow> string set \<times> string list" where
  "demo_inc c ls = apsnd (demo_count ls)"

lemma demo_registry_laws:
  "records demo_registry demo_inc (\<lambda>c ls d u. u)" "registry demo_registry demo_screen demo_inc (\<lambda>c ls d u. u) fst"
  by (auto simp: records_def registry_def demo_registry_def demo_screen_def demo_inc_def)

end
