(* ===== verification/Example_Amqp.thy ===== *)
theory Example_Amqp
  imports Examples Amqp_Subscriber
begin

text \<open>
  \<open>examples/amqp/amqp.go\<close>: the publishing engine and the subscription engine of the program, its
  routes, its \<open>main\<close>, and an event's way from the one engine to the other. It puts together the engines, the metrics,
  the JSON middlewares, the AMQP publisher, the delivery of the AMQP subscriber and the router.
  \<open>Receive\<close> of the subscriber, whose loop is a step relation of \<open>Amqp_Consume\<close>, is an argument.
\<close>

type_synonym ('b, 'u) amqp_program = "('b exchange_destination, 'b amqp_env, 'u) program"

section \<open>The publisher\<close>

text \<open>The closure \<open>routingKeyFn\<close>.\<close>

definition event_routing_key :: "(gval \<Rightarrow> string) \<Rightarrow> 'e routing_key_func" where
  "event_routing_key fv msg w =
     (case map_of (meta_of w msg) ''event_type'' of
        None \<Rightarrow> (Ret (Inr ''default''), w)
      | Some eventType \<Rightarrow> (Ret (Inr (sprint_v fv eventType)), w))"

definition event_defaults :: default_message_options where
  "event_defaults = \<lparr>ContentType = ''application/json'', Priority = 0, DeliveryMode = 2\<rparr>"

definition amqp_createPublisher ::
  "'u prom \<Rightarrow> 'u terminal \<Rightarrow> ('b, 'u) amqp_program json_codec \<Rightarrow> (gval \<Rightarrow> string) \<Rightarrow> 'b amqp_channel \<Rightarrow> string
     \<Rightarrow> (('b, 'u) amqp_program, gerr + ('b, 'u) amqp_program publishing_engine) act"
where
  "amqp_createPublisher P io C fv channel exchange w =
     (case NewAMQPPublisher channel (Some (ConstantDestination exchange)) (Some (event_routing_key fv)) event_defaults [] of
        Inl err \<Rightarrow> (Ret (Inl err), w)
      | Inr pub \<Rightarrow>
          andThen (metered_publisher P io fv (publisher_handler (Amqp_Publish pub))
                     [AddStructNameToMetadata, Amqp_MarshallPayloadToJson C])
            (\<lambda>pubEngine w. (Ret (Inr pubEngine), w)) w)"

section \<open>The subscriber\<close>

definition amqp_createSubscriber ::
  "'u prom \<Rightarrow> 'u terminal \<Rightarrow> (gval \<Rightarrow> string)
     \<Rightarrow> (('b, 'u) amqp_program amqp_subscriber \<Rightarrow> ctx \<Rightarrow> (('b, 'u) amqp_program rstore \<Rightarrow> ('b, 'u) amqp_program handler)
           \<Rightarrow> (('b, 'u) amqp_program, gerr option) act)
     \<Rightarrow> ('b, 'u) amqp_program acknowledger option \<Rightarrow> string \<Rightarrow> ('b, 'u) amqp_program router
     \<Rightarrow> (('b, 'u) amqp_program, gerr + ('b, 'u) amqp_program subscription_engine) act"
where
  "amqp_createSubscriber P io fv receive channel queueName router w =
     (case NewAMQPSubscriber channel queueName [WithAutoAck] of
        Inl err \<Rightarrow> (Ret (Inl err), w)
      | Inr amqpSub \<Rightarrow>
          andThen (metered_subscriber P io fv (receive amqpSub) router [])
            (\<lambda>subEngine w. (Ret (Inr subEngine), w)) w)"

section \<open>The routes of \<open>main\<close>\<close>

definition dummy_event_handler1 :: "'u terminal \<Rightarrow> addr \<Rightarrow> gval \<Rightarrow> (('p, 'c, 'u) program, gerr option) act" where
  "dummy_event_handler1 io msg dummyEvent1 w =
     sleepy io 3 1 ''Dummy event handler 1: Processing for ''
       (''Dummy event handler 1: received message '' @ ID (get_msg w msg) @ '' with prop1=['' @ text_field 0 dummyEvent1 @ '']'') w"

definition dummy_event_handler2 :: "'u terminal \<Rightarrow> addr \<Rightarrow> gval \<Rightarrow> (('p, 'c, 'u) program, gerr option) act" where
  "dummy_event_handler2 io msg dummyEvent2 w =
     sleepy io 3 1 ''Dummy event handler 2: Processing for ''
       (''Dummy event handler 2: received message '' @ ID (get_msg w msg) @ '' with prop2=['' @ text_field 0 dummyEvent2 @ '']'') w"

definition default_event_handler :: "'u terminal \<Rightarrow> ('p, 'c, 'u) program handler" where
  "default_event_handler io msg w =
     sleepy io 3 1 ''Default handler: Processing for '' (''Default handler received message '' @ ID (get_msg w msg)) w"

definition amqp_routes ::
  "('p, 'c, 'u) program json_codec \<Rightarrow> 'u terminal
     \<Rightarrow> (string \<times> ('p, 'c, 'u) program middleware list \<times> ('p, 'c, 'u) program handler) list"
where
  "amqp_routes C io =
     [(''DummyEvent1'', [Amqp_UnmarshallPayloadFromJson C (TStruct ''DummyEvent1'')],
         HandleWithPayload (TStruct ''DummyEvent1'') (dummy_event_handler1 io)),
      (''DummyEvent2'', [Amqp_UnmarshallPayloadFromJson C (TStruct ''DummyEvent2'')],
         HandleWithPayload (TStruct ''DummyEvent2'') (dummy_event_handler2 io))]"

definition amqp_router ::
  "('p, 'c, 'u) program json_codec \<Rightarrow> 'u terminal \<Rightarrow> (gval \<Rightarrow> string) \<Rightarrow> ('p, 'c, 'u) program rstore
     \<Rightarrow> ('p, 'c, 'u) program router res \<times> ('p, 'c, 'u) program rstore"
where
  "amqp_router C io fv = event_router fv (amqp_routes C io) (default_event_handler io)"

section \<open>\<open>main\<close>\<close>

text \<open>
  \<open>main\<close> starts the subscription engine in a goroutine and publishes while it runs. \<open>go\<close> stands for
  that goroutine: given the engine, the store of its routes and the context that an interrupt ends, it
  is what the goroutine does to the program before the \<open>k\<close>th publish of \<open>main\<close>, and what it does from
  then on until \<open>Start\<close> has returned, with its result. A panic of the goroutine ends the process at once,
  without the deferred calls of \<open>main\<close>: \<open>in_goroutine\<close> hands it on as a value, \<open>Inl\<close>, which
  \<open>main_defers\<close> tells apart from the panics and the return of \<open>main\<close> itself.
\<close>

type_synonym 'e goroutine = "(nat \<Rightarrow> ('e, unit) act) \<times> ('e, gerr option) act"

definition print_line :: "'u terminal \<Rightarrow> string \<Rightarrow> (('p, 'c, 'u) program, unit) act" where
  "print_line io s = on_out (\<lambda>u. (Ret (), term_Print io (s @ newline) u))"

definition in_goroutine :: "('e, 'a) act \<Rightarrow> ('a \<Rightarrow> ('e, pval + 'b) act) \<Rightarrow> ('e, pval + 'b) act" where
  "in_goroutine f k w = (case f w of (Ret a, w1) \<Rightarrow> k a w1 | (Panic q, w1) \<Rightarrow> (Ret (Inl q), w1))"

definition main_defers :: "('e world \<Rightarrow> 'e world) \<Rightarrow> ('e, pval + 'b) act \<Rightarrow> ('e, 'b) act" where
  "main_defers f body w =
     (case body w of
        (Ret (Inl q), w1) \<Rightarrow> (Panic q, w1)
      | (Ret (Inr b), w1) \<Rightarrow> (Ret b, f w1)
      | (Panic q, w1) \<Rightarrow> (Panic q, f w1))"

definition await_shutdown ::
  "'u terminal \<Rightarrow> (('p, 'c, 'u) program, gerr option) act \<Rightarrow> (('p, 'c, 'u) program, pval + unit) act"
where
  "await_shutdown io finished =
     andThen (print_line io ''AMQP example running. Press Ctrl+C to stop...'') (\<lambda>_.
     in_goroutine finished (\<lambda>err. case err of
         Some e \<Rightarrow> (\<lambda>w. (Panic (PErr e), w))
       | None \<Rightarrow> andThen (print_line io ''Shutdown complete'') (\<lambda>_ w. (Ret (Inr ()), w))))"

definition amqp_main_loop ::
  "'u terminal \<Rightarrow> ('p, 'c, 'u) program publishing_engine \<Rightarrow> ('p, 'c, 'u) program goroutine
     \<Rightarrow> (('p, 'c, 'u) program, pval + unit) act"
where
  "amqp_main_loop io pubEngine run =
     in_goroutine (fst run 0) (\<lambda>_. andThen (publish_event pubEngine (VStruct ''DummyEvent1'' [VString ''value1''])) (\<lambda>pubEngine.
     in_goroutine (fst run 1) (\<lambda>_. andThen (publish_event pubEngine (VStruct ''DummyEvent2'' [VString ''value2''])) (\<lambda>pubEngine.
     in_goroutine (fst run 2) (\<lambda>_. andThen (publish_event pubEngine (VStruct ''DummyEvent3'' [VString ''value3''])) (\<lambda>_.
       await_shutdown io (snd run)))))))"

text \<open>What \<open>main\<close> does with the channel, once the exchange and the queue are set up.\<close>

definition amqp_connected ::
  "'u prom \<Rightarrow> 'u terminal \<Rightarrow> ('b, 'u) amqp_program json_codec \<Rightarrow> (gval \<Rightarrow> string)
     \<Rightarrow> (('b, 'u) amqp_program amqp_subscriber \<Rightarrow> ctx \<Rightarrow> (('b, 'u) amqp_program rstore \<Rightarrow> ('b, 'u) amqp_program handler)
           \<Rightarrow> (('b, 'u) amqp_program, gerr option) act)
     \<Rightarrow> (('b, 'u) amqp_program subscription_engine \<Rightarrow> ('b, 'u) amqp_program rstore \<Rightarrow> ctx \<Rightarrow> ('b, 'u) amqp_program goroutine)
     \<Rightarrow> ctx \<Rightarrow> string \<Rightarrow> string \<Rightarrow> 'b amqp_channel \<Rightarrow> ('b, 'u) amqp_program acknowledger option
     \<Rightarrow> (('b, 'u) amqp_program, pval + unit) act"
where
  "amqp_connected P io C fv receive go runCtx exchangeName queueName channel acks =
     andThen (amqp_createPublisher P io C fv channel exchangeName) (\<lambda>r. case r of
       Inl err \<Rightarrow> (\<lambda>w. (Panic (PErr err), w))
     | Inr pubEngine \<Rightarrow> (case amqp_router C io fv \<lparr>route_maps = [], builders = []\<rparr> of
         (Panic q, st) \<Rightarrow> (\<lambda>w. (Panic q, w))
       | (Ret router, st) \<Rightarrow>
           andThen (amqp_createSubscriber P io fv receive acks queueName router) (\<lambda>r. case r of
             Inl err \<Rightarrow> (\<lambda>w. (Panic (PErr err), w))
           | Inr subEngine \<Rightarrow> amqp_main_loop io pubEngine (go subEngine st runCtx))))"

text \<open>
  \<open>dial\<close> is \<open>amqp.Dial\<close> on the local server and \<open>close\<close> the deferred \<open>conn.Close\<close>; \<open>set_up\<close> is
  \<open>setupInfrastructure\<close>; \<open>open_channel\<close> is \<open>conn.Channel\<close>, whose error is not looked at: it gives the
  channel as the publisher and as the subscriber use it, and the subscriber finds a nil one if it
  failed. \<open>err_text\<close> is the text of an error.
\<close>

definition amqp_main ::
  "'u prom \<Rightarrow> 'u terminal \<Rightarrow> ('b, 'u) amqp_program json_codec \<Rightarrow> (gval \<Rightarrow> string) \<Rightarrow> (gerr \<Rightarrow> string)
     \<Rightarrow> (('b, 'u) amqp_program, gerr option) act \<Rightarrow> (('b, 'u) amqp_program world \<Rightarrow> ('b, 'u) amqp_program world)
     \<Rightarrow> (string \<Rightarrow> string \<Rightarrow> (('b, 'u) amqp_program, gerr option) act)
     \<Rightarrow> (('b, 'u) amqp_program, 'b amqp_channel \<times> ('b, 'u) amqp_program acknowledger option) act
     \<Rightarrow> (('b, 'u) amqp_program amqp_subscriber \<Rightarrow> ctx \<Rightarrow> (('b, 'u) amqp_program rstore \<Rightarrow> ('b, 'u) amqp_program handler)
           \<Rightarrow> (('b, 'u) amqp_program, gerr option) act)
     \<Rightarrow> (('b, 'u) amqp_program subscription_engine \<Rightarrow> ('b, 'u) amqp_program rstore \<Rightarrow> ctx \<Rightarrow> ('b, 'u) amqp_program goroutine)
     \<Rightarrow> string \<Rightarrow> ctx \<Rightarrow> (('b, 'u) amqp_program, unit) act"
where
  "amqp_main P io C fv err_text dial close set_up open_channel receive go randomID runCtx =
     (let exchangeName = ''demo-exchange-'' @ randomID; queueName = ''demo-queue-'' @ randomID
      in andThen dial (\<lambda>err. case err of
           Some e \<Rightarrow> (\<lambda>w. (Panic (PVal (VString (''Failed to connect to RabbitMQ: '' @ err_text e))), w))
         | None \<Rightarrow> main_defers close (
             andThen (set_up exchangeName queueName) (\<lambda>err. case err of
               Some e \<Rightarrow> (\<lambda>w. (Panic (PVal (VString (''Failed to setup infrastructure: '' @ err_text e))), w))
             | None \<Rightarrow>
                 andThen open_channel (\<lambda>(channel, acks).
                   amqp_connected P io C fv receive go runCtx exchangeName queueName channel acks)))))"

section \<open>Facts\<close>

text \<open>The message the publisher makes of an event, and the adapter of its configuration.\<close>

definition event_marshal :: "(gval \<Rightarrow> string) \<Rightarrow> 'e world \<Rightarrow> addr \<Rightarrow> gerr + amqp_message" where
  "event_marshal fv w m =
     amqp_marshal (case map_of (meta_of w m) ''event_type'' of None \<Rightarrow> ''default'' | Some v \<Rightarrow> sprint_v fv v)
       event_defaults w m"

lemma event_marshaller:
  "amqp_marshaller (event_routing_key fv) event_defaults default_amqp_options m w = (Ret (event_marshal fv w m), w)"
  by (auto simp: amqp_marshaller_def event_marshal_def amqp_marshal_def default_amqp_options_def andThenOk_def
      andThen_def event_routing_key_def MetadataAsHeaders_def flag_of_def Let_def split: gval.split option.split)

interpretation event_amqp: publisher_adapter
  "amqp_config channel routing (event_routing_key fv) event_defaults default_amqp_options"
  exchange_impl "event_marshal fv" "\<lambda>d. \<lparr>ed_channel = channel, ed_exchange = d\<rparr>" exchange_send
  for channel routing fv
  by unfold_locales
    (auto simp: amqp_config_def event_marshaller exchange_impl_def ExchangeDestination_Publish_def
      exchange_send_def event_marshal_def amqp_marshal_def on_env_def split: gval.splits prod.splits)

lemma event_publisher:
  "NewAMQPPublisher channel (Some routing) (Some (event_routing_key fv)) event_defaults []
     = Inr (amqp_config channel routing (event_routing_key fv) event_defaults default_amqp_options)"
  by (simp add: NewAMQPPublisher_def event_defaults_def default_amqp_options_def word_less_nat_alt)

text \<open>One publish of a message with a byte payload.\<close>

definition event_publishing :: "string \<Rightarrow> headers \<Rightarrow> publishing" where
  "event_publishing body headers = \<lparr>pub_ContentType = ''application/json'', pub_Priority = 0, pub_DeliveryMode = 2,
     pub_Body = body, pub_Headers = headers, pub_MessageId = []\<rparr>"

lemma event_publishing_id [simp]: "pub_MessageId (event_publishing body headers) = []"
  by (simp add: event_publishing_def)

lemma event_publish:
  assumes "event_amqp.own_cache channel s"
    and "Payload (get_msg w m) = VBytes body" "map_of (meta_of w m) ''event_type'' = Some (VString key)"
    and "chan_Publish channel exchange key False False (event_publishing body (Metadata (get_msg w m))) (broker (env w)) = (err, b)"
  shows "\<exists>s'. event_amqp.own_cache channel s' \<and>
    Amqp_Publish (amqp_config channel (ConstantDestination exchange) (event_routing_key fv) event_defaults default_amqp_options) m s w
      = ((Ret err, w\<lparr>env := (env w)\<lparr>broker := b\<rparr>\<rparr>), s')"
proof -
  let ?cfg = "amqp_config channel (ConstantDestination exchange) (event_routing_key fv) event_defaults default_amqp_options"
  have route: "RoutingFunc ?cfg m w = (Ret (Inr exchange), w)" by (simp add: amqp_config_def ConstantDestination_def)
  have "event_marshal fv w m = Inr \<lparr>Publishing = Some (event_publishing body (Metadata (get_msg w m))),
      Immediate = False, Mandatory = False, RoutingKey = key\<rparr>"
    by (simp add: event_marshal_def amqp_marshal_def event_defaults_def event_publishing_def assms(2,3))
  with event_amqp.publish_outcome [OF assms(1) route] show ?thesis
    by (cases err) (auto simp: Amqp_Publish_def exchange_send_def assms(4) exchange_impl_def
        ExchangeDestination_GetMessageID_def)
qed


lemma created_engine:
  assumes "amqp_createPublisher P io C fv ch exchange v = (Ret (Inr eng), v')"
  shows "metered_publisher P io fv (publisher_handler (Amqp_Publish
          (amqp_config ch (ConstantDestination exchange) (event_routing_key fv) event_defaults default_amqp_options)))
        [AddStructNameToMetadata, Amqp_MarshallPayloadToJson C] v = (Ret eng, v')"
  using assms by (auto simp: amqp_createPublisher_def event_publisher andThen_def split: prod.splits res.splits)

lemma created_subscriber:
  assumes "amqp_createSubscriber P io fv receive channel queueName router v = (Ret (Inr e), v')"
    and "NewAMQPSubscriber channel queueName [WithAutoAck] = Inr sub"
  shows "metered_subscriber P io fv (receive sub) router [] v = (Ret e, v')"
  using assms by (auto simp: amqp_createSubscriber_def andThen_def split: prod.splits res.splits)

section \<open>An event on its way out\<close>

text \<open>Publishing an event through the program's engine makes one publish to the configured
  exchange, under the name of the event's type, which is also written into the message's metadata
  (a map shared with the headers that are sent), with the JSON text of the event as the body. The
  engine never panics; whatever the broker answers is the result, an error is reported, and the
  publish is counted and timed once under the label of its outcome. The message keeps the encoded
  payload.\<close>

lemma event_published:
  assumes "amqp_createPublisher P io C fv ch exchange v = (Ret (Inr eng), v')" "records P inc observe"
    and "valid_msg w m" "Metadata (get_msg w m) = Some a" "a < length (heap_maps w)"
    and "dyn_type (Payload (get_msg w m)) = Some T"
    and "\<forall>x. json_Marshal C (Payload (get_msg w m)) x = (Ret (Inr body), x)"
    and "event_amqp.own_cache ch (prog_cache (env w))"
    and "chan_Publish ch exchange (type_name T) False False (event_publishing body (Some a)) (broker (prog_client (env w))) = (err, b)"
    and "PublishingEngine_Publish eng m w = ((r, w'), eng')"
  shows "r = Ret err \<and> broker (prog_client (env w')) = b
    \<and> read_map w' (Some a) = AList.update ''event_type'' (VString (type_name T)) (read_map w (Some a))
    \<and> get_msg w' m = (get_msg w m)\<lparr>Payload := VBytes body\<rparr>
    \<and> event_amqp.own_cache ch (prog_cache (env w'))
    \<and> (\<exists>counter timer. prog_out (env w') =
         publisher_out inc observe io counter timer 0 (ID (get_msg w m)) (meta_of w' m) err (prog_out (env w)))"
proof -
  let ?pub = "publisher_handler (Amqp_Publish (amqp_config ch (ConstantDestination exchange) (event_routing_key fv) event_defaults default_amqp_options))"
  let ?w1 = "event_ready (type_name T) body m a w"
  note ready = event_ready_facts [OF assms(3-5), of "type_name T" body]
  let ?c = "prog_client (env w)"
  obtain s' where s': "event_amqp.own_cache ch s'"
    "Amqp_Publish (amqp_config ch (ConstantDestination exchange) (event_routing_key fv) event_defaults default_amqp_options)
        m (prog_cache (env w)) (with_env ?c ?w1) = ((Ret err, (with_env ?c ?w1)\<lparr>env := ?c\<lparr>broker := b\<rparr>\<rparr>), s')"
    using event_publish [OF assms(8), of "with_env ?c ?w1" m body "type_name T" exchange err b fv]
    by (auto simp: ready assms(4,9) go_maps)
  let ?w2 = "with_env ((env w)\<lparr>prog_cache := s', prog_client := ?c\<lparr>broker := b\<rparr>\<rparr>) ?w1"
  have "?pub m ?w1 = (Ret err, ?w2)"
    using publisher_handler_run [of "Amqp_Publish (amqp_config ch (ConstantDestination exchange) (event_routing_key fv) event_defaults default_amqp_options)" m ?w1,
        unfolded ready(3), OF s'(2)] by (simp add: ready)
  then have inner: "foldr (\<lambda>m inner. m inner) [AddStructNameToMetadata, Amqp_MarshallPayloadToJson C] ?pub m w = (Ret err, ?w2)"
    by (simp add: event_prepared [OF assms(3-5) refl assms(6,7)])
  obtain counter timer where r: "r = Ret err" and w': "w' = ?w2\<lparr>env := (env ?w2)\<lparr>prog_out :=
      publisher_out inc observe io counter timer (clock ?w2 - clock w) (ID (get_msg ?w2 m)) (meta_of ?w2 m) err (prog_out (env ?w2))\<rparr>\<rparr>"
    using metered_published [OF created_engine [OF assms(1)] assms(2) inner assms(10)] by auto
  have "meta_of w' m = meta_of ?w2 m" by (simp add: w' ready(1) assms(4) read_map_env)
  with w' have "prog_out (env w') = publisher_out inc observe io counter timer 0 (ID (get_msg w m)) (meta_of w' m) err (prog_out (env w))"
    by (simp add: ready)
  then show ?thesis
    using r by (intro conjI exI) (simp_all add: w' ready read_map_env s'(1) assms(4))
qed


section \<open>An event on its way in\<close>

text \<open>The handler the routes choose for an event of the type \<open>n\<close>, and what it gets as its payload.\<close>

definition routed_event :: "'u terminal \<Rightarrow> string \<Rightarrow> addr \<Rightarrow> gval \<Rightarrow> (('p, 'c, 'u) program, gerr option) act" where
  "routed_event io n msg v =
     (if n = ''DummyEvent1'' then dummy_event_handler1 io msg v
      else if n = ''DummyEvent2'' then dummy_event_handler2 io msg v
      else default_event_handler io msg)"

definition routed_payload :: "string \<Rightarrow> addr \<Rightarrow> gval \<Rightarrow> 'e world \<Rightarrow> 'e world" where
  "routed_payload n msg v w = (if n \<in> {''DummyEvent1'', ''DummyEvent2''} then set_Payload msg v w else w)"

lemma routed_event_returns: "\<exists>w'. routed_event io n msg v w = (Ret None, w')"
  by (auto simp: routed_event_def dummy_event_handler1_def dummy_event_handler2_def default_event_handler_def
      intro: sleepy_returns)

lemma amqp_router_serves:
  assumes "amqp_router C io fv \<lparr>route_maps = [], builders = []\<rparr> = (Ret d, st)"
    and "valid_msg w msg" "map_of (meta_of w msg) ''event_type'' = Some (VString n)"
    and "Payload (get_msg w msg) = VBytes body" "\<forall>x. json_Unmarshal C (TStruct n) body x = (Ret (Inr (VStruct n fs)), x)"
  shows "HandlerFunc st d msg w = routed_event io n msg (VStruct n fs) (routed_payload n msg (VStruct n fs) w)"
proof -
  have struct: "type_assert (TStruct n) (VStruct n fs)" by (simp add: type_assert_def)
  have decode: "Amqp_UnmarshallPayloadFromJson C (TStruct n) (HandleWithPayload (TStruct n) h) msg w
      = h msg (VStruct n fs) (set_Payload msg (VStruct n fs) w)" for h
    using assms(2,4,5) by (simp add: Amqp_UnmarshallPayloadFromJson_def andThen_def HandleWithPayload_def struct Let_def)
  show ?thesis
    unfolding event_router_serves [OF assms(1) [unfolded amqp_router_def] assms(3)]
    using decode by (auto simp: amqp_routes_def routed_event_def routed_payload_def)
qed

text \<open>Handling a delivery that carries a published event, with automatic acknowledgement.\<close>

lemma event_handled:
  fixes del :: "('b, 'u) amqp_program delivery"
  assumes "amqp_router C io fv \<lparr>route_maps = [], builders = []\<rparr> = (Ret router, st)"
    and "NewAMQPSubscriber (Some acks) queueName [WithAutoAck] = Inr sub"
    and "amqp_createSubscriber P io fv receive (Some acks) queueName router v = (Ret (Inr e), v')"
    and recs: "records P inc observe"
    and decode: "\<forall>x. json_Unmarshal C (TStruct n) body x = (Ret (Inr (VStruct n fs)), x)"
    and "del_Body d = body" "del_Headers d = Some a" "a < length (heap_maps w)"
    and key: "map_of (read_map w (Some a)) ''event_type'' = Some (VString n)"
    and "amqp_delivery_fn sub c d w = (del, w1)"
    and "Start e c w0 = (out, e1)"
  shows "\<exists>h w2 w3 w4 counter timer. out = receive sub c h w0 \<and> se_handlerFn e1 = Some h
    \<and> env w2 = env w \<and> ID (get_msg w2 (dl_Message del)) = del_MessageId d
    \<and> Payload (get_msg w2 (dl_Message del))
        = (if n \<in> {''DummyEvent1'', ''DummyEvent2''} then VStruct n fs else VBytes body)
    \<and> routed_event io n (dl_Message del) (VStruct n fs) w2 = (Ret None, w3)
    \<and> Handle (amqp_dispatcher sub (h st)) del w1 = (Ret (), w4)
    \<and> env w4 = (env w3)\<lparr>prog_out := subscriber_out inc observe io counter timer (clock w3 - clock w2)
         (ID (get_msg w3 (dl_Message del))) (meta_of w3 (dl_Message del)) None (prog_out (env w3))\<rparr>"
proof -
  let ?m = "dl_Message del"
  obtain h counter timer where labels: "label_names counter = [''subscriber'', ''error'']" "label_names timer = [''subscriber'', ''error'']"
    and h: "h = (\<lambda>st. foldr (\<lambda>m inner. m inner) [] (foldr (\<lambda>m inner. m inner)
            (metered P io fv subscriberLabelsProducer ''handler'' counter timer) (HandlerFunc st router)))"
    and start: "out = receive sub c h w0" "se_handlerFn e1 = Some h"
    using metered_started [OF created_subscriber [OF assms(3,2)] assms(11)] by blast
  have opts: "autoAck (as_options sub)" "quiet (amqp_onAckError (as_options sub))" "quiet (amqp_onNackError (as_options sub))"
    using assms(2) by (auto simp: NewAMQPSubscriber_def WithAutoAck_def quiet_def)
  note facts = amqp_delivery_facts [OF assms(10)]
  obtain ackCtx fin w2 where prep: "handle_prepare (amqp_dispatcher sub (h st)) del w1 = ((ackCtx, fin), w2)"
    by (metis prod.exhaust)
  note same = handle_prepare_same [OF prep facts(2)]
  have w2: "env w2 = env w" "heap_maps w2 = heap_maps w @ [[]]" "valid_msg w2 ?m"
    using handle_prepare_frame [OF prep] facts by simp_all
  have msg: "ID (get_msg w2 ?m) = del_MessageId d" "Metadata (get_msg w2 ?m) = Some a" "Payload (get_msg w2 ?m) = VBytes body"
    using same facts(3) assms(6,7) by simp_all
  have "map_of (meta_of w2 ?m) ''event_type'' = Some (VString n)"
    using key assms(8) by (simp add: msg(2) read_map_def w2(2) nth_append)
  note routed = amqp_router_serves [OF assms(1) w2(3) this msg(3) decode]
  let ?w2 = "routed_payload n ?m (VStruct n fs) w2"
  have w2': "env ?w2 = env w" "clock ?w2 = clock w2" "ID (get_msg ?w2 ?m) = del_MessageId d"
    "Payload (get_msg ?w2 ?m) = (if n \<in> {''DummyEvent1'', ''DummyEvent2''} then VStruct n fs else VBytes body)"
    using w2 msg by (simp_all add: routed_payload_def set_Payload_def)
  obtain w3 where w3: "routed_event io n ?m (VStruct n fs) ?w2 = (Ret None, w3)"
    using routed_event_returns by blast
  have contract: "delivery_contract del (\<lambda>_ v. snd (amqp_ack sub d v)) (\<lambda>_ v. snd (amqp_nack sub d v))"
    unfolding facts(1) by (rule amqp_received.delivery_contract_axioms)
  have calm: "quiet (OnAckError (d_opts (amqp_dispatcher sub (h st))))" "quiet (OnNackError (d_opts (amqp_dispatcher sub (h st))))"
    "d_handler (amqp_dispatcher sub (h st)) = h st"
    using opts by (simp_all add: amqp_dispatcher_def NewDispatcher_def)
  have hd: "d_handler (amqp_dispatcher sub (h st)) ?m w2 = foldr (\<lambda>m inner. m inner)
      (metered P io fv subscriberLabelsProducer ''handler'' counter timer) (HandlerFunc st router) ?m w2"
    unfolding calm(3) by (simp add: h)
  have "\<exists>w4. Handle (amqp_dispatcher sub (h st)) del w1 = (Ret (), w4)
      \<and> env w4 = (env w3)\<lparr>prog_out := subscriber_out inc observe io counter timer (clock w3 - clock w2)
         (ID (get_msg w3 ?m)) (meta_of w3 ?m) None (prog_out (env w3))\<rparr>"
    using metered_delivery [OF contract calm(1,2) labels hd recs prep] routed w3 opts(1) by (simp add: Let_def amqp_ack_def)
  with start w2' w3 show ?thesis by metis
qed


section \<open>Properties\<close>

text \<open>C21: An event published through the program's publishing engine comes out at the handler of its
  type. Publishing makes one publish to the configured exchange, with the name of the event's type
  as the routing key, its JSON text as the body, and headers that name the type; the result is nil
  and the publish is counted and timed once as a success. A delivery with that body and those
  headers, handed to the dispatcher with the handler the subscription engine started with, runs the
  handler of the type on the event itself (the default handler, for a type without a route, on the
  JSON text), never panics, is not acked a second time, and is counted once as a success, with the
  time the handler took.\<close>

theorem event_round_trip:
  fixes del :: "('b, 'u) amqp_program delivery"
  assumes "amqp_createPublisher P io C fv ch exchange v = (Ret (Inr eng), v')"
    and "amqp_router C io fv \<lparr>route_maps = [], builders = []\<rparr> = (Ret router, st)"
    and "NewAMQPSubscriber (Some acks) queueName [WithAutoAck] = Inr sub"
    and "amqp_createSubscriber P io fv receive (Some acks) queueName router x = (Ret (Inr e), x')"
    and "records P inc observe"
    and "valid_msg w m" "Metadata (get_msg w m) = Some a" "a < length (heap_maps w)"
    and "Payload (get_msg w m) = VStruct n fs"
    and "\<forall>w. json_Marshal C (VStruct n fs) w = (Ret (Inr body), w)"
    and "\<forall>w. json_Unmarshal C (TStruct n) body w = (Ret (Inr (VStruct n fs)), w)"
    and "event_amqp.own_cache ch (prog_cache (env w))"
    and "chan_Publish ch exchange n False False (event_publishing body (Some a)) (broker (prog_client (env w))) = (None, b)"
    and "PublishingEngine_Publish eng m w = ((r, w1), eng')"
    and "del_Body d = body" "del_Headers d = Some a2" "a2 < length (heap_maps w2)"
    and "read_map w2 (Some a2) = read_map w1 (Some a)"
    and "amqp_delivery_fn sub c d w2 = (del, w3)"
    and "Start e c w0 = (out, e1)"
  shows "r = Ret None \<and> broker (prog_client (env w1)) = b
    \<and> (\<exists>counter timer. prog_out (env w1) =
         publisher_out inc observe io counter timer 0 (ID (get_msg w m)) (meta_of w1 m) None (prog_out (env w)))
    \<and> (\<exists>h w4 w5 w6 counter timer. out = receive sub c h w0 \<and> se_handlerFn e1 = Some h
    \<and> env w4 = env w2 \<and> ID (get_msg w4 (dl_Message del)) = del_MessageId d
    \<and> Payload (get_msg w4 (dl_Message del))
        = (if n \<in> {''DummyEvent1'', ''DummyEvent2''} then VStruct n fs else VBytes body)
    \<and> routed_event io n (dl_Message del) (VStruct n fs) w4 = (Ret None, w5)
    \<and> Handle (amqp_dispatcher sub (h st)) del w3 = (Ret (), w6)
    \<and> env w6 = (env w5)\<lparr>prog_out := subscriber_out inc observe io counter timer (clock w5 - clock w4)
         (ID (get_msg w5 (dl_Message del))) (meta_of w5 (dl_Message del)) None (prog_out (env w5))\<rparr>)"
proof -
  have T: "dyn_type (Payload (get_msg w m)) = Some (TStruct n)" "type_name (TStruct n) = n"
    using assms(9) by simp_all
  have enc: "\<forall>x. json_Marshal C (Payload (get_msg w m)) x = (Ret (Inr body), x)"
    using assms(9,10) by simp
  note sent = event_published [OF assms(1,5-8) T(1) enc assms(12), unfolded T(2), OF assms(13,14)]
  then have "read_map w1 (Some a) = AList.update ''event_type'' (VString n) (read_map w (Some a))" by blast
  then have "map_of (read_map w2 (Some a2)) ''event_type'' = Some (VString n)"
    by (simp add: assms(18) go_maps)
  note got = event_handled [OF assms(2-5,11,15-17) this assms(19,20)]
  from sent got show ?thesis by (intro conjI) (elim conjE, assumption)+
qed

text \<open>A broker's channel and a program for the witness.\<close>

definition idle_acks :: "'e acknowledger" where
  "idle_acks = \<lparr>del_Ack = (\<lambda>t m e. (None, e)), del_Nack = (\<lambda>t m q e. (None, e))\<rparr>"

type_synonym demo_program = "(string list, string list) amqp_program"

definition demo_program_env :: demo_program where
  "demo_program_env = \<lparr>prog_cache = mp_zero, prog_client = \<lparr>ch_closed = False, broker = []\<rparr>, prog_out = []\<rparr>"

theorem event_round_trip_witness:
  "\<exists>eng router st sub e x' w1 eng' del w3 out e1 h w6.
      amqp_createPublisher demo_prom demo_terminal struct_codec (\<lambda>v. []) log_channel ''x'' (start_world demo_program_env)
        = (Ret (Inr eng), start_world demo_program_env)
    \<and> amqp_router struct_codec demo_terminal (\<lambda>v. []) \<lparr>route_maps = [], builders = []\<rparr> = (Ret router, st)
    \<and> NewAMQPSubscriber (Some idle_acks) ''q'' [WithAutoAck] = Inr sub
    \<and> amqp_createSubscriber demo_prom demo_terminal (\<lambda>v. []) (\<lambda>s c h w. (Ret None, w)) (Some idle_acks) ''q'' router w1 = (Ret (Inr e), x')
    \<and> PublishingEngine_Publish eng 0 (snd (NewMessage Background demo_event (start_world demo_program_env))) = ((Ret None, w1), eng')
    \<and> broker (prog_client (env w1)) = [''xDummyEvent1value1'']
    \<and> amqp_delivery_fn sub Background \<lparr>del_Tag = 1, del_Body = ''value1'', del_MessageId = [], del_Headers = Some 0\<rparr>
        (w1\<lparr>heap_maps := [read_map w1 (Some 0)]\<rparr>) = (del, w3)
    \<and> Start e Background w1 = (out, e1) \<and> se_handlerFn e1 = Some h
    \<and> Handle (amqp_dispatcher sub (h st)) del w3 = (Ret (), w6)
    \<and> last (prog_out (env w6)) = ''my_subscriber false''"
proof -
  let ?w = "snd (NewMessage Background demo_event (start_world demo_program_env))"
  obtain eng where pub: "amqp_createPublisher demo_prom demo_terminal struct_codec (\<lambda>v. []) log_channel ''x'' (start_world demo_program_env)
      = (Ret (Inr eng), start_world demo_program_env)"
    by (simp add: amqp_createPublisher_def metered_publisher_def event_publisher andThen_def CreatePromOutgoingCount_def
        CreatePromOutgoingDuration_def register_collector_def on_out_def demo_prom_def start_world_def demo_program_env_def)
  obtain router :: "demo_program router" and st where router:
    "amqp_router struct_codec demo_terminal (\<lambda>v. []) \<lparr>route_maps = [], builders = []\<rparr> = (Ret router, st)"
    by (simp add: amqp_router_def event_router_def NewRouter_def Let_def AddDefaultHandler_def)
  obtain sub :: "demo_program amqp_subscriber" where sub: "NewAMQPSubscriber (Some idle_acks) ''q'' [WithAutoAck] = Inr sub"
    by (simp add: NewAMQPSubscriber_def)
  obtain r w1 eng' where run: "PublishingEngine_Publish eng 0 ?w = ((r, w1), eng')" by (metis prod.exhaust)
  obtain e x' where e: "amqp_createSubscriber demo_prom demo_terminal (\<lambda>v. []) (\<lambda>s c h w. (Ret None, w)) (Some idle_acks) ''q'' router w1
      = (Ret (Inr e), x')"
    by (simp add: amqp_createSubscriber_def metered_subscriber_def sub andThen_def CreatePromIncomingCount_def
        CreatePromIncomingDuration_def register_collector_def on_out_def demo_prom_def)
  let ?d = "\<lparr>del_Tag = 1, del_Body = ''value1'', del_MessageId = [], del_Headers = Some 0\<rparr>"
  let ?w2 = "w1\<lparr>heap_maps := [read_map w1 (Some 0)]\<rparr>"
  obtain del w3 where del: "amqp_delivery_fn sub Background ?d ?w2 = (del, w3)" by fastforce
  obtain out e1 where start: "Start e Background w1 = (out, e1)" by fastforce
  have w: "valid_msg ?w 0" "Metadata (get_msg ?w 0) = Some 0" "0 < length (heap_maps ?w)"
    "Payload (get_msg ?w 0) = VStruct ''DummyEvent1'' [VString ''value1'']"
    by (simp_all add: message_defs world_defs start_world_def demo_event_def)
  have codec: "\<forall>w :: demo_program world. json_Marshal struct_codec (VStruct ''DummyEvent1'' [VString ''value1'']) w = (Ret (Inr ''value1''), w)"
    "\<forall>w :: demo_program world. json_Unmarshal struct_codec (TStruct ''DummyEvent1'') ''value1'' w = (Ret (Inr (VStruct ''DummyEvent1'' [VString ''value1''])), w)"
    by (simp_all add: struct_codec_def)
  have cache: "event_amqp.own_cache log_channel (prog_cache (env ?w))"
    and sent: "chan_Publish log_channel ''x'' ''DummyEvent1'' False False (event_publishing ''value1'' (Some 0)) (broker (prog_client (env ?w)))
      = (None, [''xDummyEvent1value1''])"
    by (simp_all add: message_defs world_defs start_world_def demo_program_env_def event_amqp.own_cache_zero log_channel_def
        event_publishing_def)
  have w2: "0 < length (heap_maps ?w2)" "read_map ?w2 (Some 0) = read_map w1 (Some 0)"
    by (simp_all add: read_map_def)
  have d: "del_Body ?d = ''value1''" "del_Headers ?d = Some 0" by simp_all
  note trip = event_round_trip [OF pub router sub e demo_records w codec cache sent run d w2 del start]
  then have sent: "r = Ret None" "broker (prog_client (env w1)) = [''xDummyEvent1value1'']" by (blast, blast)
  from trip obtain h w6 and w5 :: "demo_program world" where handled:
    "se_handlerFn e1 = Some h" "Handle (amqp_dispatcher sub (h st)) del w3 = (Ret (), w6)"
    "prog_out (env w6) = demo_count (engine_labels ''subscriber'' ''my_subscriber'' None) (prog_out (env w5))"
    unfolding subscriber_out_def metered_out_def by fastforce
  have "last (prog_out (env w6)) = ''my_subscriber false''"
    unfolding handled(3) by (simp add: demo_count_def engine_labels_def FormatBool_def)
  with pub router sub e run [unfolded sent(1)] sent(2) del start handled(1,2) show ?thesis
    by (intro exI conjI)
qed

section \<open>Running \<open>main\<close>\<close>

lemma amqp_publish_event:
  assumes "amqp_createPublisher P io C fv ch exchange v = (Ret (Inr eng0), v')" "records P inc observe"
    and "PublishingEngine_Publish eng = PublishingEngine_Publish eng0"
    and "\<forall>x. json_Marshal C (VStruct n fs) x = (Ret (Inr body), x)"
    and "event_amqp.own_cache ch (prog_cache (env w))"
  shows "\<exists>err eng' w'. publish_event eng (VStruct n fs) w = (case err of None \<Rightarrow> (Ret eng', w') | Some e \<Rightarrow> (Panic (PErr e), w'))
    \<and> PublishingEngine_Publish eng' = PublishingEngine_Publish eng0
    \<and> chan_Publish ch exchange n False False (event_publishing body (Some (length (heap_maps w)))) (broker (prog_client (env w)))
        = (err, broker (prog_client (env w')))
    \<and> read_map w' (Some (length (heap_maps w))) = [(''event_type'', VString n)]
    \<and> event_amqp.own_cache ch (prog_cache (env w'))"
proof -
  obtain m w1 where new: "NewMessage Background (VStruct n fs) w = (m, w1)" by fastforce
  note fresh = new_message_facts [OF new]
  obtain r w' eng' where run: "PublishingEngine_Publish eng0 m w1 = ((r, w'), eng')" by (metis prod.exhaust)
  obtain err b where sent: "chan_Publish ch exchange n False False (event_publishing body (Some (length (heap_maps w)))) (broker (prog_client (env w1)))
      = (err, b)" by fastforce
  have msg: "Metadata (get_msg w1 m) = Some (length (heap_maps w))" "dyn_type (Payload (get_msg w1 m)) = Some (TStruct n)"
    "\<forall>x. json_Marshal C (Payload (get_msg w1 m)) x = (Ret (Inr body), x)" "event_amqp.own_cache ch (prog_cache (env w1))"
    using fresh assms(4,5) by simp_all
  from event_published [OF assms(1,2) fresh(2) msg(1) fresh(5) msg(2-4) _ run, of err b] sent
  have "r = Ret err" "broker (prog_client (env w')) = b" "event_amqp.own_cache ch (prog_cache (env w'))"
    "read_map w' (Some (length (heap_maps w))) = AList.update ''event_type'' (VString n) (read_map w1 (Some (length (heap_maps w))))"
    by simp_all
  with engine_again [OF run] run sent fresh(4,6) show ?thesis
    by (intro exI [of _ err] exI [of _ eng'] exI [of _ w'])
      (cases err; simp add: publish_event_def must_publish_def new assms(3))
qed

text \<open>
  What a list of publishes, each with its routing key and body, sends to the exchange while the
  goroutine runs, and what comes of it: the first error (\<open>Inr\<close>) or panic of the goroutine (\<open>Inl\<close>), if
  there is one, ends the list.
\<close>

fun published_during where
  "published_during ch exchange others k [] w res \<longleftrightarrow> res = (Inr None, w)"
| "published_during ch exchange others k ((n, body) # evs) w res \<longleftrightarrow>
     (case others k w of
        (Panic q, u) \<Rightarrow> res = (Inl q, u)
      | (Ret _, u) \<Rightarrow>
          (\<exists>v hdr err. chan_Publish ch exchange n False False (event_publishing body (Some hdr)) (broker (prog_client (env u)))
              = (err, broker (prog_client (env v)))
            \<and> read_map v (Some hdr) = [(''event_type'', VString n)]
            \<and> (case err of Some e \<Rightarrow> res = (Inr (Some e), v) | None \<Rightarrow> published_during ch exchange others (Suc k) evs v res)))"

text \<open>One publish, and then what \<open>rest\<close> does.\<close>

lemma published_then:
  assumes created: "amqp_createPublisher P io C fv ch exchange v = (Ret (Inr eng0), v')" "records P inc observe"
    and calm: "\<forall>k v. prog_cache (env (snd (others k v))) = prog_cache (env v)"
    and codec: "\<forall>x. json_Marshal C (VStruct n fs) x = (Ret (Inr body), x)"
    and rest: "\<And>eng1 w1. PublishingEngine_Publish eng1 = PublishingEngine_Publish eng0 \<Longrightarrow>
        event_amqp.own_cache ch (prog_cache (env w1)) \<Longrightarrow>
        \<exists>res w2. published_during ch exchange others (Suc k) evs w1 (res, w2)
          \<and> rest eng1 w1 = (case res of Inl q \<Rightarrow> (Ret (Inl q), w2) | Inr (Some e) \<Rightarrow> (Panic (PErr e), w2) | Inr None \<Rightarrow> finish w2)"
    and eng: "PublishingEngine_Publish eng = PublishingEngine_Publish eng0"
    and cache: "event_amqp.own_cache ch (prog_cache (env w))"
  shows "\<exists>res w2. published_during ch exchange others k ((n, body) # evs) w (res, w2)
    \<and> in_goroutine (others k) (\<lambda>_. andThen (publish_event eng (VStruct n fs)) rest) w
        = (case res of Inl q \<Rightarrow> (Ret (Inl q), w2) | Inr (Some e) \<Rightarrow> (Panic (PErr e), w2) | Inr None \<Rightarrow> finish w2)"
proof -
  obtain step u where o: "others k w = (step, u)" by fastforce
  with calm have "prog_cache (env u) = prog_cache (env w)" by (metis snd_conv)
  with cache have own: "event_amqp.own_cache ch (prog_cache (env u))" by simp
  show ?thesis
  proof (cases step)
    case (Panic q)
    with o show ?thesis by (intro exI [of _ "Inl q"] exI [of _ u]) (simp add: in_goroutine_def)
  next
    case (Ret unit)
    obtain err eng1 w1 where p: "publish_event eng (VStruct n fs) u = (case err of None \<Rightarrow> (Ret eng1, w1) | Some e \<Rightarrow> (Panic (PErr e), w1))"
      and s: "PublishingEngine_Publish eng1 = PublishingEngine_Publish eng0"
        "chan_Publish ch exchange n False False (event_publishing body (Some (length (heap_maps u)))) (broker (prog_client (env u)))
          = (err, broker (prog_client (env w1)))"
        "read_map w1 (Some (length (heap_maps u))) = [(''event_type'', VString n)]" "event_amqp.own_cache ch (prog_cache (env w1))"
      using amqp_publish_event [OF created eng codec own] by blast
    obtain res w2 where r: "published_during ch exchange others (Suc k) evs w1 (res, w2)"
      "rest eng1 w1 = (case res of Inl q \<Rightarrow> (Ret (Inl q), w2) | Inr (Some e) \<Rightarrow> (Panic (PErr e), w2) | Inr None \<Rightarrow> finish w2)"
      using rest [OF s(1,4)] by blast
    show ?thesis
    proof (cases err)
      case None
      then have "published_during ch exchange others k ((n, body) # evs) w (res, w2)"
        unfolding published_during.simps o Ret prod.case res.case
        by (intro exI [of _ w1] exI [of _ "length (heap_maps u)"] exI [of _ err] conjI s(2,3)) (simp add: r(1))
      with None show ?thesis using o Ret p r(2)
        by (intro exI [of _ res] exI [of _ w2]) (simp add: in_goroutine_def andThen_def del: published_during.simps)
    next
      case (Some e)
      then have "published_during ch exchange others k ((n, body) # evs) w (Inr (Some e), w1)"
        unfolding published_during.simps o Ret prod.case res.case
        by (intro exI [of _ w1] exI [of _ "length (heap_maps u)"] exI [of _ err] conjI s(2,3)) simp
      with Some show ?thesis using o Ret p
        by (intro exI [of _ "Inr (Some e)"] exI [of _ w1]) (simp add: in_goroutine_def andThen_def del: published_during.simps)
    qed
  qed
qed

lemma amqp_main_loop_run:
  assumes created: "amqp_createPublisher P io C fv ch exchange v = (Ret (Inr eng0), v')" "records P inc observe"
    and codec: "\<forall>x. json_Marshal C (VStruct ''DummyEvent1'' [VString ''value1'']) x = (Ret (Inr b1), x)"
      "\<forall>x. json_Marshal C (VStruct ''DummyEvent2'' [VString ''value2'']) x = (Ret (Inr b2), x)"
      "\<forall>x. json_Marshal C (VStruct ''DummyEvent3'' [VString ''value3'']) x = (Ret (Inr b3), x)"
    and cache: "event_amqp.own_cache ch (prog_cache (env w))"
    and calm: "\<forall>k v. prog_cache (env (snd (fst run k v))) = prog_cache (env v)"
  shows "\<exists>res w'. published_during ch exchange (fst run) 0 [(''DummyEvent1'', b1), (''DummyEvent2'', b2), (''DummyEvent3'', b3)] w (res, w')
    \<and> amqp_main_loop io eng0 run w = (case res of Inl q \<Rightarrow> (Ret (Inl q), w') | Inr (Some e) \<Rightarrow> (Panic (PErr e), w')
        | Inr None \<Rightarrow> await_shutdown io (snd run) w')"
proof -
  let ?case = "\<lambda>res w'. case res of Inl q \<Rightarrow> (Ret (Inl q), w') | Inr (Some e) \<Rightarrow> (Panic (PErr e), w')
      | Inr None \<Rightarrow> await_shutdown io (snd run) w'"
  let ?third = "\<lambda>eng. in_goroutine (fst run 2) (\<lambda>_. andThen (publish_event eng (VStruct ''DummyEvent3'' [VString ''value3'']))
      (\<lambda>_. await_shutdown io (snd run)))"
  let ?second = "\<lambda>eng. in_goroutine (fst run 1) (\<lambda>_. andThen (publish_event eng (VStruct ''DummyEvent2'' [VString ''value2''])) ?third)"
  have 3: "\<exists>res w'. published_during ch exchange (fst run) 2 [(''DummyEvent3'', b3)] w (res, w') \<and> ?third eng w = ?case res w'"
    if "PublishingEngine_Publish eng = PublishingEngine_Publish eng0" "event_amqp.own_cache ch (prog_cache (env w))" for eng w
    by (rule published_then [OF created calm codec(3) _ that]) simp
  have 2: "\<exists>res w'. published_during ch exchange (fst run) 1 [(''DummyEvent2'', b2), (''DummyEvent3'', b3)] w (res, w')
      \<and> ?second eng w = ?case res w'"
    if "PublishingEngine_Publish eng = PublishingEngine_Publish eng0" "event_amqp.own_cache ch (prog_cache (env w))" for eng w
    by (rule published_then [where k = 1, OF created calm codec(2) _ that], unfold Suc_1) (rule 3)
  show ?thesis
    unfolding amqp_main_loop_def
    by (rule published_then [where k = 0, OF created calm codec(1) _ refl cache], unfold One_nat_def [symmetric]) (rule 2)
qed

lemma await_shutdown_form:
  "await_shutdown io finished w =
     (case finished (snd (print_line io ''AMQP example running. Press Ctrl+C to stop...'' w)) of
        (Panic q, w1) \<Rightarrow> (Ret (Inl q), w1)
      | (Ret (Some e), w1) \<Rightarrow> (Panic (PErr e), w1)
      | (Ret None, w1) \<Rightarrow> (Ret (Inr ()), snd (print_line io ''Shutdown complete'' w1)))"
  by (auto simp: await_shutdown_def in_goroutine_def andThen_def print_line_def on_out_def split: prod.split res.split option.split)

lemma amqp_connected_run:
  assumes reg: "registry P io inc observe names" and new: "names (prog_out (env w3)) \<inter> (outgoing_names \<union> incoming_names) = {}"
    and recs: "records P inc observe"
    and codec: "\<forall>x. json_Marshal C (VStruct ''DummyEvent1'' [VString ''value1'']) x = (Ret (Inr b1), x)"
      "\<forall>x. json_Marshal C (VStruct ''DummyEvent2'' [VString ''value2'']) x = (Ret (Inr b2), x)"
      "\<forall>x. json_Marshal C (VStruct ''DummyEvent3'' [VString ''value3'']) x = (Ret (Inr b3), x)"
    and cache: "prog_cache (env w3) = mp_zero"
    and router: "amqp_router C io fv \<lparr>route_maps = [], builders = []\<rparr> = (Ret router, st)"
    and calm: "\<forall>e k v. prog_cache (env (snd (fst (go e st runCtx) k v))) = prog_cache (env v)"
  shows "case acks of
      None \<Rightarrow> \<exists>w4. amqp_connected P io C fv receive go runCtx exchange queue ch acks w3 = (Panic (PErr (ErrNew ''channel is required'')), w4)
          \<and> prog_client (env w4) = prog_client (env w3)
    | Some a \<Rightarrow> \<exists>e sub h w4 res w5 counter timer.
          prog_client (env w4) = prog_client (env w3)
        \<and> published_during ch exchange (fst (go e st runCtx)) 0
            [(''DummyEvent1'', b1), (''DummyEvent2'', b2), (''DummyEvent3'', b3)] w4 (res, w5)
        \<and> amqp_connected P io C fv receive go runCtx exchange queue ch acks w3
            = (case res of Inl q \<Rightarrow> (Ret (Inl q), w5) | Inr (Some e) \<Rightarrow> (Panic (PErr e), w5)
                | Inr None \<Rightarrow> await_shutdown io (snd (go e st runCtx)) w5)
        \<and> (\<forall>c v. fst (Start e c v) = receive sub c h v)
        \<and> as_channel sub = a \<and> as_queue sub = queue \<and> autoAck (as_options sub)
        \<and> h st = foldr (\<lambda>m inner. m inner) (metered P io fv subscriberLabelsProducer ''handler'' counter timer) (HandlerFunc st router)"
proof -
  have vacant: "names (prog_out (env w3)) \<inter> outgoing_names = {}" using new by blast
  obtain eng u where "metered_publisher P io fv (publisher_handler (Amqp_Publish
      (amqp_config ch (ConstantDestination exchange) (event_routing_key fv) event_defaults default_amqp_options)))
      [AddStructNameToMetadata, Amqp_MarshallPayloadToJson C] w3 = (Ret eng, w3\<lparr>env := (env w3)\<lparr>prog_out := u\<rparr>\<rparr>)"
    and u: "names u = names (prog_out (env w3)) \<union> outgoing_names"
    using metered_publisher_returns [OF reg vacant] by blast
  then have create: "amqp_createPublisher P io C fv ch exchange w3 = (Ret (Inr eng), w3\<lparr>env := (env w3)\<lparr>prog_out := u\<rparr>\<rparr>)"
    (is "_ = (_, ?w)")
    by (simp add: amqp_createPublisher_def event_publisher andThen_def)
  note start = andThen_def router create
  show ?thesis
  proof (cases acks)
    case None
    then show ?thesis unfolding amqp_connected_def
      by (simp add: start amqp_createSubscriber_def NewAMQPSubscriber_def)
  next
    case (Some a)
    obtain sub where sub: "NewAMQPSubscriber acks queue [WithAutoAck] = Inr sub" "as_channel sub = a" "as_queue sub = queue"
      "autoAck (as_options sub)"
      by (simp add: NewAMQPSubscriber_def Some WithAutoAck_def)
    have free: "names (prog_out (env ?w)) \<inter> incoming_names = {}" using new names_disjoint u by auto
    obtain e u' where me: "metered_subscriber P io fv (receive sub) router [] ?w = (Ret e, ?w\<lparr>env := (env ?w)\<lparr>prog_out := u'\<rparr>\<rparr>)"
      using metered_subscriber_returns [OF reg free] by blast
    then have s: "amqp_createSubscriber P io fv receive acks queue router ?w = (Ret (Inr e), ?w\<lparr>env := (env ?w)\<lparr>prog_out := u'\<rparr>\<rparr>)"
      (is "_ = (_, ?w4)")
      by (simp add: amqp_createSubscriber_def sub(1) andThen_def)
    have "event_amqp.own_cache ch (prog_cache (env ?w4))" using cache by (simp add: event_amqp.own_cache_zero)
    from amqp_main_loop_run [OF create recs codec this] calm
    obtain res w5 where loop: "published_during ch exchange (fst (go e st runCtx)) 0
            [(''DummyEvent1'', b1), (''DummyEvent2'', b2), (''DummyEvent3'', b3)] ?w4 (res, w5)"
      "amqp_main_loop io eng (go e st runCtx) ?w4 = (case res of Inl q \<Rightarrow> (Ret (Inl q), w5) | Inr (Some e) \<Rightarrow> (Panic (PErr e), w5)
          | Inr None \<Rightarrow> await_shutdown io (snd (go e st runCtx)) w5)"
      by blast
    have main: "amqp_connected P io C fv receive go runCtx exchange queue ch acks w3
        = (case res of Inl q \<Rightarrow> (Ret (Inl q), w5) | Inr (Some e) \<Rightarrow> (Panic (PErr e), w5)
            | Inr None \<Rightarrow> await_shutdown io (snd (go e st runCtx)) w5)"
      using s loop(2) unfolding amqp_connected_def by (simp add: start)
    from metered_subscriber_made [OF me] obtain counter timer where e: "e = (NewSubscriptionEngine (receive sub) router)
        \<lparr>se_mc := foldl Add NewChain ([] @ metered P io fv subscriberLabelsProducer ''handler'' counter timer)\<rparr>" by blast
    let ?h = "\<lambda>st. foldr (\<lambda>m inner. m inner) (metered P io fv subscriberLabelsProducer ''handler'' counter timer) (HandlerFunc st router)"
    have h: "\<forall>c v. fst (Start e c v) = receive sub c ?h v"
      by (simp add: Start_def e NewSubscriptionEngine_def Wrap_foldr foldl_Add NewChain_def Let_def)
    show ?thesis unfolding Some option.case
      by (rule exI [of _ e], rule exI [of _ sub], rule exI [of _ ?h], rule exI [of _ ?w4], rule exI [of _ res], rule exI [of _ w5],
          rule exI [of _ counter], rule exI [of _ timer]) (intro conjI loop(1) main [unfolded Some] h sub(2-4) refl, simp)
  qed
qed

text \<open>C37: \<open>main\<close> of the AMQP program, whatever the goroutine of its subscription engine does between the
  publishes and after them, panics included, as long as it does not use the publisher's cache. Without
  a connection the program ends with the error of \<open>Dial\<close>, and nothing is closed. Once connected it
  closes the connection on every way out of \<open>main\<close> itself: if the set-up of the exchange and the queue
  fails; if the channel could not be opened, when nothing is published and the missing channel is the
  error; if a publish fails, with the broker's error; if \<open>Start\<close> fails; and at the normal end. Only a
  panic of the goroutine ends the process without closing it. \<open>main\<close> publishes its three events in order,
  each once, to the fresh exchange it set up, under the name of its type, with its JSON text and with
  headers that name the type, and the first failure ends the list. The engine receives from the fresh
  queue, with automatic acknowledgement, and its handler is the router behind the metrics. The
  registry must not hold the program's metrics yet.\<close>

theorem amqp_main_run:
  assumes reg: "registry P io inc observe names" and new: "names (prog_out (env w3)) \<inter> (outgoing_names \<union> incoming_names) = {}"
    and recs: "records P inc observe"
    and codec: "\<forall>x. json_Marshal C (VStruct ''DummyEvent1'' [VString ''value1'']) x = (Ret (Inr b1), x)"
      "\<forall>x. json_Marshal C (VStruct ''DummyEvent2'' [VString ''value2'']) x = (Ret (Inr b2), x)"
      "\<forall>x. json_Marshal C (VStruct ''DummyEvent3'' [VString ''value3'']) x = (Ret (Inr b3), x)"
    and ids: "exchange = ''demo-exchange-'' @ randomID" "queue = ''demo-queue-'' @ randomID"
    and up: "dial w = (Ret refused, w1)" "set_up exchange queue w1 = (Ret broken, w2)" "open_channel w2 = (Ret (ch, acks), w3)"
    and cache: "prog_cache (env w3) = mp_zero"
    and router: "amqp_router C io fv \<lparr>route_maps = [], builders = []\<rparr> = (Ret router, st)"
    and calm: "\<forall>e k v. prog_cache (env (snd (fst (go e st runCtx) k v))) = prog_cache (env v)"
    and main: "main = amqp_main P io C fv err_text dial close set_up open_channel receive go randomID runCtx w"
  shows "case refused of
      Some e \<Rightarrow> main = (Panic (PVal (VString (''Failed to connect to RabbitMQ: '' @ err_text e))), w1)
    | None \<Rightarrow> (case broken of
        Some e \<Rightarrow> main = (Panic (PVal (VString (''Failed to setup infrastructure: '' @ err_text e))), close w2)
      | None \<Rightarrow> (case acks of
          None \<Rightarrow> \<exists>w4. main = (Panic (PErr (ErrNew ''channel is required'')), close w4)
            \<and> prog_client (env w4) = prog_client (env w3)
        | Some a \<Rightarrow> \<exists>e sub h w4 res w5 counter timer.
              prog_client (env w4) = prog_client (env w3)
            \<and> published_during ch exchange (fst (go e st runCtx)) 0
                [(''DummyEvent1'', b1), (''DummyEvent2'', b2), (''DummyEvent3'', b3)] w4 (res, w5)
            \<and> main = (case res of
                Inl q \<Rightarrow> (Panic q, w5)
              | Inr (Some e) \<Rightarrow> (Panic (PErr e), close w5)
              | Inr None \<Rightarrow>
                  (case snd (go e st runCtx) (snd (print_line io ''AMQP example running. Press Ctrl+C to stop...'' w5)) of
                     (Panic q, w6) \<Rightarrow> (Panic q, w6)
                   | (Ret (Some e), w6) \<Rightarrow> (Panic (PErr e), close w6)
                   | (Ret None, w6) \<Rightarrow> (Ret (), close (snd (print_line io ''Shutdown complete'' w6)))))
            \<and> (\<forall>c v. fst (Start e c v) = receive sub c h v)
            \<and> as_channel sub = a \<and> as_queue sub = queue \<and> autoAck (as_options sub)
            \<and> h st = foldr (\<lambda>m inner. m inner) (metered P io fv subscriberLabelsProducer ''handler'' counter timer)
                (HandlerFunc st router)))"
proof -
  have run: "main = (case refused of
      Some e \<Rightarrow> (Panic (PVal (VString (''Failed to connect to RabbitMQ: '' @ err_text e))), w1)
    | None \<Rightarrow> main_defers close (\<lambda>w1. case broken of
        Some e \<Rightarrow> (Panic (PVal (VString (''Failed to setup infrastructure: '' @ err_text e))), w2)
      | None \<Rightarrow> amqp_connected P io C fv receive go runCtx exchange queue ch acks w3) w1)"
    unfolding main amqp_main_def Let_def ids [symmetric]
    by (cases refused; cases broken) (simp_all add: andThen_def main_defers_def up)
  show ?thesis
  proof (cases "refused = None \<and> broken = None")
    case False
    then show ?thesis unfolding run by (cases refused) (auto simp: main_defers_def split: option.split)
  next
    case True
    then have body: "main = main_defers close (\<lambda>w1. amqp_connected P io C fv receive go runCtx exchange queue ch acks w3) w1"
      unfolding run by simp
    note out = amqp_connected_run [where go = go and receive = receive and exchange = exchange and queue = queue and acks = acks
        and ch = ch and runCtx = runCtx, OF reg new recs codec cache router calm]
    show ?thesis
    proof (cases acks)
      case None
      with out True body show ?thesis by (auto simp: main_defers_def)
    next
      case (Some a)
      from out [unfolded Some option.case] obtain e sub h w4 res w5 counter timer where o: "prog_client (env w4) = prog_client (env w3)"
        "published_during ch exchange (fst (go e st runCtx)) 0
            [(''DummyEvent1'', b1), (''DummyEvent2'', b2), (''DummyEvent3'', b3)] w4 (res, w5)"
        "amqp_connected P io C fv receive go runCtx exchange queue ch (Some a) w3
            = (case res of Inl q \<Rightarrow> (Ret (Inl q), w5) | Inr (Some e) \<Rightarrow> (Panic (PErr e), w5)
                | Inr None \<Rightarrow> await_shutdown io (snd (go e st runCtx)) w5)"
        "\<forall>c v. fst (Start e c v) = receive sub c h v" "as_channel sub = a" "as_queue sub = queue" "autoAck (as_options sub)"
        "h st = foldr (\<lambda>m inner. m inner) (metered P io fv subscriberLabelsProducer ''handler'' counter timer) (HandlerFunc st router)"
        by blast
      have "main = (case res of Inl q \<Rightarrow> (Panic q, w5) | Inr (Some e) \<Rightarrow> (Panic (PErr e), close w5)
          | Inr None \<Rightarrow> (case snd (go e st runCtx) (snd (print_line io ''AMQP example running. Press Ctrl+C to stop...'' w5)) of
              (Panic q, w6) \<Rightarrow> (Panic q, w6) | (Ret (Some e), w6) \<Rightarrow> (Panic (PErr e), close w6)
            | (Ret None, w6) \<Rightarrow> (Ret (), close (snd (print_line io ''Shutdown complete'' w6)))))"
        unfolding body [unfolded Some] main_defers_def o(3) by (simp add: await_shutdown_form split: sum.split option.split prod.split res.split)
      then show ?thesis unfolding Some option.case conjunct1 [OF True] conjunct2 [OF True]
        by - (rule exI [of _ e], rule exI [of _ sub], rule exI [of _ h], rule exI [of _ w4], rule exI [of _ res], rule exI [of _ w5],
          rule exI [of _ counter], rule exI [of _ timer], intro conjI o(1,2,4-8))
    qed
  qed
qed

lemma log_published:
  "published_during log_channel x (\<lambda>k w. (Ret (), w)) k evs w (res, v) \<Longrightarrow>
     res = Inr None \<and> length (broker (prog_client (env v))) = length (broker (prog_client (env w))) + length evs"
proof (induction evs arbitrary: k w)
  case (Cons ev evs)
  have pub: "chan_Publish log_channel x n False False p b = (None, b @ [x @ n @ pub_Body p])" for n p b
    by (simp add: log_channel_def)
  obtain n body where ev: "ev = (n, body)" by fastforce
  with Cons.prems obtain u hdr where u:
    "broker (prog_client (env w)) @ [x @ n @ pub_Body (event_publishing body (Some hdr))] = broker (prog_client (env u))"
    "published_during log_channel x (\<lambda>k w. (Ret (), w)) (Suc k) evs u (res, v)"
    by (auto simp: pub)
  have "length (broker (prog_client (env u))) = Suc (length (broker (prog_client (env w))))"
    unfolding u(1) [symmetric] by simp
  with Cons.IH [OF u(2)] show ?case by simp
qed simp

type_synonym demo_main_program = "(string list, string set \<times> string list) amqp_program"

definition demo_main_env :: demo_main_program where
  "demo_main_env = \<lparr>prog_cache = mp_zero, prog_client = \<lparr>ch_closed = False, broker = []\<rparr>, prog_out = ({}, [])\<rparr>"

definition demo_close :: "demo_main_program world \<Rightarrow> demo_main_program world" where
  "demo_close w = w\<lparr>env := (env w)\<lparr>prog_client := (prog_client (env w))\<lparr>ch_closed := True\<rparr>\<rparr>\<rparr>"

theorem amqp_main_run_witness:
  "\<exists>w'. amqp_main demo_registry demo_screen struct_codec (\<lambda>v. []) (\<lambda>e. []) (\<lambda>w. (Ret None, w)) demo_close (\<lambda>x q w. (Ret None, w))
       (\<lambda>w. (Ret (log_channel, Some idle_acks), w)) (\<lambda>s c h w. (Ret None, w)) (\<lambda>e st c. (\<lambda>k w. (Ret (), w), \<lambda>w. (Ret None, w)))
       ''u'' Background (start_world demo_main_env) = (Ret (), w')
     \<and> length (broker (prog_client (env w'))) = 3 \<and> ch_closed (prog_client (env w'))"
proof -
  let ?w = "start_world demo_main_env" and ?go = "\<lambda>e st c. (\<lambda>k w. (Ret (), w), \<lambda>w. (Ret None, w))"
  have free: "fst (prog_out (env ?w)) \<inter> (outgoing_names \<union> incoming_names) = {}"
    by (simp add: start_world_def demo_main_env_def)
  have codec: "\<forall>x :: demo_main_program world. json_Marshal struct_codec (VStruct ''DummyEvent1'' [VString ''value1'']) x = (Ret (Inr ''value1''), x)"
    "\<forall>x :: demo_main_program world. json_Marshal struct_codec (VStruct ''DummyEvent2'' [VString ''value2'']) x = (Ret (Inr ''value2''), x)"
    "\<forall>x :: demo_main_program world. json_Marshal struct_codec (VStruct ''DummyEvent3'' [VString ''value3'']) x = (Ret (Inr ''value3''), x)"
    by (simp_all add: struct_codec_def)
  obtain router :: "demo_main_program router" and st where router:
    "amqp_router struct_codec demo_screen (\<lambda>v. []) \<lparr>route_maps = [], builders = []\<rparr> = (Ret router, st)"
    by (simp add: amqp_router_def event_router_def NewRouter_def Let_def AddDefaultHandler_def)
  have zero: "prog_cache (env ?w) = mp_zero" by (simp add: start_world_def demo_main_env_def)
  have calm: "\<forall>(e :: demo_main_program subscription_engine) k v. prog_cache (env (snd (fst (?go e st Background) k v)))
      = prog_cache (env (v :: demo_main_program world))" by simp
  note main = amqp_main_run [where dial = "\<lambda>w. (Ret None, w)" and set_up = "\<lambda>x q w. (Ret None, w)" and go = ?go and close = demo_close
      and open_channel = "\<lambda>w. (Ret (log_channel, Some idle_acks), w)" and receive = "\<lambda>s c h w. (Ret None, w)"
      and err_text = "\<lambda>e. []" and randomID = "''u''" and runCtx = Background,
      OF demo_registry_laws(2) free demo_registry_laws(1) codec refl refl refl refl refl zero router calm refl, unfolded option.case]
  then obtain w4 w5 :: "demo_main_program world" and res where sent:
    "prog_client (env w4) = prog_client (env ?w)"
    "published_during log_channel (''demo-exchange-'' @ ''u'') (\<lambda>k w. (Ret (), w)) 0
       [(''DummyEvent1'', ''value1''), (''DummyEvent2'', ''value2''), (''DummyEvent3'', ''value3'')] w4 (res, w5)"
    and run: "amqp_main demo_registry demo_screen struct_codec (\<lambda>v. []) (\<lambda>e. []) (\<lambda>w. (Ret None, w)) demo_close (\<lambda>x q w. (Ret None, w))
       (\<lambda>w. (Ret (log_channel, Some idle_acks), w)) (\<lambda>s c h w. (Ret None, w)) ?go ''u'' Background ?w
       = (case res of Inl q \<Rightarrow> (Panic q, w5) | Inr (Some e) \<Rightarrow> (Panic (PErr e), demo_close w5)
          | Inr None \<Rightarrow> (Ret (), demo_close (snd (print_line demo_screen ''Shutdown complete''
              (snd (print_line demo_screen ''AMQP example running. Press Ctrl+C to stop...'' w5))))))"
    unfolding fst_conv snd_conv prod.case res.case option.case by blast
  from log_published [OF sent(2)] sent(1) have "res = Inr None" "length (broker (prog_client (env w5))) = 3"
    by (simp_all add: start_world_def demo_main_env_def)
  with run show ?thesis by (simp add: demo_close_def print_line_def on_out_def)
qed

end
