(* ===== verification/Example_Redis.thy ===== *)
theory Example_Redis
  imports Examples Redis_Subscriber
begin

text \<open>
  \<open>examples/redis/redis.go\<close>: the engines, the router and \<open>main\<close> of the program, and an event's way
  through a stream. The marshaller of the publisher runs in the world of the Redis client and the
  middlewares in that of the program, so \<open>encoding/json\<close> is given twice. \<open>receive\<close> is the
  subscriber's \<open>Receive\<close>, \<open>txt\<close> the text of the error about the processing timeout.
\<close>

type_synonym ('b, 'u) redis_program = "('b stream, 'b, 'u) program"

section \<open>The engines and the router\<close>

definition redis_createPublisher ::
  "'u prom \<Rightarrow> 'u terminal \<Rightarrow> 'b json_codec \<Rightarrow> (gval \<Rightarrow> string) \<Rightarrow> 'b redis_client option \<Rightarrow> string
     \<Rightarrow> (('b, 'u) redis_program, gerr + ('b, 'u) redis_program publishing_engine) act"
where
  "redis_createPublisher P io C fv client stream w =
     (case NewRedisPublisher client (Some (ConstantDestination stream)) (Some (MarshallPayloadToJsonMap C ''json''))
             [WithMetadataMarshaller (Some (MetadataWithPrefix ''metadata_''))] of
        Inl err \<Rightarrow> (Ret (Inl err), w)
      | Inr pub \<Rightarrow>
          andThen (metered_publisher P io fv (publisher_handler (Redis_Publish pub)) [AddStructNameToMetadata])
            (\<lambda>pubEngine w. (Ret (Inr pubEngine), w)) w)"

definition event_redis_options :: "'e redis_subscriber_option list" where
  "event_redis_options =
     [WithStartID StartFromBeginning,
      WithMetadataExtractor (Some (PrefixMetadataExtractor ''metadata_'')),
      WithPayloadExtractor (Some (NonPrefixPayloadExtractor ''metadata_''))]"

definition redis_createSubscriber ::
  "'u prom \<Rightarrow> 'u terminal \<Rightarrow> (gval \<Rightarrow> string) \<Rightarrow> (64 word \<Rightarrow> 64 word \<Rightarrow> string)
     \<Rightarrow> (('b, 'u) redis_program redis_subscriber \<Rightarrow> ctx \<Rightarrow> (('b, 'u) redis_program rstore \<Rightarrow> ('b, 'u) redis_program handler)
           \<Rightarrow> (('b, 'u) redis_program, gerr option) act)
     \<Rightarrow> ('b, 'u) redis_program redis_reader option \<Rightarrow> string \<Rightarrow> ('b, 'u) redis_program router
     \<Rightarrow> (('b, 'u) redis_program, gerr + ('b, 'u) redis_program subscription_engine) act"
where
  "redis_createSubscriber P io fv txt receive client stream router w =
     (case NewRedisSubscriber txt client stream event_redis_options of
        Inl err \<Rightarrow> (Ret (Inl err), w)
      | Inr redisSub \<Rightarrow>
          andThen (metered_subscriber P io fv (receive redisSub) router [])
            (\<lambda>subEngine w. (Ret (Inr subEngine), w)) w)"

definition redis_routes :: "('p, 'c, 'u) program json_codec \<Rightarrow> 'u terminal \<Rightarrow> ('p, 'c, 'u) program event_route list" where
  "redis_routes C io =
     [(''DummyEvent1'', [UnmarshallMapPayloadFromJson C ''json'' (TStruct ''DummyEvent1'')],
         HandleWithPayload (TStruct ''DummyEvent1'') (sleeping_handler1 io))]"

definition redis_router ::
  "('p, 'c, 'u) program json_codec \<Rightarrow> 'u terminal \<Rightarrow> (gval \<Rightarrow> string) \<Rightarrow> ('p, 'c, 'u) program rstore
     \<Rightarrow> ('p, 'c, 'u) program router res \<times> ('p, 'c, 'u) program rstore"
where
  "redis_router C io fv = event_router fv (redis_routes C io) (sleeping_default_handler io)"

section \<open>\<open>main\<close>\<close>

text \<open>
  From the stream's name and the connected clients on; \<open>runCtx\<close> is the context that an interrupt ends.
  The error of \<open>createSubscriber\<close> is not looked at, so it ends in a nil dereference in \<open>Start\<close>.
\<close>

definition redis_main ::
  "'u prom \<Rightarrow> 'u terminal \<Rightarrow> 'b json_codec \<Rightarrow> ('b, 'u) redis_program json_codec \<Rightarrow> (gval \<Rightarrow> string)
     \<Rightarrow> (64 word \<Rightarrow> 64 word \<Rightarrow> string)
     \<Rightarrow> (('b, 'u) redis_program redis_subscriber \<Rightarrow> ctx \<Rightarrow> ('b, 'u) redis_program handler
           \<Rightarrow> (('b, 'u) redis_program, gerr option) act)
     \<Rightarrow> 'b redis_client \<Rightarrow> ('b, 'u) redis_program redis_reader \<Rightarrow> string \<Rightarrow> ctx
     \<Rightarrow> (('b, 'u) redis_program, unit) act"
where
  "redis_main P io Cp C fv txt Receive client reader stream runCtx =
     andThen (redis_createPublisher P io Cp fv (Some client) stream) (\<lambda>r. case r of
       Inl err \<Rightarrow> (\<lambda>w. (Panic (PErr err), w))
     | Inr pubEngine \<Rightarrow>
         andThen (publish_event pubEngine (VStruct ''DummyEvent1'' [VString ''value1''])) (\<lambda>pubEngine.
         andThen (publish_event pubEngine (VStruct ''DummyEvent2'' [VString ''values2''])) (\<lambda>_.
           case redis_router C io fv \<lparr>route_maps = [], builders = []\<rparr> of
             (Panic q, st) \<Rightarrow> (\<lambda>w. (Panic q, w))
           | (Ret router, st) \<Rightarrow>
               andThen (redis_createSubscriber P io fv txt (\<lambda>s c h. Receive s c (h st)) (Some reader) stream router) (\<lambda>r. case r of
                 Inl err \<Rightarrow> (\<lambda>w. (Panic nil_deref_panic, w))
               | Inr subEngine \<Rightarrow> run_engine io subEngine runCtx))))"

section \<open>An event on its way out\<close>

text \<open>The values of an entry: \<open>marsh\<close> is what the codec gives for a payload.\<close>

definition json_values :: "(gval \<Rightarrow> gerr + string) \<Rightarrow> gval \<Rightarrow> (string, gval) gomap" where
  "json_values marsh v = (case marsh v of Inl e \<Rightarrow> [] | Inr b \<Rightarrow> [(''json'', VBytes b)])"

definition event_entry ::
  "(gval \<Rightarrow> gerr + string) \<Rightarrow> string \<Rightarrow> string \<Rightarrow> (string, gval) gomap \<Rightarrow> gval \<Rightarrow> xadd_args"
where
  "event_entry marsh stream i meta v =
     \<lparr>x_Stream = stream, x_ID = i, x_MaxLen = 0, x_Approx = False,
      x_Values = range_into (\<lambda>k v. Some (k, v)) (json_values marsh v)
        (range_into (\<lambda>k v. Some (k, v)) (range_into (prefix_entry ''metadata_'') meta []) [])\<rparr>"

lemma event_entry_values:
  assumes "wf_map meta"
  shows "map_of (x_Values (event_entry marsh stream i meta v))
    = map_of (range_into (prefix_entry ''metadata_'') meta []) ++ map_of (json_values marsh v)"
proof -
  have "wf_map (json_values marsh v)" by (simp add: json_values_def split: sum.split)
  then show ?thesis by (simp add: event_entry_def range_into_copy)
qed

abbreviation event_redis_config where
  "event_redis_config client stream marsh \<equiv>
     redis_config client (ConstantDestination stream) (pure_values (\<lambda>w m. json_values marsh (Payload (get_msg w m))))
       \<lparr>idGenerator = None, maxlen = 0, approx = False,
        metadataMarshaller = map_option pure_values (Some (\<lambda>w m. range_into (prefix_entry ''metadata_'') (meta_of w m) []))\<rparr>"

lemma event_redis_publisher:
  assumes "\<forall>v w. json_Marshal C v w = (Ret (marsh v), w)"
  shows "NewRedisPublisher (Some client) (Some (ConstantDestination stream)) (Some (MarshallPayloadToJsonMap C ''json''))
             [WithMetadataMarshaller (Some (MetadataWithPrefix ''metadata_''))] = Inr (event_redis_config client stream marsh)"
proof -
  have "MarshallPayloadToJsonMap C ''json'' = pure_values (\<lambda>w m. json_values marsh (Payload (get_msg w m)))"
    using assms by (simp add: fun_eq_iff MarshallPayloadToJsonMap_def andThen_def pure_values_def json_values_def split: sum.split)
  then show ?thesis
    by (simp add: NewRedisPublisher_def WithMetadataMarshaller_def MetadataWithPrefix_pure)
qed

lemma event_redis_publish:
  assumes "redis.own_cache client s"
    and "XAdd client (Context w m) (event_entry marsh stream (ID (get_msg w m)) (meta_of w m) (Payload (get_msg w m))) (env w) = (err, b)"
  shows "\<exists>s'. redis.own_cache client s' \<and>
    Redis_Publish (event_redis_config client stream marsh) m s w = ((Ret err, w\<lparr>env := b\<rparr>), s')"
proof -
  let ?cfg = "event_redis_config client stream marsh"
  let ?args = "redis_args (Some (\<lambda>w m. range_into (prefix_entry ''metadata_'') (meta_of w m) []))
      (\<lambda>w m. json_values marsh (Payload (get_msg w m))) 0 False w m"
  have route: "RoutingFunc ?cfg m w = (Ret (Inr stream), w)" by (simp add: redis_config_def ConstantDestination_def)
  have "?args\<lparr>x_Stream := stream\<rparr> = event_entry marsh stream (ID (get_msg w m)) (meta_of w m) (Payload (get_msg w m))"
    by (simp add: redis_args_def metadata_values_def event_entry_def)
  then have sent: "Stream_send \<lparr>st_client = client, st_name = stream\<rparr> (Context w m) ?args (env w)
      = ((err, event_entry marsh stream (ID (get_msg w m)) (meta_of w m) (Payload (get_msg w m))), b)"
    using assms(2) by (simp add: Stream_send_def)
  have keep: "upd_msg m (\<lambda>x. x\<lparr>ID := ID (get_msg w m)\<rparr>) (w\<lparr>env := b\<rparr>) = w\<lparr>env := b\<rparr>"
  proof -
    have "(get_msg w m)\<lparr>ID := ID (get_msg w m)\<rparr> = get_msg w m" by simp
    then show ?thesis by (simp add: upd_msg_def get_msg_def)
  qed
  show ?thesis
    using redis.publish_outcome [OF assms(1) route] sent keep
    by (cases err) (auto simp: Redis_Publish_def stream_impl_def Stream_GetMessageID_def event_entry_def)
qed

lemma redis_created_publisher:
  assumes "redis_createPublisher P io C fv (Some client) stream v = (Ret (Inr eng), v')"
    and "\<forall>v w. json_Marshal C v w = (Ret (marsh v), w)"
  shows "metered_publisher P io fv (publisher_handler (Redis_Publish (event_redis_config client stream marsh)))
    [AddStructNameToMetadata] v = (Ret eng, v')"
  using assms(1)
  by (auto simp: redis_createPublisher_def event_redis_publisher [OF assms(2)] andThen_def split: prod.splits res.splits)

lemma redis_event_published:
  assumes "redis_createPublisher P io C fv (Some client) stream v = (Ret (Inr eng), v')" "records P inc observe"
    and "\<forall>v w. json_Marshal C v w = (Ret (marsh v), w)"
    and "Metadata (get_msg w m) = Some a" "a < length (heap_maps w)" "dyn_type (Payload (get_msg w m)) = Some T"
    and "redis.own_cache client (prog_cache (env w))"
    and "XAdd client (Context w m) (event_entry marsh stream (ID (get_msg w m))
           (AList.update ''event_type'' (VString (type_name T)) (read_map w (Some a))) (Payload (get_msg w m)))
           (prog_client (env w)) = (err, b)"
    and "PublishingEngine_Publish eng m w = ((r, w'), eng')"
  shows "r = Ret err \<and> prog_client (env w') = b \<and> get_msg w' m = get_msg w m
    \<and> read_map w' (Some a) = AList.update ''event_type'' (VString (type_name T)) (read_map w (Some a))
    \<and> redis.own_cache client (prog_cache (env w')) \<and> heap_msgs w' = heap_msgs w \<and> heap_maps w' = heap_maps (event_named (type_name T) a w)
    \<and> (\<exists>counter timer. prog_out (env w') =
         publisher_out inc observe io counter timer 0 (ID (get_msg w m)) (meta_of w' m) err (prog_out (env w)))"
proof -
  let ?pub = "publisher_handler (Redis_Publish (event_redis_config client stream marsh))"
  let ?w1 = "event_named (type_name T) a w" and ?c = "prog_client (env w)"
  have same: "Context (with_env ?c ?w1) m = Context w m" by (simp add: Context_def)
  obtain s' where s': "redis.own_cache client s'"
    "Redis_Publish (event_redis_config client stream marsh) m (prog_cache (env w)) (with_env ?c ?w1)
       = ((Ret err, (with_env ?c ?w1)\<lparr>env := b\<rparr>), s')"
    using event_redis_publish [OF assms(7), of "with_env ?c ?w1" m marsh stream err b]
    by (auto simp: same assms(4,5,8))
  let ?w2 = "with_env ((env w)\<lparr>prog_cache := s', prog_client := b\<rparr>) ?w1"
  have "?pub m ?w1 = (Ret err, ?w2)"
    using publisher_handler_run [of "Redis_Publish (event_redis_config client stream marsh)" m ?w1, unfolded event_named_facts, OF s'(2)]
    by simp
  then have inner: "foldr (\<lambda>m inner. m inner) [AddStructNameToMetadata] ?pub m w = (Ret err, ?w2)"
    by (simp add: AddStructNameToMetadata_named [OF assms(4,6)])
  obtain counter timer where r: "r = Ret err" and w': "w' = ?w2\<lparr>env := (env ?w2)\<lparr>prog_out :=
      publisher_out inc observe io counter timer (clock ?w2 - clock w) (ID (get_msg ?w2 m)) (meta_of ?w2 m) err (prog_out (env ?w2))\<rparr>\<rparr>"
    using metered_published [OF redis_created_publisher [OF assms(1,3)] assms(2) inner assms(9)] by auto
  have "meta_of w' m = meta_of ?w2 m" by (simp add: w' assms(4) read_map_env)
  with w' have "prog_out (env w') = publisher_out inc observe io counter timer 0 (ID (get_msg w m)) (meta_of w' m) err (prog_out (env w))"
    by simp
  then show ?thesis
    using r assms(5) by (intro conjI exI) (simp_all add: w' read_map_env s'(1) assms(4))
qed

section \<open>An event on its way in\<close>

lemma redis_delivery_extracted:
  assumes "metadataExtractor (rs_options s) = Some (PrefixMetadataExtractor p)"
    and "payloadExtractor (rs_options s) = Some (NonPrefixPayloadExtractor p)"
    and "redis_delivery s c msg w = (Ret del, w1)" "xm_Values msg = Some a" "a < length (heap_maps w)"
  shows "del = redis_delivery_of s (redis_wrapper s msg) (length (heap_msgs w))"
    and "valid_msg w1 (dl_Message del)"
    and "get_msg w1 (dl_Message del) = \<lparr>ID = xm_ID msg, Metadata = Some (length (heap_maps w)),
        Payload = VMap (Suc (length (heap_maps w))), msg_ctx = c\<rparr>"
    and "heap_maps w1 = heap_maps w @ [range_into (strip_entry p string_only) (read_map w (Some a)) [],
        range_into (filter_entry (\<lambda>k. \<not> HasPrefix k p)) (read_map w (Some a)) [], []]"
    and "env w1 = env w"
  using assms(3-5)
  by (auto simp: redis_delivery_def redis_toMessage_def assms(1,2) PrefixMetadataExtractor_def NonPrefixPayloadExtractor_def
      extract_values_def andThen_def message_defs world_defs redis_wrapper_def map_payload_def Let_def nth_append
      redis_delivery_of_def)

lemma redis_created_subscriber:
  assumes "redis_createSubscriber P io fv txt receive reader stream router v = (Ret (Inr e), v')"
    and "NewRedisSubscriber txt reader stream event_redis_options = Inr sub"
  shows "metered_subscriber P io fv (receive sub) router [] v = (Ret e, v')"
  using assms by (auto simp: redis_createSubscriber_def andThen_def split: prod.splits res.splits)

lemma event_redis_subscriber:
  assumes "NewRedisSubscriber txt reader stream event_redis_options = Inr sub"
  shows "consumerGroup (rs_options sub) = []"
    and "metadataExtractor (rs_options sub) = Some (PrefixMetadataExtractor ''metadata_'')"
    and "payloadExtractor (rs_options sub) = Some (NonPrefixPayloadExtractor ''metadata_'')"
    and "quiet (redis_onAckError (rs_options sub))" "rs_stream sub = stream" "startID (rs_options sub) = ''0''"
  using assms
  by (auto simp: NewRedisSubscriber_def event_redis_options_def Let_def WithStartID_def StartFromBeginning_def
      WithMetadataExtractor_def WithPayloadExtractor_def default_redis_options_def quiet_def split: option.splits)

text \<open>What arrives of an entry: every value as Redis writes it.\<close>

lemma event_entry_arrives:
  assumes "wf_map meta" "wf_map arrived"
    and "map_of arrived = map_option (\<lambda>v. VString (show_val v)) \<circ> map_of (x_Values (event_entry marsh stream i meta v))"
  shows "map_of (range_into (strip_entry ''metadata_'' string_only) arrived []) = map_option (\<lambda>v. VString (show_val v)) \<circ> map_of meta"
    and "map_of (range_into (filter_entry (\<lambda>k. \<not> HasPrefix k ''metadata_'')) arrived [])
      = map_option (\<lambda>v. VString (show_val v)) \<circ> map_of (json_values marsh v)"
proof -
  let ?str = "\<lambda>v. VString (show_val v)" and ?meta = "range_into (prefix_entry ''metadata_'') meta []"
  have json: "\<not> HasPrefix l ''metadata_''" if "map_of (json_values marsh v) l = Some x" for l x
    using that by (auto simp: json_values_def HasPrefix_def split: sum.splits if_splits)
  have none: "map_of ?meta l = None" if "\<not> HasPrefix l ''metadata_''" for l
    using assms(1) that by (rule map_of_prefix_entry_None)
  have arr: "map_of arrived l = (case map_of (json_values marsh v) l of
      None \<Rightarrow> map_option ?str (map_of ?meta l) | Some x \<Rightarrow> Some (?str x))" for l
    by (simp add: assms(3) event_entry_values [OF assms(1)] map_add_def split: option.split)
  show "map_of (range_into (filter_entry (\<lambda>k. \<not> HasPrefix k ''metadata_'')) arrived [])
      = map_option ?str \<circ> map_of (json_values marsh v)"
  proof
    fix k
    show "map_of (range_into (filter_entry (\<lambda>k. \<not> HasPrefix k ''metadata_'')) arrived []) k
      = (map_option ?str \<circ> map_of (json_values marsh v)) k"
      using json [of k] none [of k] assms(2) by (auto simp: map_of_filter_entry arr split: option.splits)
  qed
  show "map_of (range_into (strip_entry ''metadata_'' string_only) arrived []) = map_option ?str \<circ> map_of meta"
  proof
    fix k
    have "map_of (json_values marsh v) (''metadata_'' @ k) = None"
      using json [of "''metadata_'' @ k"] by (cases "map_of (json_values marsh v) (''metadata_'' @ k)") (auto simp del: append_Cons)
    then show "map_of (range_into (strip_entry ''metadata_'' string_only) arrived []) k = (map_option ?str \<circ> map_of meta) k"
      using assms(1,2) by (simp add: map_of_strip_entry arr map_of_prefix_entry del: append_Cons)
        (cases "map_of meta k"; simp)
  qed
qed

text \<open>What the router does with a message that carries the event \<open>v\<close> of the type \<open>n\<close>.\<close>

definition redis_event_run ::
  "'u terminal \<Rightarrow> (gval \<Rightarrow> gerr + string) \<Rightarrow> string \<Rightarrow> addr \<Rightarrow> gval \<Rightarrow> (('p, 'c, 'u) program, gerr option) act"
where
  "redis_event_run io marsh n msg v w =
     (if n = ''DummyEvent1''
      then case marsh v of
          Inl _ \<Rightarrow> (Ret (Some (ErrNew ''payload key json not found in message'')), w)
        | Inr _ \<Rightarrow> sleeping_handler1 io msg v (set_Payload msg v w)
      else sleeping_default_handler io msg w)"

lemma redis_event_run_result:
  "\<exists>w'. redis_event_run io marsh n msg v w =
     (Ret (if n = ''DummyEvent1'' \<and> isl (marsh v) then Some (ErrNew ''payload key json not found in message'') else None), w')"
proof -
  obtain w1 w2 where "sleeping_handler1 io msg v (set_Payload msg v w) = (Ret None, w1)" "sleeping_default_handler io msg w = (Ret None, w2)"
    unfolding sleeping_handler1_def sleeping_default_handler_def by (metis sleepy_returns)
  then show ?thesis by (cases "marsh v") (auto simp: redis_event_run_def)
qed

lemma redis_router_serves:
  assumes "redis_router C io fv \<lparr>route_maps = [], builders = []\<rparr> = (Ret d, st)"
    and "map_of (meta_of w msg) ''event_type'' = Some (VString n)" "Payload (get_msg w msg) = VMap q" "valid_msg w msg"
    and "map_of (read_map w (Some q)) = map_option (\<lambda>v. VString (show_val v)) \<circ> map_of (json_values marsh (VStruct n fs))"
    and "\<forall>s. show_val (VBytes s) = s"
    and "\<forall>s x. marsh (VStruct n fs) = Inr s \<longrightarrow> json_Unmarshal C (TStruct n) s x = (Ret (Inr (VStruct n fs)), x)"
  shows "HandlerFunc st d msg w = redis_event_run io marsh n msg (VStruct n fs) w"
proof -
  have struct: "type_assert (TStruct n) (VStruct n fs)" by (simp add: type_assert_def)
  have json: "map_of (read_map w (Some q)) ''json'' = (case marsh (VStruct n fs) of Inl e \<Rightarrow> None | Inr b \<Rightarrow> Some (VString b))"
    using assms(6) by (simp add: assms(5) json_values_def split: sum.split)
  have "UnmarshallMapPayloadFromJson C ''json'' (TStruct n) (HandleWithPayload (TStruct n) (sleeping_handler1 io)) msg w
      = (case marsh (VStruct n fs) of
          Inl _ \<Rightarrow> (Ret (Some (ErrNew ''payload key json not found in message'')), w)
        | Inr _ \<Rightarrow> sleeping_handler1 io msg (VStruct n fs) (set_Payload msg (VStruct n fs) w))"
    using assms(4,7) by (auto simp: UnmarshallMapPayloadFromJson_def assms(3) json fail_with_def andThen_def
        HandleWithPayload_def struct Let_def split: sum.split)
  then show ?thesis
    unfolding event_router_serves [OF assms(1) [unfolded redis_router_def] assms(2)]
    by (auto simp: redis_routes_def redis_event_run_def)
qed

text \<open>Handling a delivery that carries a published event; there is no consumer group, so nothing is acked.\<close>

lemma redis_event_handled:
  fixes del :: "('b, 'u) redis_program delivery"
  assumes "redis_router C io fv \<lparr>route_maps = [], builders = []\<rparr> = (Ret router, st)"
    and sub: "NewRedisSubscriber txt reader stream event_redis_options = Inr sub"
    and "redis_createSubscriber P io fv txt receive reader stream router v = (Ret (Inr e), v')"
    and recs: "records P inc observe"
    and show_val: "\<forall>s. show_val (VBytes s) = s \<and> show_val (VString s) = s"
    and decode: "\<forall>s x. marsh (VStruct n fs) = Inr s \<longrightarrow> json_Unmarshal C (TStruct n) s x = (Ret (Inr (VStruct n fs)), x)"
    and meta: "wf_map meta" "map_of meta ''event_type'' = Some (VString n)"
    and arrived: "xm_Values msg = Some a" "a < length (heap_maps w)" "wf_map (read_map w (Some a))"
      "map_of (read_map w (Some a)) = map_option (\<lambda>v. VString (show_val v)) \<circ>
         map_of (x_Values (event_entry marsh stream i meta (VStruct n fs)))"
    and "redis_delivery sub c msg w = (Ret del, w1)"
    and "Start e c w0 = (out, e1)"
  shows "\<exists>h w2 w3 w4 q counter timer. out = receive sub c h w0 \<and> se_handlerFn e1 = Some h
    \<and> env w2 = env w \<and> ID (get_msg w2 (dl_Message del)) = xm_ID msg
    \<and> map_of (meta_of w2 (dl_Message del)) = map_option (\<lambda>v. VString (show_val v)) \<circ> map_of meta
    \<and> Payload (get_msg w2 (dl_Message del)) = VMap q
    \<and> map_of (read_map w2 (Some q)) = map_option (\<lambda>v. VString (show_val v)) \<circ> map_of (json_values marsh (VStruct n fs))
    \<and> redis_event_run io marsh n (dl_Message del) (VStruct n fs) w2
        = (Ret (if n = ''DummyEvent1'' \<and> isl (marsh (VStruct n fs))
                then Some (ErrNew ''payload key json not found in message'') else None), w3)
    \<and> Handle (redis_dispatcher sub (h st)) del w1 = (Ret (), w4)
    \<and> env w4 = (env w3)\<lparr>prog_out := subscriber_out inc observe io counter timer (clock w3 - clock w2)
         (ID (get_msg w3 (dl_Message del))) (meta_of w3 (dl_Message del))
         (if n = ''DummyEvent1'' \<and> isl (marsh (VStruct n fs))
          then Some (ErrNew ''payload key json not found in message'') else None) (prog_out (env w3))\<rparr>"
    (is "\<exists>h w2 w3 w4 q counter timer. _ \<and> _ \<and> _ \<and> _ \<and> _ \<and> _ \<and> _ \<and> _ = (Ret ?r, w3) \<and> _")
proof -
  let ?m = "dl_Message del" and ?str = "\<lambda>v. VString (show_val v)" and ?v = "VStruct n fs"
  obtain h counter timer where labels: "label_names counter = [''subscriber'', ''error'']" "label_names timer = [''subscriber'', ''error'']"
    and h: "h = (\<lambda>st. foldr (\<lambda>m inner. m inner) [] (foldr (\<lambda>m inner. m inner)
            (metered P io fv subscriberLabelsProducer ''handler'' counter timer) (HandlerFunc st router)))"
    and start: "out = receive sub c h w0" "se_handlerFn e1 = Some h"
    using metered_started [OF redis_created_subscriber [OF assms(3) sub] assms(14)] by blast
  note opts = event_redis_subscriber [OF sub]
  note facts = redis_delivery_extracted [OF opts(2,3) assms(13) arrived(1,2)]
  note arrives = event_entry_arrives [OF meta(1) arrived(3,4)]
  obtain ackCtx fin w2 where prep: "handle_prepare (redis_dispatcher sub (h st)) del w1 = ((ackCtx, fin), w2)"
    by (metis prod.exhaust)
  note same = handle_prepare_same [OF prep facts(2)] and frame = handle_prepare_frame [OF prep]
  have w2: "env w2 = env w" "valid_msg w2 ?m" using frame facts by simp_all
  let ?q = "Suc (length (heap_maps w))"
  have msg: "ID (get_msg w2 ?m) = xm_ID msg" "Payload (get_msg w2 ?m) = VMap ?q"
    using same facts(3) by simp_all
  have reads: "map_of (meta_of w2 ?m) = map_option ?str \<circ> map_of meta"
    "map_of (read_map w2 (Some ?q)) = map_option ?str \<circ> map_of (json_values marsh ?v)"
    using arrives same(2) facts(3,4) frame(3) by (simp_all add: read_map_def nth_append)
  then have key: "map_of (meta_of w2 ?m) ''event_type'' = Some (VString n)" using meta(2) show_val by simp
  have "\<forall>s. show_val (VBytes s) = s" using show_val by blast
  note routed = redis_router_serves [OF assms(1) key msg(2) w2(2) reads(2) this decode]
  obtain w3 where w3: "redis_event_run io marsh n ?m ?v w2 = (Ret ?r, w3)"
    using redis_event_run_result [of io marsh n ?m ?v w2] by blast
  have contract: "delivery_contract del (\<lambda>c v. snd (redis_ack sub (redis_wrapper sub msg) c v)) (\<lambda>c v. v)"
    unfolding facts(1) by (rule redis_entry.delivery_contract_axioms)
  have calm: "quiet (OnAckError (d_opts (redis_dispatcher sub (h st))))" "quiet (OnNackError (d_opts (redis_dispatcher sub (h st))))"
    "d_handler (redis_dispatcher sub (h st)) = h st"
    using opts(4) by (simp_all add: redis_dispatcher_def NewDispatcher_def quiet_def)
  have hd: "d_handler (redis_dispatcher sub (h st)) ?m w2 = foldr (\<lambda>m inner. m inner)
      (metered P io fv subscriberLabelsProducer ''handler'' counter timer) (HandlerFunc st router) ?m w2"
    unfolding calm(3) by (simp add: h)
  have "\<exists>w4. Handle (redis_dispatcher sub (h st)) del w1 = (Ret (), w4)
      \<and> env w4 = (env w3)\<lparr>prog_out := subscriber_out inc observe io counter timer (clock w3 - clock w2)
         (ID (get_msg w3 ?m)) (meta_of w3 ?m) r (prog_out (env w3))\<rparr>"
    if "HandlerFunc st router ?m w2 = (Ret r, w3)" for r
    using metered_delivery [OF contract calm(1,2) labels hd recs prep that]
    by (cases r) (simp_all add: Let_def redis_ack_def redis_wrapper_def opts(1))
  from this [of ?r, unfolded routed, OF w3] obtain w4 where w4: "Handle (redis_dispatcher sub (h st)) del w1 = (Ret (), w4)"
      "env w4 = (env w3)\<lparr>prog_out := subscriber_out inc observe io counter timer (clock w3 - clock w2)
         (ID (get_msg w3 ?m)) (meta_of w3 ?m) ?r (prog_out (env w3))\<rparr>" by blast
  show ?thesis
    by (rule exI [of _ h], rule exI [of _ w2], rule exI [of _ w3], rule exI [of _ w4], rule exI [of _ ?q],
        rule exI [of _ counter], rule exI [of _ timer])
      (intro conjI start w2(1) msg reads w3 w4)
qed

section \<open>Properties\<close>

text \<open>C22: An event published through the Redis program's engine is added to the stream in one XADD that
  names its type, and the publish reports nil and counts a success whenever the XADD succeeds. A
  subscriber of the program that is handed this entry decodes it and runs the handler of its type on
  the event itself (the default handler, for a type without a route, with the metadata and the
  encoded payload), and the delivery is counted once as a success. An event that does not encode is
  published all the same, without a payload, and the publish is counted as a success; its handler
  never runs, and the loss shows only where it is received, as an error about the missing key. No
  entry is acked, because the program's subscriber has no consumer group.\<close>

theorem redis_event_round_trip:
  fixes del :: "('b, 'u) redis_program delivery"
  assumes "redis_createPublisher P io Cp fv (Some client) stream v = (Ret (Inr eng), v')"
    and "redis_router C io fv \<lparr>route_maps = [], builders = []\<rparr> = (Ret router, st)"
    and "NewRedisSubscriber txt reader stream event_redis_options = Inr sub"
    and "redis_createSubscriber P io fv txt receive reader stream router x = (Ret (Inr e), x')"
    and "records P inc observe"
    and "Metadata (get_msg w m) = Some a" "a < length (heap_maps w)" "wf_map (read_map w (Some a))"
    and "Payload (get_msg w m) = VStruct n fs"
    and "\<forall>v w. json_Marshal Cp v w = (Ret (marsh v), w)"
    and "\<forall>s x. marsh (VStruct n fs) = Inr s \<longrightarrow> json_Unmarshal C (TStruct n) s x = (Ret (Inr (VStruct n fs)), x)"
    and "\<forall>s. show_val (VBytes s) = s \<and> show_val (VString s) = s"
    and "redis.own_cache client (prog_cache (env w))"
    and "entry = event_entry marsh stream (ID (get_msg w m))
           (AList.update ''event_type'' (VString n) (read_map w (Some a))) (VStruct n fs)"
    and "XAdd client (Context w m) entry (prog_client (env w)) = (None, b)"
    and "PublishingEngine_Publish eng m w = ((r, w1), eng')"
    and "xm_Values msg = Some a2" "a2 < length (heap_maps w2)" "wf_map (read_map w2 (Some a2))"
    and "map_of (read_map w2 (Some a2)) = map_option (\<lambda>v. VString (show_val v)) \<circ> map_of (x_Values entry)"
    and "redis_delivery sub c msg w2 = (Ret del, w3)"
    and "Start e c w0 = (out, e1)"
  shows "r = Ret None \<and> prog_client (env w1) = b
    \<and> (\<exists>counter timer. prog_out (env w1) =
         publisher_out inc observe io counter timer 0 (ID (get_msg w m)) (meta_of w1 m) None (prog_out (env w)))
    \<and> (\<exists>h w4 w5 w6 q counter timer. out = receive sub c h w0 \<and> se_handlerFn e1 = Some h
    \<and> env w4 = env w2 \<and> ID (get_msg w4 (dl_Message del)) = xm_ID msg
    \<and> map_of (meta_of w4 (dl_Message del)) = map_option (\<lambda>v. VString (show_val v)) \<circ>
        map_of (AList.update ''event_type'' (VString n) (read_map w (Some a)))
    \<and> Payload (get_msg w4 (dl_Message del)) = VMap q
    \<and> map_of (read_map w4 (Some q)) = map_option (\<lambda>v. VString (show_val v)) \<circ> map_of (json_values marsh (VStruct n fs))
    \<and> redis_event_run io marsh n (dl_Message del) (VStruct n fs) w4
        = (Ret (if n = ''DummyEvent1'' \<and> isl (marsh (VStruct n fs))
                then Some (ErrNew ''payload key json not found in message'') else None), w5)
    \<and> Handle (redis_dispatcher sub (h st)) del w3 = (Ret (), w6)
    \<and> env w6 = (env w5)\<lparr>prog_out := subscriber_out inc observe io counter timer (clock w5 - clock w4)
         (ID (get_msg w5 (dl_Message del))) (meta_of w5 (dl_Message del))
         (if n = ''DummyEvent1'' \<and> isl (marsh (VStruct n fs))
          then Some (ErrNew ''payload key json not found in message'') else None) (prog_out (env w5))\<rparr>)"
proof -
  have T: "dyn_type (Payload (get_msg w m)) = Some (TStruct n)" "type_name (TStruct n) = n"
    using assms(9) by simp_all
  have add: "XAdd client (Context w m) (event_entry marsh stream (ID (get_msg w m))
           (AList.update ''event_type'' (VString (type_name (TStruct n))) (read_map w (Some a))) (Payload (get_msg w m)))
           (prog_client (env w)) = (None, b)"
    using assms(15) unfolding T(2) assms(9,14) .
  note sent = redis_event_published [OF assms(1,5,10,6,7) T(1) assms(13) add assms(16)]
  have meta: "wf_map (AList.update ''event_type'' (VString n) (read_map w (Some a)))"
    "map_of (AList.update ''event_type'' (VString n) (read_map w (Some a))) ''event_type'' = Some (VString n)"
    using assms(8) by (simp_all add: go_maps)
  note got = redis_event_handled [OF assms(2-5,12,11) meta assms(17-19) assms(20) [unfolded assms(14)] assms(21,22)]
  from sent got show ?thesis by (intro conjI) (elim conjE, assumption)+
qed

text \<open>A stream that logs its commands, a reader and the text of a value, for the witnesses.\<close>

definition idle_reader :: "'e redis_reader" where
  "idle_reader =
     \<lparr>XGroupCreateMkStream = (\<lambda>c s g i e. (None, e)), XGroupCreate = (\<lambda>c s g i e. (None, e)),
      XAutoClaim = (\<lambda>c a e. (([], ''0-0'', None), e)), XReadGroup = (\<lambda>c a e. (Inl redis_Nil, e)),
      XRead = (\<lambda>c a e. (Inl redis_Nil, e)), XInfoStream_LastGeneratedID = (\<lambda>c s e. (Inr ''0-0'', e)),
      XAck = (\<lambda>c s g i e. (None, e)), err_Error = (\<lambda>e. [])\<rparr>"

definition plain_text :: "gval \<Rightarrow> string" where
  "plain_text v = (case v of VString s \<Rightarrow> s | VBytes s \<Rightarrow> s | _ \<Rightarrow> [])"

type_synonym demo_redis_program = "(xadd_args list, string list) redis_program"

definition demo_redis_env :: demo_redis_program where
  "demo_redis_env = \<lparr>prog_cache = mp_zero, prog_client = [], prog_out = []\<rparr>"

lemma demo_redis_publisher:
  "\<exists>eng. redis_createPublisher demo_prom demo_terminal struct_codec (\<lambda>v. []) (Some client) ''s'' w = (Ret (Inr eng), w)"
  by (simp add: redis_createPublisher_def NewRedisPublisher_def metered_publisher_def andThen_def CreatePromOutgoingCount_def
      CreatePromOutgoingDuration_def register_collector_def on_out_def demo_prom_def)

lemma demo_redis_subscriber:
  assumes "NewRedisSubscriber txt (Some reader) ''s'' event_redis_options = Inr sub"
  shows "\<exists>e. redis_createSubscriber demo_prom demo_terminal (\<lambda>v. []) txt receive (Some reader) ''s'' router w = (Ret (Inr e), w)"
  by (simp add: redis_createSubscriber_def assms metered_subscriber_def andThen_def CreatePromIncomingCount_def
      CreatePromIncomingDuration_def register_collector_def on_out_def demo_prom_def)

theorem redis_event_round_trip_witness:
  "\<exists>eng router st sub e w1 eng' del w2 w3 out e1 h w6.
      redis_createPublisher demo_prom demo_terminal struct_codec (\<lambda>v. []) (Some log_client) ''s'' (start_world demo_redis_env)
        = (Ret (Inr eng), start_world demo_redis_env)
    \<and> redis_router struct_codec demo_terminal (\<lambda>v. []) \<lparr>route_maps = [], builders = []\<rparr> = (Ret router, st)
    \<and> NewRedisSubscriber (\<lambda>t i. []) (Some idle_reader) ''s'' event_redis_options = Inr sub
    \<and> redis_createSubscriber demo_prom demo_terminal (\<lambda>v. []) (\<lambda>t i. []) (\<lambda>s c h w. (Ret None, w)) (Some idle_reader) ''s'' router w1
        = (Ret (Inr e), w1)
    \<and> PublishingEngine_Publish eng 0 (snd (NewMessage Background demo_event (start_world demo_redis_env))) = ((Ret None, w1), eng')
    \<and> map x_Stream (prog_client (env w1)) = [''s'']
    \<and> redis_delivery sub Background \<lparr>xm_ID = ''1-0'', xm_Values = Some 0\<rparr> w2 = (Ret del, w3)
    \<and> Start e Background w1 = (out, e1) \<and> se_handlerFn e1 = Some h
    \<and> Handle (redis_dispatcher sub (h st)) del w3 = (Ret (), w6)
    \<and> last (prog_out (env w6)) = ''my_subscriber false''"
proof -
  let ?w = "snd (NewMessage Background demo_event (start_world demo_redis_env))"
  let ?marsh = "\<lambda>v. Inr (text_field 0 v) :: gerr + string" and ?v = "VStruct ''DummyEvent1'' [VString ''value1'']"
  obtain eng where pub: "redis_createPublisher demo_prom demo_terminal struct_codec (\<lambda>v. []) (Some log_client) ''s'' (start_world demo_redis_env)
      = (Ret (Inr eng), start_world demo_redis_env)"
    using demo_redis_publisher by blast
  obtain router :: "demo_redis_program router" and st where router:
    "redis_router struct_codec demo_terminal (\<lambda>v. []) \<lparr>route_maps = [], builders = []\<rparr> = (Ret router, st)"
    by (simp add: redis_router_def event_router_def NewRouter_def Let_def AddDefaultHandler_def)
  obtain sub :: "demo_redis_program redis_subscriber"
    where sub: "NewRedisSubscriber (\<lambda>t i. []) (Some idle_reader) ''s'' event_redis_options = Inr sub"
    by (simp add: NewRedisSubscriber_def event_redis_options_def WithStartID_def WithMetadataExtractor_def
        WithPayloadExtractor_def default_redis_options_def Let_def)
  obtain r w1 eng' where run: "PublishingEngine_Publish eng 0 ?w = ((r, w1), eng')" by (metis prod.exhaust)
  obtain e where e: "redis_createSubscriber demo_prom demo_terminal (\<lambda>v. []) (\<lambda>t i. []) (\<lambda>s c h w. (Ret None, w)) (Some idle_reader) ''s'' router w1
      = (Ret (Inr e), w1)"
    using demo_redis_subscriber [OF sub] by blast
  define entry where "entry = event_entry ?marsh ''s'' (ID (get_msg ?w 0))
      (AList.update ''event_type'' (VString ''DummyEvent1'') (read_map ?w (Some 0))) ?v"
  let ?arrived = "map (\<lambda>(k, v). (k, VString (plain_text v))) (x_Values entry)"
  let ?x = "\<lparr>xm_ID = ''1-0'', xm_Values = Some 0\<rparr>" and ?w2 = "w1\<lparr>heap_maps := [?arrived]\<rparr>"
  have w: "Metadata (get_msg ?w 0) = Some 0" "0 < length (heap_maps ?w)" "wf_map (read_map ?w (Some 0))"
    "Payload (get_msg ?w 0) = ?v" "redis.own_cache log_client (prog_cache (env ?w))" "prog_client (env ?w) = []"
    by (simp_all add: message_defs world_defs start_world_def demo_event_def demo_redis_env_def redis.own_cache_zero)
  have codec: "\<forall>v (w :: xadd_args list world). json_Marshal struct_codec v w = (Ret (?marsh v), w)"
    "\<forall>s (x :: demo_redis_program world). ?marsh ?v = Inr s \<longrightarrow> json_Unmarshal struct_codec (TStruct ''DummyEvent1'') s x = (Ret (Inr ?v), x)"
    by (simp_all add: struct_codec_def)
  have shown: "\<forall>s. plain_text (VBytes s) = s \<and> plain_text (VString s) = s" by (simp add: plain_text_def)
  have add: "XAdd log_client (Context ?w 0) entry (prog_client (env ?w)) = (None, [entry])"
    unfolding w(6) by (simp add: log_client_def)
  have "wf_map (x_Values entry)" by (simp add: entry_def event_entry_def)
  then have arrived: "0 < length (heap_maps ?w2)" "wf_map (read_map ?w2 (Some 0))"
    "map_of (read_map ?w2 (Some 0)) = map_option (\<lambda>v. VString (plain_text v)) \<circ> map_of (x_Values entry)"
    using map_of_map [of "\<lambda>v. VString (plain_text v)" "x_Values entry"]
    by (simp_all add: read_map_def wf_map_def comp_def case_prod_unfold)
  have arriving: "xm_Values ?x = Some 0" by simp
  obtain del w3 where del: "redis_delivery sub Background ?x ?w2 = (Ret del, w3)"
    using event_redis_subscriber [OF sub]
    by (simp add: redis_delivery_def redis_toMessage_def PrefixMetadataExtractor_def NonPrefixPayloadExtractor_def
        extract_values_def andThen_def new_map_def Let_def NewMessage_def new_msg_def)
  obtain out e1 where start: "Start e Background w1 = (out, e1)" by fastforce
  note trip = redis_event_round_trip [OF pub router sub e demo_records w(1-4) codec shown w(5) entry_def add run arriving
      arrived del start]
  then have sent: "r = Ret None" "prog_client (env w1) = [entry]" by (blast, blast)
  from trip obtain h w6 and w5 :: "demo_redis_program world" where handled:
    "se_handlerFn e1 = Some h" "Handle (redis_dispatcher sub (h st)) del w3 = (Ret (), w6)"
    "prog_out (env w6) = demo_count (engine_labels ''subscriber'' ''my_subscriber'' None) (prog_out (env w5))"
    unfolding subscriber_out_def metered_out_def by fastforce
  have "last (prog_out (env w6)) = ''my_subscriber false''"
    unfolding handled(3) by (simp add: demo_count_def engine_labels_def FormatBool_def)
  moreover have "map x_Stream (prog_client (env w1)) = [''s'']"
    by (simp add: sent(2) entry_def event_entry_def)
  ultimately show ?thesis using pub router sub e run [unfolded sent(1)] del start handled(1,2)
    by (intro exI conjI)
qed

lemma redis_publish_event:
  assumes "redis_createPublisher P io C fv (Some client) stream v = (Ret (Inr eng), v')" "records P inc observe" "registry P io inc observe names"
    and "\<forall>v w. json_Marshal C v w = (Ret (marsh v), w)"
    and "redis.own_cache client (prog_cache (env w))"
    and "XAdd client Background (event_entry marsh stream [] [(''event_type'', VString n)] (VStruct n fs)) (prog_client (env w)) = (err, b)"
  shows "\<exists>eng' w'. publish_event eng (VStruct n fs) w
      = (case err of None \<Rightarrow> (Ret eng', w') | Some e \<Rightarrow> (Panic (PErr e), w'))
    \<and> PublishingEngine_Publish eng' = PublishingEngine_Publish eng \<and> prog_client (env w') = b
    \<and> redis.own_cache client (prog_cache (env w'))
    \<and> names (prog_out (env w')) = names (prog_out (env w))"
proof -
  obtain m w1 where new: "NewMessage Background (VStruct n fs) w = (m, w1)" by fastforce
  note fresh = new_message_facts [OF new]
  obtain r w' eng' where run: "PublishingEngine_Publish eng m w1 = ((r, w'), eng')" by (metis prod.exhaust)
  have msg: "Metadata (get_msg w1 m) = Some (length (heap_maps w))" "dyn_type (Payload (get_msg w1 m)) = Some (TStruct n)"
    "redis.own_cache client (prog_cache (env w1))"
    using fresh assms(5) by simp_all
  have "XAdd client (Context w1 m) (event_entry marsh stream (ID (get_msg w1 m))
      (AList.update ''event_type'' (VString (type_name (TStruct n))) (read_map w1 (Some (length (heap_maps w))))) (Payload (get_msg w1 m)))
      (prog_client (env w1)) = (err, b)"
    using fresh assms(6) by (simp add: Context_def)
  from redis_event_published [OF assms(1,2,4) msg(1) fresh(5) msg(2,3) this run]
  have "r = Ret err" "prog_client (env w') = b" "redis.own_cache client (prog_cache (env w'))"
    "\<exists>counter timer. prog_out (env w') =
       publisher_out inc observe io counter timer 0 (ID (get_msg w1 m)) (meta_of w' m) err (prog_out (env w1))"
    by blast+
  moreover from this(4) fresh(6) have "names (prog_out (env w')) = names (prog_out (env w))"
    using publisher_out_names [OF assms(3)] by auto
  ultimately show ?thesis using engine_again [OF run] run
    by - (rule exI [of _ eng'], rule exI [of _ w'], cases err; simp add: publish_event_def must_publish_def new)
qed

text \<open>C36: \<open>main\<close> of the Redis program adds two entries to its stream, one for each event, in order, before
  it receives anything: each with the metadata that names the event's type and with the event's
  encoding. If one of the two XADDs fails, it panics with that error, without the other publish or
  the subscriber. Otherwise it runs \<open>Receive\<close> once, from the start of the same stream and without a
  consumer group, with the router's handler behind the metered engine, and ends normally exactly
  when \<open>Receive\<close> returns nil. The registry must not hold the program's metrics yet.\<close>

theorem redis_main_run:
  assumes reg: "registry P io inc observe names" and new: "names (prog_out (env w)) \<inter> (outgoing_names \<union> incoming_names) = {}"
    and "records P inc observe"
    and "\<forall>v w. json_Marshal Cp v w = (Ret (marsh v), w)" "prog_cache (env w) = mp_zero"
    and "entry1 = event_entry marsh stream [] [(''event_type'', VString ''DummyEvent1'')] (VStruct ''DummyEvent1'' [VString ''value1''])"
    and "entry2 = event_entry marsh stream [] [(''event_type'', VString ''DummyEvent2'')] (VStruct ''DummyEvent2'' [VString ''values2''])"
    and "XAdd client Background entry1 (prog_client (env w)) = (err1, b1)" "XAdd client Background entry2 b1 = (err2, b2)"
    and "redis_router C io fv \<lparr>route_maps = [], builders = []\<rparr> = (Ret router, st)"
  shows "\<exists>sub w1 w2 w3 h counter timer.
      redis_main P io Cp C fv txt Receive client reader stream runCtx w =
        (case err1 of
           Some e \<Rightarrow> (Panic (PErr e), w1)
         | None \<Rightarrow> (case err2 of
             Some e \<Rightarrow> (Panic (PErr e), w2)
           | None \<Rightarrow> main_end io (Receive sub runCtx h w3)))
    \<and> prog_client (env w1) = b1 \<and> prog_client (env w2) = b2 \<and> prog_client (env w3) = b2
    \<and> rs_client sub = reader \<and> rs_stream sub = stream \<and> consumerGroup (rs_options sub) = [] \<and> startID (rs_options sub) = ''0''
    \<and> h = foldr (\<lambda>m inner. m inner) (metered P io fv subscriberLabelsProducer ''handler'' counter timer) (HandlerFunc st router)"
proof -
  obtain eng u where "metered_publisher P io fv (publisher_handler (Redis_Publish (event_redis_config client stream marsh)))
      [AddStructNameToMetadata] w = (Ret eng, w\<lparr>env := (env w)\<lparr>prog_out := u\<rparr>\<rparr>)"
    and u: "names u = names (prog_out (env w)) \<union> outgoing_names"
    using metered_publisher_returns [OF reg, of w] new by blast
  then have create: "redis_createPublisher P io Cp fv (Some client) stream w = (Ret (Inr eng), w\<lparr>env := (env w)\<lparr>prog_out := u\<rparr>\<rparr>)"
    by (simp add: redis_createPublisher_def event_redis_publisher [OF assms(4)] andThen_def)
  let ?w0 = "w\<lparr>env := (env w)\<lparr>prog_out := u\<rparr>\<rparr>"
  let ?e1 = "VStruct ''DummyEvent1'' [VString ''value1'']" and ?e2 = "VStruct ''DummyEvent2'' [VString ''values2'']"
  obtain eng1 w1 where p1: "publish_event eng ?e1 ?w0 = (case err1 of None \<Rightarrow> (Ret eng1, w1) | Some e \<Rightarrow> (Panic (PErr e), w1))"
    and w1: "PublishingEngine_Publish eng1 = PublishingEngine_Publish eng" "prog_client (env w1) = b1"
      "redis.own_cache client (prog_cache (env w1))" "names (prog_out (env w1)) = names u"
    using redis_publish_event [OF create assms(3) reg assms(4), of ?w0 "''DummyEvent1''" "[VString ''value1'']" err1 b1] assms(5,6,8) redis.own_cache_zero by auto
  obtain eng2 w2 where p2: "publish_event eng ?e2 w1 = (case err2 of None \<Rightarrow> (Ret eng2, w2) | Some e \<Rightarrow> (Panic (PErr e), w2))"
    and w2: "prog_client (env w2) = b2" "names (prog_out (env w2)) = names u"
    using redis_publish_event [OF create assms(3) reg assms(4), of w1 "''DummyEvent2''" "[VString ''values2'']" err2 b2] w1(2-4) assms(7,9) by auto
  have "publish_event eng1 = publish_event eng" using w1(1) by (rule same_engine)
  with p2 have p2: "publish_event eng1 ?e2 w1 = (case err2 of None \<Rightarrow> (Ret eng2, w2) | Some e \<Rightarrow> (Panic (PErr e), w2))" by simp
  obtain sub where sub: "NewRedisSubscriber txt (Some reader) stream event_redis_options = Inr sub" "rs_client sub = reader"
    by (auto simp: NewRedisSubscriber_def event_redis_options_def WithStartID_def WithMetadataExtractor_def
        WithPayloadExtractor_def default_redis_options_def Let_def)
  note opts = event_redis_subscriber [OF sub(1)]
  let ?R = "\<lambda>s c h. Receive s c (h st)"
  have free: "names (prog_out (env w2)) \<inter> incoming_names = {}" using new names_disjoint unfolding w2(2) u by blast
  obtain e u' where me: "metered_subscriber P io fv (?R sub) router [] w2 = (Ret e, w2\<lparr>env := (env w2)\<lparr>prog_out := u'\<rparr>\<rparr>)"
    using metered_subscriber_returns [OF reg free] by blast
  then have s: "redis_createSubscriber P io fv txt ?R (Some reader) stream router w2 = (Ret (Inr e), w2\<lparr>env := (env w2)\<lparr>prog_out := u'\<rparr>\<rparr>)"
    by (simp add: redis_createSubscriber_def sub(1) andThen_def)
  let ?w3 = "w2\<lparr>env := (env w2)\<lparr>prog_out := u'\<rparr>\<rparr>"
  obtain out en where start: "Start e runCtx ?w3 = (out, en)" by fastforce
  from metered_started [OF me start]
  obtain counter timer where out: "out = Receive sub runCtx (foldr (\<lambda>m inner. m inner)
      (metered P io fv subscriberLabelsProducer ''handler'' counter timer) (HandlerFunc st router)) ?w3"
    by auto
  have engine: "run_engine io e runCtx ?w3 = main_end io out"
    by (simp add: run_engine_end start)
  have main: "redis_main P io Cp C fv txt Receive client reader stream runCtx w =
      (case err1 of
         Some e \<Rightarrow> (Panic (PErr e), w1)
       | None \<Rightarrow> (case err2 of
           Some e \<Rightarrow> (Panic (PErr e), w2)
         | None \<Rightarrow> main_end io out))"
    by (cases err1; cases err2) (simp_all add: redis_main_def andThen_def create p1 p2 assms(10) s engine)
  show ?thesis
    using main w1(2) w2(1) sub(2) opts(1,5,6) unfolding out
    by (intro exI [of _ sub] exI [of _ w1] exI [of _ w2] exI [of _ ?w3] exI [of _ counter] exI [of _ timer] exI conjI)
      (assumption | rule refl | simp)+
qed

type_synonym demo_redis_main = "(xadd_args list, string set \<times> string list) redis_program"

definition demo_redis_main_env :: demo_redis_main where
  "demo_redis_main_env = \<lparr>prog_cache = mp_zero, prog_client = [], prog_out = ({}, [])\<rparr>"

theorem redis_main_run_witness:
  "\<exists>w'. redis_main demo_registry demo_screen struct_codec struct_codec (\<lambda>v. []) (\<lambda>t i. []) (\<lambda>s c h w. (Ret None, w))
       log_client idle_reader ''s'' Background (start_world demo_redis_main_env) = (Ret (), w')
     \<and> map x_Stream (prog_client (env w')) = [''s'', ''s'']"
proof -
  let ?marsh = "\<lambda>v. Inr (text_field 0 v) :: gerr + string"
  define entry1 where "entry1 = event_entry ?marsh ''s'' [] [(''event_type'', VString ''DummyEvent1'')] (VStruct ''DummyEvent1'' [VString ''value1''])"
  define entry2 where "entry2 = event_entry ?marsh ''s'' [] [(''event_type'', VString ''DummyEvent2'')] (VStruct ''DummyEvent2'' [VString ''values2''])"
  obtain router :: "demo_redis_main router" and st where router:
    "redis_router struct_codec demo_screen (\<lambda>v. []) \<lparr>route_maps = [], builders = []\<rparr> = (Ret router, st)"
    by (simp add: redis_router_def event_router_def NewRouter_def Let_def AddDefaultHandler_def)
  have codec: "\<forall>v (w :: xadd_args list world). json_Marshal struct_codec v w = (Ret (?marsh v), w)"
    by (simp add: struct_codec_def)
  have none: "fst (prog_out (env (start_world demo_redis_main_env))) \<inter> (outgoing_names \<union> incoming_names) = {}"
    by (simp add: start_world_def demo_redis_main_env_def)
  have cache: "prog_cache (env (start_world demo_redis_main_env)) = mp_zero"
    by (simp add: start_world_def demo_redis_main_env_def)
  have add: "XAdd log_client Background entry1 (prog_client (env (start_world demo_redis_main_env))) = (None, [entry1])"
    "XAdd log_client Background entry2 [entry1] = (None, [entry1, entry2])"
    by (simp_all add: log_client_def start_world_def demo_redis_main_env_def)
  from redis_main_run [OF demo_registry_laws(2) none demo_registry_laws(1) codec cache entry1_def entry2_def add router, of "\<lambda>t i. []" "\<lambda>s c h w. (Ret None, w)" idle_reader Background]
  obtain w3 where "redis_main demo_registry demo_screen struct_codec struct_codec (\<lambda>v. []) (\<lambda>t i. []) (\<lambda>s c h w. (Ret None, w))
       log_client idle_reader ''s'' Background (start_world demo_redis_main_env) = main_end demo_screen (Ret None, w3)"
    "prog_client (env w3) = [entry1, entry2]"
    unfolding option.case by metis
  then show ?thesis
    by (simp add: main_end_def on_out_def entry1_def entry2_def event_entry_def split: prod.split)
qed

end
