(* ===== verification/Emulator.thy ===== *)
theory Emulator
  imports Google_Subscriber
begin

text \<open>
  \<open>google/emulator/gcp_emulator.go\<close>: the topics and subscriptions that the Google tests and the Google
  example create on an emulator. The calls of the Pub/Sub admin client are a record of functions on
  the environment of the world; every error panics. The goroutine behind \<open>MessageChannel\<close> and
  \<open>MessageDataChannel\<close>, with the callbacks the client runs at the same time, is a step relation.
  The random prefix (\<open>shortuuid.New\<close>) is an argument.
\<close>

section \<open>Clients, topics and subscriptions\<close>

text \<open>
  \<open>em_Publish\<close> stands for \<open>topicPublisher.Publish(ctx, message)\<close> followed by \<open>r.Get(ctx)\<close>; \<open>em_Stop\<close> is
  \<open>Stop\<close> on the publisher of a topic. A topic and a subscription are named by their full paths in
  the admin calls and by their short names elsewhere.
\<close>

record 'e emulator_client =
  em_Project :: string
  CreateTopic :: "ctx \<Rightarrow> string \<Rightarrow> 'e \<Rightarrow> gerr option \<times> 'e"
  DeleteTopic :: "ctx \<Rightarrow> string \<Rightarrow> 'e \<Rightarrow> gerr option \<times> 'e"
  CreateSubscription :: "ctx \<Rightarrow> string \<Rightarrow> string \<Rightarrow> bool \<Rightarrow> 'e \<Rightarrow> gerr option \<times> 'e"
  DeleteSubscription :: "ctx \<Rightarrow> string \<Rightarrow> 'e \<Rightarrow> gerr option \<times> 'e"
  em_Publish :: "string \<Rightarrow> ctx \<Rightarrow> ps_message \<Rightarrow> 'e \<Rightarrow> (gerr + string) \<times> 'e"
  em_Stop :: "string \<Rightarrow> 'e \<Rightarrow> 'e"
  em_Close :: "'e \<Rightarrow> gerr option \<times> 'e"

definition topicPath :: "'e emulator_client \<Rightarrow> string \<Rightarrow> string" where
  "topicPath client topic = ''projects/'' @ em_Project client @ ''/topics/'' @ topic"

definition subscriptionPath :: "'e emulator_client \<Rightarrow> string \<Rightarrow> string" where
  "subscriptionPath client subscription = ''projects/'' @ em_Project client @ ''/subscriptions/'' @ subscription"

text \<open>\<open>if err != nil { panic(err) }\<close> after a call.\<close>

definition must_call :: "('e \<Rightarrow> gerr option \<times> 'e) \<Rightarrow> ('e, unit) act" where
  "must_call f = andThen (on_env f) (\<lambda>err w. case err of None \<Rightarrow> (Ret (), w) | Some e \<Rightarrow> (Panic (PErr e), w))"

definition NewTestClient ::
  "(ctx \<Rightarrow> string \<Rightarrow> 'e \<Rightarrow> (gerr + 'e emulator_client) \<times> 'e) \<Rightarrow> ctx \<Rightarrow> string \<Rightarrow> ('e, 'e emulator_client) act"
where
  "NewTestClient new_client c gcpProject =
     andThen (on_env (new_client c gcpProject)) (\<lambda>r w. case r of
       Inl err \<Rightarrow> (Panic (PErr err), w)
     | Inr client \<Rightarrow> (Ret client, w))"

definition TestClient_Close :: "'e emulator_client \<Rightarrow> ('e, unit) act" where
  "TestClient_Close c = must_call (em_Close c)"

record 'e test_topic =
  tt_client :: "'e emulator_client"
  tt_Prefix :: string
  tt_Identifier :: string
  tt_Name :: string

definition CreateTestTopic :: "string \<Rightarrow> 'e emulator_client \<Rightarrow> ctx \<Rightarrow> string \<Rightarrow> ('e, 'e test_topic) act" where
  "CreateTestTopic uuid client c identifier =
     (let prefix = ''T'' @ uuid; topicName = prefix @ identifier
      in andThen (must_call (CreateTopic client c (topicPath client topicName))) (\<lambda>_ w.
           (Ret \<lparr>tt_client = client, tt_Prefix = prefix, tt_Identifier = identifier, tt_Name = topicName\<rparr>, w)))"

definition TestTopic_Delete :: "'e test_topic \<Rightarrow> ctx \<Rightarrow> ('e, unit) act" where
  "TestTopic_Delete tt c = must_call (DeleteTopic (tt_client tt) c (topicPath (tt_client tt) (tt_Name tt)))"

record 'e test_subscription =
  ts_client :: "'e emulator_client"
  ts_Prefix :: string
  ts_Identifier :: string
  ts_Name :: string

definition CreateTestSubscription ::
  "'e test_topic \<Rightarrow> ctx \<Rightarrow> string \<Rightarrow> bool \<Rightarrow> ('e, 'e test_subscription) act"
where
  "CreateTestSubscription tt c identifier ordered =
     (let subsName = tt_Prefix tt @ identifier
      in andThen (must_call (CreateSubscription (tt_client tt) c (subscriptionPath (tt_client tt) subsName)
                    (topicPath (tt_client tt) (tt_Name tt)) ordered)) (\<lambda>_ w.
           (Ret \<lparr>ts_client = tt_client tt, ts_Prefix = tt_Prefix tt, ts_Identifier = identifier, ts_Name = subsName\<rparr>, w)))"

text \<open>The deferred \<open>Stop\<close> runs after the panic as well.\<close>

definition PublishBytes ::
  "'e test_topic \<Rightarrow> ctx \<Rightarrow> string \<Rightarrow> (string, string) gomap \<Rightarrow> ('e, string) act"
where
  "PublishBytes tt c bytes attrs w =
     (let message = \<lparr>ps_ID = [], ps_Data = bytes, ps_OrderingKey = [], ps_Attributes = attrs\<rparr>;
          (r, e1) = em_Publish (tt_client tt) (tt_Name tt) c message (env w);
          w2 = w\<lparr>env := em_Stop (tt_client tt) (tt_Name tt) e1\<rparr>
      in case r of Inl err \<Rightarrow> (Panic (PErr err), w2) | Inr i \<Rightarrow> (Ret i, w2))"

definition TestSubscription_Delete :: "'e test_subscription \<Rightarrow> ctx \<Rightarrow> ('e, unit) act" where
  "TestSubscription_Delete ts c =
     must_call (DeleteSubscription (ts_client ts) c (subscriptionPath (ts_client ts) (ts_Name ts)))"

section \<open>Message channels\<close>

text \<open>
  The client runs a callback for each message, many at a time: it acks the message and then sends it,
  or its data, to a channel with room for \<open>size\<close>. \<open>view\<close> is what is sent. The client's \<open>Receive\<close>
  returns when its context is done or it failed, and no callback is left.
\<close>

datatype callback_pc = Acking | Sending

datatype client_state = Receiving | Ended "gerr option"

record 'v message_channel =
  callbacks :: "(ps_received \<times> callback_pc) list"
  chan_buffer :: "'v list"
  acked_msgs :: "ps_received list"
  taken :: "'v list" \<comment> \<open>what the reader of the channel got\<close>
  over :: bool \<comment> \<open>the context is done\<close>
  client_state :: client_state

inductive emulator_step :: "nat \<Rightarrow> (ps_received \<Rightarrow> 'v) \<Rightarrow> 'v message_channel \<Rightarrow> 'v message_channel \<Rightarrow> bool"
  for cap view where
  arrive: "client_state s = Receiving \<Longrightarrow> emulator_step cap view s (s\<lparr>callbacks := callbacks s @ [(m, Acking)]\<rparr>)"
| ack: "i < length (callbacks s) \<Longrightarrow> callbacks s ! i = (m, Acking) \<Longrightarrow>
    emulator_step cap view s (s\<lparr>callbacks := (callbacks s)[i := (m, Sending)], acked_msgs := acked_msgs s @ [m]\<rparr>)"
| send: "i < length (callbacks s) \<Longrightarrow> callbacks s ! i = (m, Sending) \<Longrightarrow> length (chan_buffer s) < cap \<Longrightarrow>
    emulator_step cap view s (s\<lparr>callbacks := remove_at i (callbacks s), chan_buffer := chan_buffer s @ [view m]\<rparr>)"
| cancel: "emulator_step cap view s (s\<lparr>over := True\<rparr>)"
| finish: "client_state s = Receiving \<Longrightarrow> over s \<Longrightarrow> callbacks s = [] \<Longrightarrow>
    emulator_step cap view s (s\<lparr>client_state := Ended None\<rparr>)"
| failed: "client_state s = Receiving \<Longrightarrow> callbacks s = [] \<Longrightarrow>
    emulator_step cap view s (s\<lparr>client_state := Ended (Some e)\<rparr>)"

text \<open>The steps of the reader; a send on a channel without a buffer waits for it.\<close>

inductive reader_step :: "nat \<Rightarrow> (ps_received \<Rightarrow> 'v) \<Rightarrow> 'v message_channel \<Rightarrow> 'v message_channel \<Rightarrow> bool"
  for cap view where
  read: "chan_buffer s = v # vs \<Longrightarrow>
    reader_step cap view s (s\<lparr>chan_buffer := vs, taken := taken s @ [v]\<rparr>)"
| meet: "cap = 0 \<Longrightarrow> i < length (callbacks s) \<Longrightarrow> callbacks s ! i = (m, Sending) \<Longrightarrow>
    reader_step cap view s (s\<lparr>callbacks := remove_at i (callbacks s), taken := taken s @ [view m]\<rparr>)"

definition channel_step where
  "channel_step cap view s t \<longleftrightarrow> emulator_step cap view s t \<or> reader_step cap view s t"

inductive_cases emulator_stepE: "emulator_step cap view s t"
inductive_cases reader_stepE: "reader_step cap view s t"

text \<open>\<open>make(chan T, size)\<close> panics for a negative size.\<close>

definition new_channel :: "int \<Rightarrow> 'v message_channel res" where
  "new_channel cap =
     (if cap < 0 then Panic (PVal (VString ''makechan: size out of range''))
      else Ret \<lparr>callbacks = [], chan_buffer = [], acked_msgs = [], taken = [], over = False, client_state = Receiving\<rparr>)"

text \<open>\<open>MessageChannel\<close> sends the messages, \<open>MessageDataChannel\<close> their data.\<close>

definition MessageChannel_step :: "int \<Rightarrow> ps_received message_channel \<Rightarrow> ps_received message_channel \<Rightarrow> bool" where
  "MessageChannel_step cap = channel_step (nat cap) (\<lambda>m. m)"

definition MessageDataChannel_step :: "int \<Rightarrow> string message_channel \<Rightarrow> string message_channel \<Rightarrow> bool" where
  "MessageDataChannel_step cap = channel_step (nat cap) ps_Data"

section \<open>The messages of a channel\<close>

definition sending :: "(ps_received \<times> callback_pc) list \<Rightarrow> ps_received list" where
  "sending cs = map fst (filter (\<lambda>c. snd c = Sending) cs)"

definition channel_inv :: "nat \<Rightarrow> (ps_received \<Rightarrow> 'v) \<Rightarrow> 'v message_channel \<Rightarrow> bool" where
  "channel_inv cap view s \<longleftrightarrow>
     image_mset view (mset (acked_msgs s))
       = mset (taken s) + mset (chan_buffer s) + image_mset view (mset (sending (callbacks s)))
   \<and> length (chan_buffer s) \<le> cap
   \<and> (\<forall>r. client_state s = Ended r \<longrightarrow> callbacks s = [])"

lemma mset_sending: "mset (sending cs) = image_mset fst (filter_mset (\<lambda>c. snd c = Sending) (mset cs))"
  by (simp add: sending_def mset_filter)

lemma channel_step_inv:
  assumes "channel_inv cap view s" "channel_step cap view s t"
  shows "channel_inv cap view t"
proof -
  note mset_callbacks = mset_remove_at [of _ "callbacks s"] mset_update_at [of _ "callbacks s"]
  have "channel_inv cap view t" if "emulator_step cap view s t"
    using that assms(1)
    by (cases rule: emulator_step.cases)
      (auto simp: channel_inv_def mset_sending mset_callbacks remove_at_def)
  moreover have "channel_inv cap view t" if "reader_step cap view s t"
    using that assms(1)
    by (cases rule: reader_step.cases)
      (auto simp: channel_inv_def mset_sending mset_callbacks remove_at_def)
  ultimately show ?thesis using assms(2) by (auto simp: channel_step_def)
qed

lemma new_channel_inv: "new_channel cap = Ret s \<Longrightarrow> channel_inv (nat cap) view s"
  by (auto simp: new_channel_def channel_inv_def sending_def split: if_splits)

interpretation emulator_run: invariant_system "\<lambda>s. new_channel n = Ret s" "channel_step (nat n) view" "channel_inv (nat n) view"
  for n :: int and view :: "ps_received \<Rightarrow> 'v"
  by unfold_locales (rule new_channel_inv channel_step_inv; assumption)+

text \<open>A channel that is full while a callback waits to send, with a reader that is gone.\<close>

definition jammed :: "nat \<Rightarrow> 'v message_channel \<Rightarrow> bool" where
  "jammed cap s \<longleftrightarrow> length (chan_buffer s) = cap \<and> sending (callbacks s) \<noteq> [] \<and> client_state s = Receiving"

lemma jammed_step:
  assumes "emulator_step cap view s t" "jammed cap s"
  shows "jammed cap t \<and> chan_buffer t = chan_buffer s \<and> taken t = taken s
    \<and> (\<exists>ms. mset (sending (callbacks t)) = mset (sending (callbacks s)) + ms)"
proof -
  note mset_callbacks = mset_remove_at [of _ "callbacks s"] mset_update_at [of _ "callbacks s"]
  have waiting: "callbacks s \<noteq> []" using assms(2) by (auto simp: jammed_def sending_def)
  from assms(1) show ?thesis
  proof (cases rule: emulator_step.cases)
    case (arrive m)
    with assms(2) show ?thesis by (auto simp: jammed_def sending_def intro: exI [of _ "{#}"])
  next
    case (ack i m)
    have more: "mset (sending (callbacks t)) = mset (sending (callbacks s)) + {#m#}"
      using ack by (simp add: mset_sending mset_callbacks)
    then have "sending (callbacks t) \<noteq> []" by auto
    with more assms(2) ack show ?thesis by (auto simp: jammed_def)
  next
    case (send i m)
    with assms(2) show ?thesis by (simp add: jammed_def)
  next
    case cancel
    with assms(2) show ?thesis by (auto simp: jammed_def intro: exI [of _ "{#}"])
  qed (use waiting in simp_all)
qed

lemma jammed_forever:
  assumes "steps (emulator_step cap view) s t" "jammed cap s"
  shows "jammed cap t \<and> taken t = taken s \<and> chan_buffer t = chan_buffer s
    \<and> mset (sending (callbacks s)) \<subseteq># mset (sending (callbacks t))"
  using assms
proof (induction rule: steps.induct)
  case (steps_step s t u)
  with jammed_step [OF steps_step.hyps(2)] show ?case
    by (auto intro: subset_mset.order_trans)
qed simp

text \<open>A run that fills the channel.\<close>

definition run_state ::
  "(ps_received \<times> callback_pc) list \<Rightarrow> 'v list \<Rightarrow> ps_received list \<Rightarrow> bool \<Rightarrow> 'v message_channel"
where
  "run_state cs b a z = \<lparr>callbacks = cs, chan_buffer = b, acked_msgs = a, taken = [], over = z, client_state = Receiving\<rparr>"

lemma new_channel_state: "new_channel n = Ret s0 \<Longrightarrow> s0 = run_state [] [] [] False"
  by (auto simp: new_channel_def run_state_def split: if_splits)

lemma run_state_steps:
  "emulator_step cap view (run_state [] b a z) (run_state [(m, Acking)] b a z)"
  "emulator_step cap view (run_state [(m, Acking)] b a z) (run_state [(m, Sending)] b (a @ [m]) z)"
  "length b < cap \<Longrightarrow> emulator_step cap view (run_state [(m, Sending)] b a z) (run_state [] (b @ [view m]) a z)"
  "emulator_step cap view (run_state cs b a z) (run_state cs b a True)"
  using emulator_step.arrive [of "run_state [] b a z" cap view m] emulator_step.ack [of 0 "run_state [(m, Acking)] b a z" m cap view]
    emulator_step.send [of 0 "run_state [(m, Sending)] b a z" m cap view] emulator_step.cancel [of cap view "run_state cs b a z"]
  by (simp_all add: run_state_def remove_at_def)

lemma own_then: "steps (channel_step cap view) s t \<Longrightarrow> emulator_step cap view t u \<Longrightarrow> steps (channel_step cap view) s u"
  unfolding channel_step_def by (blast intro: steps.steps_step)

lemma callback_waits:
  assumes "steps (channel_step cap view) s (run_state [] b a z)"
  shows "steps (channel_step cap view) s (run_state [(m, Sending)] b (a @ [m]) z)"
  by (rule own_then [OF own_then [OF assms run_state_steps(1)] run_state_steps(2)])

lemma channel_filled:
  "k \<le> cap \<Longrightarrow> steps (channel_step cap view) (run_state [] [] [] False) (run_state [] (replicate k (view m)) (replicate k m) False)"
proof (induction k)
  case (Suc k)
  then have "length (replicate k (view m)) < cap" and "steps (channel_step cap view) (run_state [] [] [] False)
      (run_state [] (replicate k (view m)) (replicate k m) False)" by simp_all
  from own_then [OF callback_waits [OF this(2)] run_state_steps(3) [OF this(1)], of m] show ?case
    by (simp add: replicate_append_same)
qed (simp add: steps_refl)

lemma channel_jams:
  fixes view :: "ps_received \<Rightarrow> 'v"
  shows "\<exists>j. steps (channel_step cap view) (run_state [] [] [] False) j \<and> jammed cap j \<and> over j"
proof -
  obtain m :: ps_received where True by simp
  let ?b = "replicate cap (view m)" and ?a = "replicate cap m"
  have "steps (channel_step cap view) (run_state [] [] [] False) (run_state [(m, Sending)] ?b (?a @ [m]) True)"
    by (rule own_then [OF callback_waits [OF channel_filled [OF order_refl]] run_state_steps(4)])
  moreover have "jammed cap (run_state [(m, Sending)] ?b (?a @ [m]) True)" "over (run_state [(m, Sending)] ?b (?a @ [m]) True)"
    by (simp_all add: jammed_def run_state_def sending_def)
  ultimately show ?thesis by blast
qed

section \<open>Properties\<close>

text \<open>C39: A message channel of the emulator neither loses nor invents a message while it is read: at any
  time the messages acked so far are exactly those the reader got, those in the channel, which are
  at most \<open>size\<close>, and those of the callbacks that wait to send. When the client's \<open>Receive\<close> has
  returned, none is left with a callback. But every message is acked before the reader has it: once
  the channel is full and a callback waits, and nothing is read any more, \<open>Receive\<close> never returns,
  not even after its context is done, and the acked messages never reach anybody; every size allows
  such a run.\<close>

theorem emulator_channel:
  fixes view :: "ps_received \<Rightarrow> 'v"
  assumes "new_channel n = Ret s0" "steps (channel_step (nat n) view) s0 s"
  shows "image_mset view (mset (acked_msgs s))
      = mset (taken s) + mset (chan_buffer s) + image_mset view (mset (sending (callbacks s)))
    \<and> length (chan_buffer s) \<le> nat n
    \<and> (\<forall>r. client_state s = Ended r \<longrightarrow> image_mset view (mset (acked_msgs s)) = mset (taken s) + mset (chan_buffer s))
    \<and> (jammed (nat n) s \<longrightarrow> (\<forall>t. steps (emulator_step (nat n) view) s t \<longrightarrow>
          client_state t = Receiving \<and> taken t = taken s \<and> mset (sending (callbacks s)) \<subseteq># mset (sending (callbacks t))))
    \<and> (\<exists>j. steps (channel_step (nat n) view) s0 j \<and> jammed (nat n) j \<and> over j)"
proof -
  have inv: "channel_inv (nat n) view s" using emulator_run.reachable [OF assms(1)] assms(2) by blast
  have run: "\<exists>j. steps (channel_step (nat n) view) s0 j \<and> jammed (nat n) j \<and> over j"
    unfolding new_channel_state [OF assms(1)] by (rule channel_jams)
  have stuck: "client_state t = Receiving \<and> taken t = taken s \<and> mset (sending (callbacks s)) \<subseteq># mset (sending (callbacks t))"
    if "jammed (nat n) s" "steps (emulator_step (nat n) view) s t" for t
    using jammed_forever [OF that(2,1)] by (simp add: jammed_def)
  from inv run stuck show ?thesis by (auto simp: channel_inv_def sending_def)
qed

text \<open>The same run with the data of the messages, for the witness.\<close>

theorem emulator_channel_witness:
  "\<exists>s0 s. (new_channel 0 :: string message_channel res) = Ret s0 \<and> steps (MessageDataChannel_step 0) s0 s
     \<and> jammed 0 s \<and> (\<forall>t. steps (emulator_step 0 ps_Data) s t \<longrightarrow> client_state t = Receiving)"
proof -
  obtain s0 :: "string message_channel" where s0: "new_channel 0 = Ret s0" by (simp add: new_channel_def)
  from emulator_channel [OF s0 steps_refl, of ps_Data]
  obtain s where s: "steps (channel_step (nat 0) ps_Data) s0 s" "jammed (nat 0) s" by blast
  from emulator_channel [OF s0 s(1)] s(2) have "\<forall>t. steps (emulator_step (nat 0) ps_Data) s t \<longrightarrow> client_state t = Receiving" by blast
  with s0 s show ?thesis unfolding MessageDataChannel_step_def by auto
qed

section \<open>What a test makes and takes away\<close>

text \<open>
  What the documentation of the admin API says, over the paths of the topics and of the subscriptions:
  a call that fails changes neither, a path cannot be created twice, a subscription needs its topic,
  and deleting a topic leaves the subscriptions.
\<close>

definition admin_laws :: "'e emulator_client \<Rightarrow> ('e \<Rightarrow> string set) \<Rightarrow> ('e \<Rightarrow> string set) \<Rightarrow> bool" where
  "admin_laws client topics subs \<longleftrightarrow>
     (\<forall>c n e r e'. CreateTopic client c n e = (r, e') \<longrightarrow> subs e' = subs e \<and>
        (if r = None then n \<notin> topics e \<and> topics e' = insert n (topics e) else topics e' = topics e))
   \<and> (\<forall>c n e r e'. DeleteTopic client c n e = (r, e') \<longrightarrow> subs e' = subs e \<and>
        topics e' = (if r = None then topics e - {n} else topics e))
   \<and> (\<forall>c n t b e r e'. CreateSubscription client c n t b e = (r, e') \<longrightarrow> topics e' = topics e \<and>
        (if r = None then n \<notin> subs e \<and> t \<in> topics e \<and> subs e' = insert n (subs e) else subs e' = subs e))
   \<and> (\<forall>c n e r e'. DeleteSubscription client c n e = (r, e') \<longrightarrow> topics e' = topics e \<and>
        subs e' = (if r = None then subs e - {n} else subs e))
   \<and> (\<forall>t c m e r e'. em_Publish client t c m e = (r, e') \<longrightarrow> topics e' = topics e \<and> subs e' = subs e)
   \<and> (\<forall>t e. topics (em_Stop client t e) = topics e \<and> subs (em_Stop client t e) = subs e)"

lemma must_call_cases:
  "must_call f w = (r, w') \<Longrightarrow>
     (r = Ret () \<and> f (env w) = (None, env w')) \<or> (\<exists>err. r = Panic (PErr err) \<and> f (env w) = (Some err, env w'))"
  by (auto simp: must_call_def andThen_def on_env_def split: prod.splits option.splits)

lemma created_topic:
  assumes "CreateTestTopic uuid client c identifier w = (Ret t, w1)"
  shows "t = \<lparr>tt_client = client, tt_Prefix = ''T'' @ uuid, tt_Identifier = identifier, tt_Name = ''T'' @ uuid @ identifier\<rparr>"
    and "CreateTopic client c (topicPath client (tt_Name t)) (env w) = (None, env w1)"
  using assms
  by (auto simp: CreateTestTopic_def Let_def andThen_def split: prod.splits res.splits dest!: must_call_cases)

lemma created_subscription:
  assumes "CreateTestSubscription t c identifier ordered w = (Ret s, w1)"
  shows "s = \<lparr>ts_client = tt_client t, ts_Prefix = tt_Prefix t, ts_Identifier = identifier, ts_Name = tt_Prefix t @ identifier\<rparr>"
    and "CreateSubscription (tt_client t) c (subscriptionPath (tt_client t) (ts_Name s)) (topicPath (tt_client t) (tt_Name t)) ordered (env w)
      = (None, env w1)"
  using assms
  by (auto simp: CreateTestSubscription_def Let_def andThen_def split: prod.splits res.splits dest!: must_call_cases)

text \<open>A topic and a subscription that a test creates on the emulator are new, and after the test
  deleted both, whatever it published and with what result, the emulator has the topics and the
  subscriptions it had before. A second subscription with the same identifier on the topic panics
  and changes neither; and a test with another random prefix of the same length, whatever its
  identifier, has another topic.\<close>

theorem emulator_torn_down:
  assumes laws: "admin_laws client topics subs"
    and topic: "CreateTestTopic uuid client c i w = (Ret t, w1)"
    and sub: "CreateTestSubscription t c j ordered w1 = (Ret s, w2)"
    and pub: "PublishBytes t c bytes attrs w2 = (r, w3)"
    and del: "TestSubscription_Delete s c w3 = (Ret (), w4)" "TestTopic_Delete t c w4 = (Ret (), w5)"
  shows "topicPath client (tt_Name t) \<notin> topics (env w) \<and> topics (env w3) = insert (topicPath client (tt_Name t)) (topics (env w))
    \<and> subscriptionPath client (ts_Name s) \<notin> subs (env w) \<and> subs (env w3) = insert (subscriptionPath client (ts_Name s)) (subs (env w))
    \<and> topics (env w5) = topics (env w) \<and> subs (env w5) = subs (env w)
    \<and> (\<exists>e w'. CreateTestSubscription t c j ordered' w3 = (Panic (PErr e), w')
          \<and> topics (env w') = topics (env w3) \<and> subs (env w') = subs (env w3))
    \<and> (\<forall>uuid' i' t' v v'. uuid' \<noteq> uuid \<longrightarrow> length uuid' = length uuid \<longrightarrow>
          CreateTestTopic uuid' client c i' v = (Ret t', v') \<longrightarrow> topicPath client (tt_Name t') \<noteq> topicPath client (tt_Name t))"
proof -
  note t = created_topic [OF topic] and s = created_subscription [OF sub]
  have client: "tt_client t = client" "ts_client s = client" using t(1) s(1) by simp_all
  let ?t = "topicPath client (tt_Name t)" and ?s = "subscriptionPath client (ts_Name s)"
  have 1: "?t \<notin> topics (env w)" "topics (env w1) = insert ?t (topics (env w))" "subs (env w1) = subs (env w)"
    using laws t(2) unfolding admin_laws_def by (metis (full_types))+
  have 2: "?s \<notin> subs (env w1)" "subs (env w2) = insert ?s (subs (env w1))" "topics (env w2) = topics (env w1)"
    using laws s(2) unfolding admin_laws_def client by (metis (full_types))+
  obtain x e where x: "em_Publish client (tt_Name t) c \<lparr>ps_ID = [], ps_Data = bytes, ps_OrderingKey = [], ps_Attributes = attrs\<rparr> (env w2) = (x, e)"
    by fastforce
  then have "env w3 = em_Stop client (tt_Name t) e"
    using pub by (auto simp: PublishBytes_def client Let_def split: sum.splits)
  with x laws have 3: "topics (env w3) = topics (env w2)" "subs (env w3) = subs (env w2)"
    unfolding admin_laws_def by metis+
  have "DeleteSubscription client c ?s (env w3) = (None, env w4)" "DeleteTopic client c ?t (env w4) = (None, env w5)"
    using del must_call_cases unfolding TestSubscription_Delete_def TestTopic_Delete_def client by blast+
  with laws have 4: "subs (env w4) = subs (env w3) - {?s}" "topics (env w4) = topics (env w3)"
    "topics (env w5) = topics (env w4) - {?t}" "subs (env w5) = subs (env w4)"
    unfolding admin_laws_def by metis+
  obtain x' e' where again: "CreateSubscription client c ?s ?t ordered' (env w3) = (x', e')" by fastforce
  then have "x' \<noteq> None" "topics e' = topics (env w3)" "subs e' = subs (env w3)"
    using laws 2 3 unfolding admin_laws_def by (metis (full_types) insertI1)+
  then have "\<exists>e w'. CreateTestSubscription t c j ordered' w3 = (Panic (PErr e), w')
          \<and> topics (env w') = topics (env w3) \<and> subs (env w') = subs (env w3)"
    using again s(1) by (auto simp: CreateTestSubscription_def must_call_def andThen_def on_env_def client Let_def)
  moreover have "topicPath client (tt_Name t') \<noteq> ?t"
    if "uuid' \<noteq> uuid" "length uuid' = length uuid" "CreateTestTopic uuid' client c i' v = (Ret t', v')" for uuid' i' t' v v'
    using that created_topic(1) [OF that(3)] t(1) by (auto simp: topicPath_def)
  ultimately show ?thesis using 1 2 3 4 by auto
qed

text \<open>An emulator that does all it is told, for the witness: the paths of its topics and subscriptions.\<close>

definition demo_emulator :: "(string set \<times> string set) emulator_client" where
  "demo_emulator =
     \<lparr>em_Project = ''p'',
      CreateTopic = (\<lambda>c n (ts, ss). if n \<in> ts then (Some (ErrNew ''exists''), ts, ss) else (None, insert n ts, ss)),
      DeleteTopic = (\<lambda>c n (ts, ss). (None, ts - {n}, ss)),
      CreateSubscription = (\<lambda>c n t b (ts, ss).
        if n \<in> ss \<or> t \<notin> ts then (Some (ErrNew ''exists''), ts, ss) else (None, ts, insert n ss)),
      DeleteSubscription = (\<lambda>c n (ts, ss). (None, ts, ss - {n})),
      em_Publish = (\<lambda>t c m e. (Inr ''1'', e)), em_Stop = (\<lambda>t e. e), em_Close = (\<lambda>e. (None, e))\<rparr>"

theorem emulator_torn_down_witness:
  "\<exists>t s w1 w2 w3 w4 w5. CreateTestTopic ''u'' demo_emulator Background ''t'' (start_world ({}, {})) = (Ret t, w1)
     \<and> CreateTestSubscription t Background ''s'' False w1 = (Ret s, w2)
     \<and> PublishBytes t Background ''b'' [] w2 = (Ret ''1'', w3)
     \<and> TestSubscription_Delete s Background w3 = (Ret (), w4) \<and> TestTopic_Delete t Background w4 = (Ret (), w5)
     \<and> fst (env w3) = {''projects/p/topics/Tut''} \<and> env w5 = ({}, {})"
proof -
  let ?w = "start_world ({}, {}) :: (string set \<times> string set) world"
  note defs = demo_emulator_def CreateTestTopic_def CreateTestSubscription_def PublishBytes_def TestSubscription_Delete_def
    TestTopic_Delete_def must_call_def andThen_def on_env_def start_world_def Let_def topicPath_def
  have laws: "admin_laws demo_emulator fst snd" by (auto simp: admin_laws_def demo_emulator_def split: if_splits)
  obtain t w1 where t: "CreateTestTopic ''u'' demo_emulator Background ''t'' ?w = (Ret t, w1)"
    and t': "t = \<lparr>tt_client = demo_emulator, tt_Prefix = ''Tu'', tt_Identifier = ''t'', tt_Name = ''Tut''\<rparr>"
    "env w1 = ({''projects/p/topics/Tut''}, {})"
    by (simp add: defs)
  obtain s w2 where s: "CreateTestSubscription t Background ''s'' False w1 = (Ret s, w2)"
    and s': "ts_client s = demo_emulator" "env w2 = ({''projects/p/topics/Tut''}, {subscriptionPath demo_emulator ''Tus''})"
    by (simp add: t' defs)
  obtain w3 where p: "PublishBytes t Background ''b'' [] w2 = (Ret ''1'', w3)" by (simp add: t' defs)
  obtain w4 where d: "TestSubscription_Delete s Background w3 = (Ret (), w4)"
    by (cases "env w3") (simp add: s' TestSubscription_Delete_def must_call_def andThen_def on_env_def demo_emulator_def)
  obtain w5 where e: "TestTopic_Delete t Background w4 = (Ret (), w5)"
    by (cases "env w4") (simp add: t' TestTopic_Delete_def must_call_def andThen_def on_env_def demo_emulator_def)
  from emulator_torn_down [OF laws t s p d e]
  have "fst (env w3) = {topicPath demo_emulator ''Tut''}" "fst (env w5) = {}" "snd (env w5) = {}"
    by (simp_all add: t' start_world_def)
  moreover have "topicPath demo_emulator ''Tut'' = ''projects/p/topics/Tut''" by (simp add: topicPath_def demo_emulator_def)
  ultimately show ?thesis using t s p d e by (auto simp: prod_eq_iff)
qed

end
