(* ===== verification/Example_Google.thy ===== *)
theory Example_Google
  imports Examples Emulator
begin

text \<open>
  \<open>examples/google/google.go\<close>: the engines, with the circuit breaker around the subscription engine, the
  router and \<open>main\<close>, which makes its topic and subscription on the emulator, and an event's way
  through Pub/Sub. \<open>execute\<close> is the \<open>Execute\<close> of the breaker, \<open>receive\<close> the subscriber's \<open>Receive\<close>,
  \<open>zero\<close> the zero value of the client's settings.
\<close>

type_synonym ('b, 'u) google_program = "('b topic_publisher, 'b, 'u) program"

section \<open>The engines and the router\<close>

text \<open>The closure \<open>routingFn\<close>.\<close>

definition single_topic :: "string \<Rightarrow> 'e routing_func" where
  "single_topic topic msg w = (Ret (Inr topic), w)"

definition google_createPublisher ::
  "'u prom \<Rightarrow> 'u terminal \<Rightarrow> ('b, 'u) google_program json_codec \<Rightarrow> (gval \<Rightarrow> string) \<Rightarrow> 'b pubsub_client option \<Rightarrow> string
     \<Rightarrow> (('b, 'u) google_program, gerr + ('b, 'u) google_program publishing_engine) act"
where
  "google_createPublisher P io C fv client topic w =
     (case NewGooglePublisher fv client (Some (single_topic topic)) [] of
        Inl err \<Rightarrow> (Ret (Inl err), w)
      | Inr pub \<Rightarrow>
          andThen (metered_publisher P io fv (publisher_handler (Google_Publish pub))
                     [AddStructNameToMetadata, Google_MarshallPayloadToJson C])
            (\<lambda>pubEngine w. (Ret (Inr pubEngine), w)) w)"

definition google_createSubscriber ::
  "'u prom \<Rightarrow> 'u terminal \<Rightarrow> (gval \<Rightarrow> string) \<Rightarrow> 's
     \<Rightarrow> ((('b, 'u) google_program, gerr option) act \<Rightarrow> (('b, 'u) google_program, gerr option) act)
     \<Rightarrow> (('s, ('b, 'u) google_program) google_subscriber \<Rightarrow> ctx
           \<Rightarrow> (('b, 'u) google_program rstore \<Rightarrow> ('b, 'u) google_program handler) \<Rightarrow> (('b, 'u) google_program, gerr option) act)
     \<Rightarrow> ('s, ('b, 'u) google_program) pubsub_receiver option \<Rightarrow> string \<Rightarrow> ('b, 'u) google_program router
     \<Rightarrow> (('b, 'u) google_program, gerr + ('b, 'u) google_program subscription_engine) act"
where
  "google_createSubscriber P io fv zero execute receive client subscription router w =
     (case NewGoogleSubscriber zero client subscription [] of
        Inl err \<Rightarrow> (Ret (Inl err), w)
      | Inr googleSub \<Rightarrow>
          andThen (metered_subscriber P io fv (receive googleSub) router [CircuitBreaker execute])
            (\<lambda>subEngine w. (Ret (Inr subEngine), w)) w)"

definition google_routes :: "('p, 'c, 'u) program json_codec \<Rightarrow> 'u terminal \<Rightarrow> ('p, 'c, 'u) program event_route list" where
  "google_routes C io =
     [(''DummyEvent1'', [Google_UnmarshallPayloadFromJson C (TStruct ''DummyEvent1'')],
         HandleWithPayload (TStruct ''DummyEvent1'') (sleeping_handler1 io))]"

definition google_router ::
  "('p, 'c, 'u) program json_codec \<Rightarrow> 'u terminal \<Rightarrow> (gval \<Rightarrow> string) \<Rightarrow> ('p, 'c, 'u) program rstore
     \<Rightarrow> ('p, 'c, 'u) program router res \<times> ('p, 'c, 'u) program rstore"
where
  "google_router C io fv = event_router fv (google_routes C io) (sleeping_default_handler io)"

section \<open>\<open>main\<close>\<close>

text \<open>What the emulator's client does to the program: it runs on the environment of the Pub/Sub client.\<close>

definition on_client :: "('c, 'a) act \<Rightarrow> (('p, 'c, 'u) program, 'a) act" where
  "on_client f w =
     (let x = env w; (r, w1) = f (with_env (prog_client x) w)
      in (r, with_env (x\<lparr>prog_client := env w1\<rparr>) w1))"

text \<open>
  \<open>new_client\<close> and \<open>new_pubsub\<close> are \<open>pubsub.NewClient\<close>, for the emulator and for the program, whose one
  client publishes and receives; \<open>uuid\<close> is the random prefix and \<open>runCtx\<close> the context that an
  interrupt ends.
\<close>

definition google_main ::
  "'u prom \<Rightarrow> 'u terminal \<Rightarrow> ('b, 'u) google_program json_codec \<Rightarrow> (gval \<Rightarrow> string) \<Rightarrow> 's
     \<Rightarrow> ((('b, 'u) google_program, gerr option) act \<Rightarrow> (('b, 'u) google_program, gerr option) act)
     \<Rightarrow> (('s, ('b, 'u) google_program) google_subscriber \<Rightarrow> ctx \<Rightarrow> ('b, 'u) google_program handler
           \<Rightarrow> (('b, 'u) google_program, gerr option) act)
     \<Rightarrow> (ctx \<Rightarrow> string \<Rightarrow> 'b \<Rightarrow> (gerr + 'b emulator_client) \<times> 'b)
     \<Rightarrow> (ctx \<Rightarrow> string \<Rightarrow> 'b \<Rightarrow> (gerr + 'b pubsub_client \<times> ('s, ('b, 'u) google_program) pubsub_receiver) \<times> 'b)
     \<Rightarrow> string \<Rightarrow> ctx \<Rightarrow> (('b, 'u) google_program, unit) act"
where
  "google_main P io C fv zero execute Receive new_client new_pubsub uuid runCtx =
     andThen (on_client (NewTestClient new_client Background ''test-project'')) (\<lambda>emuClient.
     andThen (on_client (CreateTestTopic uuid emuClient Background ''test-topic'')) (\<lambda>topic.
     andThen (on_client (CreateTestSubscription topic Background ''test-subscription'' False)) (\<lambda>subscription.
     andThen (on_client (on_env (new_pubsub Background ''test-project''))) (\<lambda>r. case r of
       Inl err \<Rightarrow> (\<lambda>w. (Panic (PErr err), w))
     | Inr (client, receiver) \<Rightarrow>
         andThen (google_createPublisher P io C fv (Some client) (tt_Name topic)) (\<lambda>r. case r of
           Inl err \<Rightarrow> (\<lambda>w. (Panic (PErr err), w))
         | Inr pubEngine \<Rightarrow>
             andThen (publish_event pubEngine (VStruct ''DummyEvent1'' [VString ''value1''])) (\<lambda>_.
               case google_router C io fv \<lparr>route_maps = [], builders = []\<rparr> of
                 (Panic q, st) \<Rightarrow> (\<lambda>w. (Panic q, w))
               | (Ret router, st) \<Rightarrow>
                   andThen (google_createSubscriber P io fv zero execute (\<lambda>s c h. Receive s c (h st)) (Some receiver)
                              (ts_Name subscription) router) (\<lambda>r. case r of
                     Inl err \<Rightarrow> (\<lambda>w. (Panic (PErr err), w))
                   | Inr subEngine \<Rightarrow> run_engine io subEngine runCtx)))))))"

section \<open>An event on its way out\<close>

abbreviation event_google_config where
  "event_google_config client topic fv \<equiv> google_config client (single_topic topic) (google_options fv None)"

lemma event_google_publisher:
  "NewGooglePublisher fv (Some client) (Some (single_topic topic)) [] = Inr (event_google_config client topic fv)"
  by (simp add: NewGooglePublisher_def google_options_def)

lemma google_created_publisher:
  assumes "google_createPublisher P io C fv (Some client) topic v = (Ret (Inr eng), v')"
  shows "metered_publisher P io fv (publisher_handler (Google_Publish (event_google_config client topic fv)))
    [AddStructNameToMetadata, Google_MarshallPayloadToJson C] v = (Ret eng, v')"
  using assms by (auto simp: google_createPublisher_def event_google_publisher andThen_def split: prod.splits res.splits)

text \<open>The message given to the client.\<close>

definition event_ps_message :: "(gval \<Rightarrow> string) \<Rightarrow> string \<Rightarrow> (string, gval) gomap \<Rightarrow> ps_message" where
  "event_ps_message fv body meta =
     \<lparr>ps_ID = [], ps_Data = body, ps_OrderingKey = [], ps_Attributes = range_into (convert_entry (sprint_v fv)) meta []\<rparr>"

lemma event_google_publish:
  assumes "google.own_cache client None s" "valid_msg w m" "ID (get_msg w m) = []" "Payload (get_msg w m) = VBytes body"
    and "ps_Publish client topic False (Context w m) (event_ps_message fv body (meta_of w m)) (env w) = (x, b)"
    and "\<forall>i. x = Inr i \<longrightarrow> i \<noteq> []"
  shows "\<exists>s'. google.own_cache client None s' \<and>
    Google_Publish (event_google_config client topic fv) m s w
      = ((case x of Inl e \<Rightarrow> (Ret (Some e), w\<lparr>env := b\<rparr>)
          | Inr i \<Rightarrow> (Ret None, upd_msg m (\<lambda>x. x\<lparr>ID := i\<rparr>) (w\<lparr>env := b\<rparr>))), s')"
proof -
  have route: "single_topic topic m w = (Ret (Inr topic), w)" by (simp add: single_topic_def)
  from google_publish_cases [where routing = "single_topic topic" and w = w and ?w1.0 = w and c = client and f = None
      and fv = fv and m = m and s = s and body = body, OF route assms(1,4)] assms(3,5,6) show ?thesis
    by (cases x) (auto simp: TopicPublisher_send_def google_topic_def event_ps_message_def key_of_def)
qed

lemma google_event_published:
  assumes "google_createPublisher P io C fv (Some client) topic v = (Ret (Inr eng), v')" "records P inc observe"
    and "valid_msg w m" "Metadata (get_msg w m) = Some a" "a < length (heap_maps w)" "ID (get_msg w m) = []"
    and "Payload (get_msg w m) = VStruct n fs"
    and "\<forall>x. json_Marshal C (VStruct n fs) x = (Ret (Inr body), x)"
    and "google.own_cache client None (prog_cache (env w))"
    and "ps_Publish client topic False (Context w m)
           (event_ps_message fv body (AList.update ''event_type'' (VString n) (read_map w (Some a)))) (prog_client (env w)) = (x, b)"
    and "\<forall>i. x = Inr i \<longrightarrow> i \<noteq> []"
    and "PublishingEngine_Publish eng m w = ((r, w'), eng')"
  shows "\<exists>err. err = (case x of Inl e \<Rightarrow> Some e | Inr i \<Rightarrow> None) \<and> r = Ret err \<and> prog_client (env w') = b
    \<and> read_map w' (Some a) = AList.update ''event_type'' (VString n) (read_map w (Some a))
    \<and> get_msg w' m = (get_msg w m)\<lparr>Payload := VBytes body, ID := (case x of Inl e \<Rightarrow> [] | Inr i \<Rightarrow> i)\<rparr>
    \<and> google.own_cache client None (prog_cache (env w'))
    \<and> (\<exists>counter timer. prog_out (env w') =
         publisher_out inc observe io counter timer 0 (ID (get_msg w' m)) (meta_of w' m) err (prog_out (env w)))"
proof -
  let ?pub = "publisher_handler (Google_Publish (event_google_config client topic fv))"
  let ?w1 = "event_ready n body m a w" and ?c = "prog_client (env w)"
  note ready = event_ready_facts [OF assms(3-5), of n body]
  have T: "dyn_type (VStruct n fs) = Some (TStruct n)" "type_name (TStruct n) = n" by simp_all
  have msg: "valid_msg (with_env ?c ?w1) m" "ID (get_msg (with_env ?c ?w1) m) = []"
    "Payload (get_msg (with_env ?c ?w1) m) = VBytes body" "Context (with_env ?c ?w1) m = Context w m"
    "meta_of (with_env ?c ?w1) m = AList.update ''event_type'' (VString n) (read_map w (Some a))"
    using assms(3,4,6) by (simp_all add: ready Context_def) (simp add: valid_msg_def event_ready_def set_Payload_def upd_msg_def)
  have call: "ps_Publish client topic False (Context (with_env ?c ?w1) m)
      (event_ps_message fv body (meta_of (with_env ?c ?w1) m)) (env (with_env ?c ?w1)) = (x, b)"
    unfolding msg(4,5) using assms(10) by simp
  obtain s' where s': "google.own_cache client None s'"
    "Google_Publish (event_google_config client topic fv) m (prog_cache (env w)) (with_env ?c ?w1)
       = ((case x of Inl e \<Rightarrow> (Ret (Some e), (with_env ?c ?w1)\<lparr>env := b\<rparr>)
          | Inr i \<Rightarrow> (Ret None, upd_msg m (\<lambda>x. x\<lparr>ID := i\<rparr>) ((with_env ?c ?w1)\<lparr>env := b\<rparr>))), s')"
    using event_google_publish [OF assms(9) msg(1-3) call assms(11)] by blast
  define err where "err = (case x of Inl e \<Rightarrow> Some e | Inr i \<Rightarrow> None)"
  let ?v = "with_env ((env w)\<lparr>prog_cache := s', prog_client := b\<rparr>) ?w1"
  let ?w2 = "upd_msg m (\<lambda>y. y\<lparr>ID := (case x of Inl e \<Rightarrow> [] | Inr i \<Rightarrow> i)\<rparr>) ?v"
  have valid: "valid_msg ?v m" using msg(1) by (simp add: valid_msg_def)
  have keep: "upd_msg m (\<lambda>y. y\<lparr>ID := []\<rparr>) ?v = ?v"
  proof -
    have "(get_msg ?v m)\<lparr>ID := []\<rparr> = get_msg ?v m" using assms(6) by (simp add: ready)
    then show ?thesis using valid by (simp add: upd_msg_def get_msg_def valid_msg_def)
  qed
  have "?pub m ?w1 = (Ret err, ?w2)"
  proof (cases x)
    case (Inl e)
    with publisher_handler_run [of "Google_Publish (event_google_config client topic fv)" m ?w1, unfolded ready(3)] s'(2) keep
    show ?thesis by (simp add: err_def)
  next
    case (Inr i)
    with publisher_handler_run [of "Google_Publish (event_google_config client topic fv)" m ?w1, unfolded ready(3)] s'(2)
    show ?thesis by (simp add: err_def) (simp add: with_env_def upd_msg_def)
  qed
  then have inner: "foldr (\<lambda>m inner. m inner) [AddStructNameToMetadata, Google_MarshallPayloadToJson C] ?pub m w = (Ret err, ?w2)"
    by (simp add: google_same_as_amqp event_prepared [OF assms(3-5,7) T(1) assms(8), unfolded T(2)])
  obtain counter timer where r: "r = Ret err" and w': "w' = ?w2\<lparr>env := (env ?w2)\<lparr>prog_out :=
      publisher_out inc observe io counter timer (clock ?w2 - clock w) (ID (get_msg ?w2 m)) (meta_of ?w2 m) err (prog_out (env ?w2))\<rparr>\<rparr>"
    using metered_published [OF google_created_publisher [OF assms(1)] assms(2) inner assms(12)] by auto
  have w2: "env ?w2 = (env w)\<lparr>prog_cache := s', prog_client := b\<rparr>" "clock ?w2 = clock w"
    "get_msg ?w2 m = (get_msg w m)\<lparr>Payload := VBytes body, ID := (case x of Inl e \<Rightarrow> [] | Inr i \<Rightarrow> i)\<rparr>"
    "read_map ?w2 (Some a) = AList.update ''event_type'' (VString n) (read_map w (Some a))"
    using upd_msg_same [OF valid] by (simp_all add: ready)
  have same: "get_msg w' m = get_msg ?w2 m" "read_map w' (Some a) = read_map ?w2 (Some a)"
    "prog_client (env w') = prog_client (env ?w2)" "prog_cache (env w') = prog_cache (env ?w2)"
    by (simp_all add: w' read_map_env)
  have meta: "meta_of w' m = meta_of ?w2 m" by (simp add: same(1,2) w2(3) assms(4))
  have printed: "prog_out (env w') = publisher_out inc observe io counter timer 0 (ID (get_msg w' m)) (meta_of w' m) err (prog_out (env w))"
    unfolding meta unfolding same(1) unfolding w' by (simp add: w2(1,2) ready(4))
  from printed have "\<exists>counter timer. prog_out (env w')
      = publisher_out inc observe io counter timer 0 (ID (get_msg w' m)) (meta_of w' m) err (prog_out (env w))" by blast
  moreover have "prog_client (env w') = b" "google.own_cache client None (prog_cache (env w'))"
    "get_msg w' m = (get_msg w m)\<lparr>Payload := VBytes body, ID := (case x of Inl e \<Rightarrow> [] | Inr i \<Rightarrow> i)\<rparr>"
    using s'(1) by (simp_all add: same w2(1,3))
  moreover have "read_map w' (Some a) = AList.update ''event_type'' (VString n) (read_map w (Some a))"
    unfolding same(2) by (rule w2(4))
  ultimately show ?thesis using r err_def by blast
qed

section \<open>An event on its way in\<close>

definition google_event_run :: "'u terminal \<Rightarrow> string \<Rightarrow> addr \<Rightarrow> gval \<Rightarrow> (('p, 'c, 'u) program, gerr option) act" where
  "google_event_run io n msg v w =
     (if n = ''DummyEvent1'' then sleeping_handler1 io msg v (set_Payload msg v w) else sleeping_default_handler io msg w)"

lemma google_event_run_returns: "\<exists>w'. google_event_run io n msg v w = (Ret None, w')"
  by (auto simp: google_event_run_def sleeping_handler1_def sleeping_default_handler_def intro: sleepy_returns)

lemma google_router_serves:
  assumes "google_router C io fv \<lparr>route_maps = [], builders = []\<rparr> = (Ret d, st)"
    and "valid_msg w msg" "map_of (meta_of w msg) ''event_type'' = Some (VString n)"
    and "Payload (get_msg w msg) = VBytes body" "\<forall>x. json_Unmarshal C (TStruct n) body x = (Ret (Inr (VStruct n fs)), x)"
  shows "HandlerFunc st d msg w = google_event_run io n msg (VStruct n fs) w"
proof -
  have struct: "type_assert (TStruct n) (VStruct n fs)" by (simp add: type_assert_def)
  have "Google_UnmarshallPayloadFromJson C (TStruct n) (HandleWithPayload (TStruct n) h) msg w
      = h msg (VStruct n fs) (set_Payload msg (VStruct n fs) w)" for h
    using assms(2,4,5) by (simp add: Google_UnmarshallPayloadFromJson_def andThen_def HandleWithPayload_def struct Let_def)
  then show ?thesis
    unfolding event_router_serves [OF assms(1) [unfolded google_router_def] assms(3)]
    by (auto simp: google_routes_def google_event_run_def)
qed

lemma google_created_subscriber:
  assumes "google_createSubscriber P io fv zero execute receive client subscription router v = (Ret (Inr e), v')"
    and "NewGoogleSubscriber zero client subscription [] = Inr sub"
  shows "metered_subscriber P io fv (receive sub) router [CircuitBreaker execute] v = (Ret e, v')"
  using assms by (auto simp: google_createSubscriber_def andThen_def split: prod.splits res.splits)

text \<open>
  Handling a message that carries a published event: with a closed breaker, which runs what it is
  given, and with an open one, which refuses.
\<close>

lemma google_event_handled:
  assumes "google_router C io fv \<lparr>route_maps = [], builders = []\<rparr> = (Ret router, st)"
    and sub: "NewGoogleSubscriber zero (Some receiver) subscription [] = Inr sub"
    and "google_createSubscriber P io fv zero execute receive (Some receiver) subscription router v = (Ret (Inr e), v')"
    and recs: "records P inc observe"
    and decode: "\<forall>x. json_Unmarshal C (TStruct n) body x = (Ret (Inr (VStruct n fs)), x)"
    and "ps_Data p = body" "wf_map (ps_Attributes p)" "map_of (ps_Attributes p) ''event_type'' = Some n"
    and "google_toMessage pf sub c p w = (m, w1)"
    and "Start e c0 w0 = (out, e1)"
  shows "\<exists>h. out = receive sub c0 h w0 \<and> se_handlerFn e1 = Some h
    \<and> ((\<forall>f. execute f = f) \<longrightarrow> (\<exists>w2 w3 w4 counter timer.
          env w2 = env w \<and> ID (get_msg w2 m) = ps_ID p \<and> Payload (get_msg w2 m) = VBytes body
        \<and> map_of (meta_of w2 m) = map_option VString \<circ> map_of (ps_Attributes p)
        \<and> google_event_run io n m (VStruct n fs) w2 = (Ret None, w3)
        \<and> google_callback pf sub (h st) c p w = (Ret (), w4)
        \<and> env w4 = rcv_Ack receiver (ps_handle p) ((env w3)\<lparr>prog_out :=
             subscriber_out inc observe io counter timer (clock w3 - clock w2) (ID (get_msg w3 m)) (meta_of w3 m) None (prog_out (env w3))\<rparr>)))
    \<and> (\<forall>err. (\<forall>f w. execute f w = (Ret (Some err), w)) \<longrightarrow>
        (\<exists>w4. google_callback pf sub (h st) c p w = (Ret (), w4) \<and> env w4 = rcv_Nack receiver (ps_handle p) (env w)))"
proof -
  obtain h counter timer where labels: "label_names counter = [''subscriber'', ''error'']" "label_names timer = [''subscriber'', ''error'']"
    and h: "h = (\<lambda>st. foldr (\<lambda>m inner. m inner) [CircuitBreaker execute] (foldr (\<lambda>m inner. m inner)
            (metered P io fv subscriberLabelsProducer ''handler'' counter timer) (HandlerFunc st router)))"
    and start: "out = receive sub c0 h w0" "se_handlerFn e1 = Some h"
    using metered_started [OF google_created_subscriber [OF assms(3) sub] assms(10)] by blast
  have opts: "gs_client sub = receiver" "parseAttributes (gs_options sub) = False"
    using sub by (auto simp: NewGoogleSubscriber_def)
  note facts = google_toMessage_facts [OF assms(9)]
  let ?d = "google_dispatcher sub (h st)" and ?del = "google_delivery_of sub p m"
  have m: "dl_Message ?del = m" by (simp add: google_delivery_of_def)
  obtain ackCtx fin w2 where prep: "handle_prepare ?d ?del w1 = ((ackCtx, fin), w2)" by (metis prod.exhaust)
  note same = handle_prepare_same [OF prep, unfolded m, OF facts(2)] and frame = handle_prepare_frame [OF prep]
  have w2: "env w2 = env w" "valid_msg w2 m" "meta_of w2 m = meta_of w1 m"
    using frame facts same(2) by (simp_all add: read_map_def)
  have msg: "ID (get_msg w2 m) = ps_ID p" "Payload (get_msg w2 m) = VBytes body"
    using same facts(3) assms(6) by simp_all
  have "attribute_value pf sub = VString" by (simp add: fun_eq_iff attribute_value_def opts(2))
  then have meta: "map_of (meta_of w2 m) = map_option VString \<circ> map_of (ps_Attributes p)"
    using assms(7) by (intro ext) (simp add: w2(3) facts(4) map_of_convert_entry)
  then have key: "map_of (meta_of w2 m) ''event_type'' = Some (VString n)" using assms(8) by simp
  note routed = google_router_serves [OF assms(1) w2(2) key msg(2) decode]
  have calm: "quiet (OnAckError (d_opts ?d))" "quiet (OnNackError (d_opts ?d))" "d_handler ?d = h st"
    by (simp_all add: google_dispatcher_def NewDispatcher_def quiet_def)
  have callback: "google_callback pf sub (h st) c p w = Handle ?d ?del w1" by (simp add: google_callback_def assms(9))
  have closed: "\<exists>w3 w4. google_event_run io n m (VStruct n fs) w2 = (Ret None, w3)
        \<and> google_callback pf sub (h st) c p w = (Ret (), w4)
        \<and> env w4 = rcv_Ack receiver (ps_handle p) ((env w3)\<lparr>prog_out :=
             subscriber_out inc observe io counter timer (clock w3 - clock w2) (ID (get_msg w3 m)) (meta_of w3 m) None (prog_out (env w3))\<rparr>)"
    if "\<forall>f. execute f = f"
  proof -
    have hd: "d_handler ?d (dl_Message ?del) w2 = foldr (\<lambda>m inner. m inner)
        (metered P io fv subscriberLabelsProducer ''handler'' counter timer) (HandlerFunc st router) (dl_Message ?del) w2"
      unfolding calm(3) by (simp add: h CircuitBreaker_def that)
    obtain w3 where w3: "google_event_run io n m (VStruct n fs) w2 = (Ret None, w3)" using google_event_run_returns by blast
    then have "HandlerFunc st router (dl_Message ?del) w2 = (Ret None, w3)" by (simp add: m routed)
    from metered_delivery [OF google_received.delivery_contract_axioms calm(1,2) labels hd recs prep this] w3
    show ?thesis by (auto simp: callback m Let_def opts(1))
  qed
  have "\<exists>w4. google_callback pf sub (h st) c p w = (Ret (), w4) \<and> env w4 = rcv_Nack receiver (ps_handle p) (env w)"
    if "\<forall>f w. execute f w = (Ret (Some err), w)" for err
  proof -
    have "d_handler ?d (dl_Message ?del) w2 = (Ret (Some err), w2)"
      unfolding calm(3) by (simp add: h CircuitBreaker_def that)
    from google_received.handled_once [OF calm(1,2) prep this] show ?thesis by (auto simp: callback opts(1) w2(1))
  qed
  with closed start w2(1) msg meta show ?thesis by blast
qed

section \<open>Properties\<close>

text \<open>C23: An event published through the Google program's engine is given to the topic's publisher once,
  without an ID and with its JSON text and the name of its type as an attribute; when the server
  takes it, the publish returns nil, is counted as a success, and the message has the server's ID.
  A message with that text and that attribute, given to the callback of the program's subscriber, is
  acked through its own handle after the handler of its type ran on the event itself (the default
  handler, for a type without a route, on the JSON text), and is counted once. But the circuit
  breaker is the outermost middleware: while it is open, every message is nacked at once, without
  its handler, and no counter, timer or error callback sees it.\<close>

theorem google_event_round_trip:
  assumes "google_createPublisher P io C fv (Some client) topic v = (Ret (Inr eng), v')"
    and "google_router C io fv \<lparr>route_maps = [], builders = []\<rparr> = (Ret router, st)"
    and "NewGoogleSubscriber zero (Some receiver) subscription [] = Inr sub"
    and "google_createSubscriber P io fv zero execute receive (Some receiver) subscription router x = (Ret (Inr e), x')"
    and "records P inc observe"
    and "valid_msg w m" "Metadata (get_msg w m) = Some a" "a < length (heap_maps w)" "ID (get_msg w m) = []"
    and "Payload (get_msg w m) = VStruct n fs"
    and "\<forall>x. json_Marshal C (VStruct n fs) x = (Ret (Inr body), x)"
    and "\<forall>x. json_Unmarshal C (TStruct n) body x = (Ret (Inr (VStruct n fs)), x)"
    and "google.own_cache client None (prog_cache (env w))"
    and "sent = event_ps_message fv body (AList.update ''event_type'' (VString n) (read_map w (Some a)))"
    and "ps_Publish client topic False (Context w m) sent (prog_client (env w)) = (Inr i, b)" "i \<noteq> []"
    and "PublishingEngine_Publish eng m w = ((r, w1), eng')"
    and "ps_Data p = ps_Data sent" "wf_map (ps_Attributes p)" "map_of (ps_Attributes p) = map_of (ps_Attributes sent)"
    and "wf_map (read_map w (Some a))"
    and "google_toMessage pf sub c p w2 = (m', w3)"
    and "Start e c0 w0 = (out, e1)"
  shows "r = Ret None \<and> prog_client (env w1) = b \<and> ID (get_msg w1 m) = i
    \<and> (\<exists>counter timer. prog_out (env w1) =
         publisher_out inc observe io counter timer 0 (ID (get_msg w1 m)) (meta_of w1 m) None (prog_out (env w)))
    \<and> (\<exists>h. out = receive sub c0 h w0 \<and> se_handlerFn e1 = Some h
      \<and> ((\<forall>f. execute f = f) \<longrightarrow> (\<exists>w4 w5 w6 counter timer.
            env w4 = env w2 \<and> ID (get_msg w4 m') = ps_ID p \<and> Payload (get_msg w4 m') = VBytes body
          \<and> map_of (meta_of w4 m') = map_option VString \<circ> map_of (ps_Attributes p)
          \<and> google_event_run io n m' (VStruct n fs) w4 = (Ret None, w5)
          \<and> google_callback pf sub (h st) c p w2 = (Ret (), w6)
          \<and> env w6 = rcv_Ack receiver (ps_handle p) ((env w5)\<lparr>prog_out :=
               subscriber_out inc observe io counter timer (clock w5 - clock w4) (ID (get_msg w5 m')) (meta_of w5 m') None (prog_out (env w5))\<rparr>)))
      \<and> (\<forall>err. (\<forall>f w. execute f w = (Ret (Some err), w)) \<longrightarrow>
          (\<exists>w6. google_callback pf sub (h st) c p w2 = (Ret (), w6) \<and> env w6 = rcv_Nack receiver (ps_handle p) (env w2))))"
proof -
  have server: "\<forall>j. (Inr i :: gerr + string) = Inr j \<longrightarrow> j \<noteq> []" using assms(16) by simp
  from google_event_published [OF assms(1,5-11,13) assms(15) [unfolded assms(14)] server assms(17)]
  have sent: "r = Ret None" "prog_client (env w1) = b" "get_msg w1 m = (get_msg w m)\<lparr>Payload := VBytes body, ID := i\<rparr>"
    "\<exists>counter timer. prog_out (env w1) =
         publisher_out inc observe io counter timer 0 (ID (get_msg w1 m)) (meta_of w1 m) None (prog_out (env w))"
    unfolding sum.case by blast+
  have "wf_map (AList.update ''event_type'' (VString n) (read_map w (Some a)))" using assms(21) by simp
  then have "map_of (ps_Attributes sent) ''event_type'' = Some n"
    by (simp add: assms(14) event_ps_message_def map_of_convert_entry go_maps)
  then have key: "map_of (ps_Attributes p) ''event_type'' = Some n" by (simp add: assms(20))
  have data: "ps_Data p = body" by (simp add: assms(14,18) event_ps_message_def)
  note got = google_event_handled [OF assms(2-5,12) data assms(19) key assms(22,23)]
  have "ID (get_msg w1 m) = i" by (simp add: sent(3))
  with sent(1,2,4) got show ?thesis by (intro conjI)
qed

text \<open>A server that numbers what it gets, a subscription that logs what it settles, and a breaker that is
  closed, for the witness.\<close>

type_synonym demo_google_program = "(nat, string list) google_program"

definition demo_event_receiver :: "(unit, ('b, string list) google_program) pubsub_receiver" where
  "demo_event_receiver = \<lparr>sub_Receive = (\<lambda>s z c f w. (Ret None, w)),
     rcv_Ack = (\<lambda>k x. x\<lparr>prog_out := prog_out x @ [''ack '' @ k]\<rparr>),
     rcv_Nack = (\<lambda>k x. x\<lparr>prog_out := prog_out x @ [''nack '' @ k]\<rparr>),
     status_NotFound = (\<lambda>e. False), gcp_Error = (\<lambda>e. [])\<rparr>"

definition demo_google_env :: demo_google_program where
  "demo_google_env = \<lparr>prog_cache = mp_zero, prog_client = 3, prog_out = []\<rparr>"

theorem google_event_round_trip_witness:
  "\<exists>eng router st sub e w1 eng' p w2 out e1 h w6.
      google_createPublisher demo_prom demo_terminal struct_codec (\<lambda>v. []) (Some demo_pubsub) ''t'' (start_world demo_google_env)
        = (Ret (Inr eng), start_world demo_google_env)
    \<and> google_router struct_codec demo_terminal (\<lambda>v. []) \<lparr>route_maps = [], builders = []\<rparr> = (Ret router, st)
    \<and> NewGoogleSubscriber () (Some demo_event_receiver) ''s'' [] = Inr sub
    \<and> google_createSubscriber demo_prom demo_terminal (\<lambda>v. []) () (\<lambda>f. f) (\<lambda>s c h w. (Ret None, w)) (Some demo_event_receiver) ''s'' router w1
        = (Ret (Inr e), w1)
    \<and> PublishingEngine_Publish eng 0 (snd (NewMessage Background demo_event (start_world demo_google_env))) = ((Ret None, w1), eng')
    \<and> ID (get_msg w1 0) = ''3'' \<and> Start e Background w1 = (out, e1) \<and> se_handlerFn e1 = Some h
    \<and> google_callback (\<lambda>v. None) sub (h st) Background p w2 = (Ret (), w6)
    \<and> last (prog_out (env w6)) = ''ack h''"
proof -
  let ?w = "snd (NewMessage Background demo_event (start_world demo_google_env))" and ?v = "VStruct ''DummyEvent1'' [VString ''value1'']"
  obtain eng where pub: "google_createPublisher demo_prom demo_terminal struct_codec (\<lambda>v. []) (Some demo_pubsub) ''t'' (start_world demo_google_env)
      = (Ret (Inr eng), start_world demo_google_env)"
    by (simp add: google_createPublisher_def event_google_publisher metered_publisher_def andThen_def CreatePromOutgoingCount_def
        CreatePromOutgoingDuration_def register_collector_def on_out_def demo_prom_def start_world_def demo_google_env_def)
  obtain router :: "demo_google_program router" and st where router:
    "google_router struct_codec demo_terminal (\<lambda>v. []) \<lparr>route_maps = [], builders = []\<rparr> = (Ret router, st)"
    by (simp add: google_router_def event_router_def NewRouter_def Let_def AddDefaultHandler_def)
  obtain sub :: "(unit, demo_google_program) google_subscriber" where sub: "NewGoogleSubscriber () (Some demo_event_receiver) ''s'' [] = Inr sub" by (simp add: NewGoogleSubscriber_def)
  obtain r w1 eng' where run: "PublishingEngine_Publish eng 0 ?w = ((r, w1), eng')" by (metis prod.exhaust)
  obtain e where e: "google_createSubscriber demo_prom demo_terminal (\<lambda>v. []) () (\<lambda>f. f) (\<lambda>s c h w. (Ret None, w)) (Some demo_event_receiver) ''s'' router w1
      = (Ret (Inr e), w1)"
    by (simp add: google_createSubscriber_def sub metered_subscriber_def andThen_def CreatePromIncomingCount_def
        CreatePromIncomingDuration_def register_collector_def on_out_def demo_prom_def)
  define sent where "sent = event_ps_message (\<lambda>v. []) ''value1'' (AList.update ''event_type'' (VString ''DummyEvent1'') (read_map ?w (Some 0)))"
  let ?p = "\<lparr>ps_ID = ''3'', ps_Data = ps_Data sent, ps_OrderingKey = [], ps_Attributes = ps_Attributes sent, ps_handle = ''h''\<rparr>"
  have w: "valid_msg ?w 0" "Metadata (get_msg ?w 0) = Some 0" "0 < length (heap_maps ?w)" "ID (get_msg ?w 0) = []"
    "Payload (get_msg ?w 0) = ?v"
    by (simp_all add: message_defs world_defs start_world_def demo_event_def)
  have cache: "google.own_cache demo_pubsub None (prog_cache (env ?w))" and wf: "wf_map (read_map ?w (Some 0))"
    and call: "ps_Publish demo_pubsub ''t'' False (Context ?w 0) sent (prog_client (env ?w)) = (Inr (show_nat 3), 4)"
    by (simp_all add: message_defs world_defs start_world_def demo_google_env_def google.own_cache_zero demo_pubsub_def)
  have three: "show_nat 3 = ''3''" by code_simp
  then have i: "show_nat 3 \<noteq> []" by simp
  have codec: "\<forall>w :: demo_google_program world. json_Marshal struct_codec ?v w = (Ret (Inr ''value1''), w)"
    "\<forall>w :: demo_google_program world. json_Unmarshal struct_codec (TStruct ''DummyEvent1'') ''value1'' w = (Ret (Inr ?v), w)"
    by (simp_all add: struct_codec_def)
  have p: "ps_Data ?p = ps_Data sent" "wf_map (ps_Attributes ?p)" "map_of (ps_Attributes ?p) = map_of (ps_Attributes sent)"
    by (simp_all add: sent_def event_ps_message_def)
  obtain m' w3 where msg: "google_toMessage (\<lambda>v. None) sub Background ?p w1 = (m', w3)" by fastforce
  obtain out e1 where start: "Start e Background w1 = (out, e1)" by fastforce
  note trip = google_event_round_trip [OF pub router sub e demo_records w codec cache sent_def call i run p wf msg start]
  then have sent: "r = Ret None" "ID (get_msg w1 0) = ''3''" unfolding three by (blast, blast)
  have "\<forall>f :: (demo_google_program, gerr option) act. (\<lambda>f. f) f = f" by simp
  with trip obtain h w6 x where handled: "se_handlerFn e1 = Some h"
    "google_callback (\<lambda>v. None) sub (h st) Background ?p w1 = (Ret (), w6)" "env w6 = rcv_Ack demo_event_receiver (ps_handle ?p) x"
    by blast
  have "last (prog_out (env w6)) = ''ack h''" unfolding handled(3) by (simp add: demo_event_receiver_def)
  with pub router sub e run [unfolded sent(1)] sent(2) start handled(1,2) show ?thesis
    by (intro exI conjI)
qed

section \<open>Running \<open>main\<close>\<close>

lemma on_client_run:
  "f (with_env (prog_client (env w)) w) = (r, (with_env (prog_client (env w)) w)\<lparr>env := b\<rparr>) \<Longrightarrow>
   on_client f w = (r, w\<lparr>env := (env w)\<lparr>prog_client := b\<rparr>\<rparr>)"
  by (simp add: on_client_def Let_def with_env_same)

text \<open>The admin calls of \<open>main\<close>: a client, the topic and the subscription.\<close>

lemma google_emulator_set_up:
  fixes w :: "('p, 'c, 'u) program world"
  defines "at \<equiv> \<lambda>b. w\<lparr>env := (env w)\<lparr>prog_client := b\<rparr>\<rparr>"
  assumes "new_client Background ''test-project'' (prog_client (env w)) = (Inr emu, b1)"
    and "CreateTopic emu Background (topicPath emu (''T'' @ uuid @ ''test-topic'')) b1 = (None, b2)"
    and "CreateSubscription emu Background (subscriptionPath emu (''T'' @ uuid @ ''test-subscription''))
          (topicPath emu (''T'' @ uuid @ ''test-topic'')) False b2 = (None, b3)"
  shows "on_client (NewTestClient new_client Background ''test-project'') w = (Ret emu, at b1)"
    and "on_client (CreateTestTopic uuid emu Background ''test-topic'') (at b1)
      = (Ret \<lparr>tt_client = emu, tt_Prefix = ''T'' @ uuid, tt_Identifier = ''test-topic'', tt_Name = ''T'' @ uuid @ ''test-topic''\<rparr>, at b2)"
    and "on_client (CreateTestSubscription \<lparr>tt_client = emu, tt_Prefix = ''T'' @ uuid, tt_Identifier = ''test-topic'',
          tt_Name = ''T'' @ uuid @ ''test-topic''\<rparr> Background ''test-subscription'' False) (at b2)
      = (Ret \<lparr>ts_client = emu, ts_Prefix = ''T'' @ uuid, ts_Identifier = ''test-subscription'',
          ts_Name = ''T'' @ uuid @ ''test-subscription''\<rparr>, at b3)"
proof -
  note acts = andThen_def on_env_def must_call_def Let_def
  show "on_client (NewTestClient new_client Background ''test-project'') w = (Ret emu, at b1)"
    unfolding at_def by (rule on_client_run) (simp add: NewTestClient_def acts assms(2))
  show "on_client (CreateTestTopic uuid emu Background ''test-topic'') (at b1)
      = (Ret \<lparr>tt_client = emu, tt_Prefix = ''T'' @ uuid, tt_Identifier = ''test-topic'', tt_Name = ''T'' @ uuid @ ''test-topic''\<rparr>, at b2)"
    unfolding at_def by (subst on_client_run [where b = b2]) (use assms(3) in \<open>simp_all add: CreateTestTopic_def acts\<close>)
  show "on_client (CreateTestSubscription \<lparr>tt_client = emu, tt_Prefix = ''T'' @ uuid, tt_Identifier = ''test-topic'',
          tt_Name = ''T'' @ uuid @ ''test-topic''\<rparr> Background ''test-subscription'' False) (at b2)
      = (Ret \<lparr>ts_client = emu, ts_Prefix = ''T'' @ uuid, ts_Identifier = ''test-subscription'',
          ts_Name = ''T'' @ uuid @ ''test-subscription''\<rparr>, at b3)"
    unfolding at_def by (subst on_client_run [where b = b3]) (use assms(4) in \<open>simp_all add: CreateTestSubscription_def acts\<close>)
qed

lemma google_publish_event:
  assumes "google_createPublisher P io C fv (Some client) topic v = (Ret (Inr eng), v')" "records P inc observe" "registry P io inc observe names"
    and "\<forall>x. json_Marshal C (VStruct n fs) x = (Ret (Inr body), x)"
    and "google.own_cache client None (prog_cache (env w))"
    and "ps_Publish client topic False Background (event_ps_message fv body [(''event_type'', VString n)]) (prog_client (env w)) = (x, b)"
    and "\<forall>i. x = Inr i \<longrightarrow> i \<noteq> []"
  shows "\<exists>eng' w'. publish_event eng (VStruct n fs) w = (case x of Inr i \<Rightarrow> (Ret eng', w') | Inl e \<Rightarrow> (Panic (PErr e), w'))
    \<and> prog_client (env w') = b \<and> names (prog_out (env w')) = names (prog_out (env w))"
proof -
  obtain m w1 where new: "NewMessage Background (VStruct n fs) w = (m, w1)" by fastforce
  note fresh = new_message_facts [OF new]
  obtain r w' eng' where run: "PublishingEngine_Publish eng m w1 = ((r, w'), eng')" by (metis prod.exhaust)
  have msg: "Metadata (get_msg w1 m) = Some (length (heap_maps w))" "ID (get_msg w1 m) = []" "Payload (get_msg w1 m) = VStruct n fs"
    "google.own_cache client None (prog_cache (env w1))"
    using fresh assms(5) by simp_all
  have "ps_Publish client topic False (Context w1 m)
      (event_ps_message fv body (AList.update ''event_type'' (VString n) (read_map w1 (Some (length (heap_maps w)))))) (prog_client (env w1)) = (x, b)"
    using fresh assms(6) by (simp add: Context_def)
  from google_event_published [OF assms(1,2) fresh(2) msg(1) fresh(5) msg(2,3) assms(4) msg(4) this assms(7) run]
  obtain err where "err = (case x of Inl e \<Rightarrow> Some e | Inr i \<Rightarrow> None)" "r = Ret err" "prog_client (env w') = b"
    and "\<exists>counter timer. prog_out (env w') =
       publisher_out inc observe io counter timer 0 (ID (get_msg w' m)) (meta_of w' m) err (prog_out (env w1))" by blast
  moreover from this(4) fresh(6) have "names (prog_out (env w')) = names (prog_out (env w))"
    using publisher_out_names [OF assms(3)] by auto
  ultimately show ?thesis using run
    by - (rule exI [of _ eng'], rule exI [of _ w'], cases x; simp add: publish_event_def must_publish_def new)
qed

text \<open>C38: \<open>main\<close> of the Google program makes a topic and a subscription to it on the emulator, under one
  fresh prefix, before it publishes; the event goes to exactly that topic, and \<open>Receive\<close> runs on
  exactly that subscription, with the router's handler behind the metered engine and the circuit
  breaker outermost. A failing publish ends the program with the client's error before it receives
  anything; otherwise it ends normally exactly when \<open>Receive\<close> returns nil. The registry must not hold
  the program's metrics yet.\<close>

theorem google_main_run:
  assumes reg: "registry P io inc observe names" and new: "names (prog_out (env w)) \<inter> (outgoing_names \<union> incoming_names) = {}"
    and "records P inc observe"
    and "\<forall>x. json_Marshal C (VStruct ''DummyEvent1'' [VString ''value1'']) x = (Ret (Inr body), x)"
    and "prog_cache (env w) = mp_zero"
    and "topic = ''T'' @ uuid @ ''test-topic''" "subscription = ''T'' @ uuid @ ''test-subscription''"
    and "new_client Background ''test-project'' (prog_client (env w)) = (Inr emu, b1)"
    and "CreateTopic emu Background (topicPath emu topic) b1 = (None, b2)"
    and "CreateSubscription emu Background (subscriptionPath emu subscription) (topicPath emu topic) False b2 = (None, b3)"
    and "new_pubsub Background ''test-project'' b3 = (Inr (client, receiver), b4)"
    and "ps_Publish client topic False Background (event_ps_message fv body [(''event_type'', VString ''DummyEvent1'')]) b4 = (x, b5)"
    and "\<forall>i. x = Inr i \<longrightarrow> i \<noteq> []"
    and "google_router C io fv \<lparr>route_maps = [], builders = []\<rparr> = (Ret router, st)"
  shows "\<exists>sub w1 w2 h counter timer.
      google_main P io C fv zero execute Receive new_client new_pubsub uuid runCtx w =
        (case x of
           Inl e \<Rightarrow> (Panic (PErr e), w1)
         | Inr i \<Rightarrow> main_end io (Receive sub runCtx h w2))
    \<and> prog_client (env w1) = b5 \<and> prog_client (env w2) = b5
    \<and> gs_client sub = receiver \<and> gs_subscription sub = subscription
    \<and> h = CircuitBreaker execute (foldr (\<lambda>m inner. m inner)
            (metered P io fv subscriberLabelsProducer ''handler'' counter timer) (HandlerFunc st router))"
proof -
  let ?w = "\<lambda>b. w\<lparr>env := (env w)\<lparr>prog_client := b\<rparr>\<rparr>"
  define pre where "pre = ''T'' @ uuid"
  note up = google_emulator_set_up [where new_client = new_client and w = w, OF assms(8) assms(9) [unfolded assms(6)] assms(10) [unfolded assms(6,7)],
      folded assms(6,7), folded pre_def]
  have 4: "on_client (on_env (new_pubsub Background ''test-project'')) (?w b3) = (Ret (Inr (client, receiver)), ?w b4)"
    by (subst on_client_run [where b = b4]) (simp_all add: on_env_def assms(11))
  have vacant: "names (prog_out (env (?w b4))) \<inter> outgoing_names = {}" using new by auto
  obtain eng u where "metered_publisher P io fv (publisher_handler (Google_Publish (event_google_config client topic fv)))
      [AddStructNameToMetadata, Google_MarshallPayloadToJson C] (?w b4) = (Ret eng, (?w b4)\<lparr>env := (env (?w b4))\<lparr>prog_out := u\<rparr>\<rparr>)"
    and out: "names u = names (prog_out (env (?w b4))) \<union> outgoing_names"
    using metered_publisher_returns [OF reg vacant] by blast
  then have create: "google_createPublisher P io C fv (Some client) topic (?w b4)
      = (Ret (Inr eng), (?w b4)\<lparr>env := (env (?w b4))\<lparr>prog_out := u\<rparr>\<rparr>)"
    by (simp add: google_createPublisher_def event_google_publisher andThen_def)
  have u: "names u = names (prog_out (env w)) \<union> outgoing_names" using out by simp
  let ?w0 = "(?w b4)\<lparr>env := (env (?w b4))\<lparr>prog_out := u\<rparr>\<rparr>"
  have "google.own_cache client None (prog_cache (env ?w0))"
    "ps_Publish client topic False Background (event_ps_message fv body [(''event_type'', VString ''DummyEvent1'')])
       (prog_client (env ?w0)) = (x, b5)"
    using assms(5,12) by (simp_all add: google.own_cache_zero)
  from google_publish_event [OF create assms(3) reg assms(4) this assms(13)]
  obtain eng1 w1 where "publish_event eng (VStruct ''DummyEvent1'' [VString ''value1'']) ?w0
      = (case x of Inr i \<Rightarrow> (Ret eng1, w1) | Inl e \<Rightarrow> (Panic (PErr e), w1))" and w1: "prog_client (env w1) = b5" "names (prog_out (env w1)) = names u"
    by auto
  then have p: "publish_event eng (VStruct ''DummyEvent1'' [VString ''value1'']) (w\<lparr>env := (env w)\<lparr>prog_client := b4, prog_out := u\<rparr>\<rparr>)
      = (case x of Inr i \<Rightarrow> (Ret eng1, w1) | Inl e \<Rightarrow> (Panic (PErr e), w1))" by simp
  obtain sub where sub: "NewGoogleSubscriber zero (Some receiver) subscription [] = Inr sub" "gs_client sub = receiver" "gs_subscription sub = subscription"
    by (simp add: NewGoogleSubscriber_def)
  let ?R = "\<lambda>s c h. Receive s c (h st)"
  have free: "names (prog_out (env w1)) \<inter> incoming_names = {}" using new names_disjoint unfolding w1(2) u by blast
  obtain e u' where me: "metered_subscriber P io fv (?R sub) router [CircuitBreaker execute] w1 = (Ret e, w1\<lparr>env := (env w1)\<lparr>prog_out := u'\<rparr>\<rparr>)"
    using metered_subscriber_returns [OF reg free] by blast
  then have s: "google_createSubscriber P io fv zero execute ?R (Some receiver) subscription router w1
      = (Ret (Inr e), w1\<lparr>env := (env w1)\<lparr>prog_out := u'\<rparr>\<rparr>)"
    by (simp add: google_createSubscriber_def sub(1) andThen_def)
  let ?w2 = "w1\<lparr>env := (env w1)\<lparr>prog_out := u'\<rparr>\<rparr>"
  obtain out en where start: "Start e runCtx ?w2 = (out, en)" by fastforce
  from metered_started [OF me start]
  obtain counter timer where out: "out = Receive sub runCtx (CircuitBreaker execute (foldr (\<lambda>m inner. m inner)
      (metered P io fv subscriberLabelsProducer ''handler'' counter timer) (HandlerFunc st router))) ?w2"
    by auto
  have "google_main P io C fv zero execute Receive new_client new_pubsub uuid runCtx w =
      (case x of Inl e \<Rightarrow> (Panic (PErr e), w1) | Inr i \<Rightarrow> main_end io out)"
    by (cases x) (simp_all add: google_main_def andThen_def up 4 create p assms(14) s run_engine_end start)
  with w1(1) sub(2,3) show ?thesis unfolding out
    by (intro exI [of _ sub] exI [of _ w1] exI [of _ ?w2] exI [of _ counter] exI [of _ timer] exI conjI)
      (assumption | rule refl | simp)+
qed

definition demo_topic_client :: "'b pubsub_client" where
  "demo_topic_client = \<lparr>ps_Publish = (\<lambda>t en k a e. (Inr ''1'', e)), ps_ResumePublish = (\<lambda>t en k e. e), ps_Stop = (\<lambda>t en e. e)\<rparr>"

type_synonym demo_emulated_program = "(string set \<times> string set, string set \<times> string list) google_program"

definition demo_emulated_env :: demo_emulated_program where
  "demo_emulated_env = \<lparr>prog_cache = mp_zero, prog_client = ({}, {}), prog_out = ({}, [])\<rparr>"

definition idle_receiver :: "(unit, 'e) pubsub_receiver" where
  "idle_receiver = \<lparr>sub_Receive = (\<lambda>s z c f w. (Ret None, w)), rcv_Ack = (\<lambda>k x. x), rcv_Nack = (\<lambda>k x. x),
     status_NotFound = (\<lambda>e. False), gcp_Error = (\<lambda>e. [])\<rparr>"

theorem google_main_run_witness:
  "\<exists>w'. google_main demo_registry demo_screen struct_codec (\<lambda>v. []) () (\<lambda>f. f) (\<lambda>s c h w. (Ret None, w))
       (\<lambda>c p e. (Inr demo_emulator, e)) (\<lambda>c p e. (Inr (demo_topic_client, idle_receiver), e)) ''u'' Background
       (start_world demo_emulated_env) = (Ret (), w')
     \<and> fst (prog_client (env w')) = {''projects/p/topics/Tutest-topic''}"
proof -
  let ?w = "start_world demo_emulated_env"
  let ?t = "''T'' @ ''u'' @ ''test-topic''" and ?s = "''T'' @ ''u'' @ ''test-subscription''"
  have free: "fst (prog_out (env ?w)) \<inter> (outgoing_names \<union> incoming_names) = {}"
    by (simp add: start_world_def demo_emulated_env_def)
  have codec: "\<forall>x :: demo_emulated_program world. json_Marshal struct_codec (VStruct ''DummyEvent1'' [VString ''value1'']) x = (Ret (Inr ''value1''), x)"
    by (simp add: struct_codec_def)
  have zero: "prog_cache (env ?w) = mp_zero" and none: "prog_client (env ?w) = ({}, {})"
    by (simp_all add: start_world_def demo_emulated_env_def)
  have admin: "CreateTopic demo_emulator Background (topicPath demo_emulator ?t) ({}, {}) = (None, {topicPath demo_emulator ?t}, {})"
    "CreateSubscription demo_emulator Background (subscriptionPath demo_emulator ?s) (topicPath demo_emulator ?t) False
       ({topicPath demo_emulator ?t}, {}) = (None, {topicPath demo_emulator ?t}, {subscriptionPath demo_emulator ?s})"
    by (simp_all add: demo_emulator_def)
  have new: "(\<lambda>c p e. (Inr demo_emulator :: gerr + (string set \<times> string set) emulator_client, e)) Background ''test-project'' (prog_client (env ?w))
      = (Inr demo_emulator, ({}, {}))"
    by (simp add: none)
  obtain router :: "demo_emulated_program router" and st where router:
    "google_router struct_codec demo_screen (\<lambda>v. []) \<lparr>route_maps = [], builders = []\<rparr> = (Ret router, st)"
    by (simp add: google_router_def event_router_def NewRouter_def Let_def AddDefaultHandler_def)
  have server: "ps_Publish demo_topic_client ?t False Background m e = (Inr ''1'', e)" for m and e :: "string set \<times> string set"
    by (simp add: demo_topic_client_def)
  have i: "\<forall>i. (Inr ''1'' :: gerr + string) = Inr i \<longrightarrow> i \<noteq> []" by simp
  have pubsub: "(\<lambda>c p e. (Inr (demo_topic_client, idle_receiver) :: gerr + (string set \<times> string set) pubsub_client
      \<times> (unit, demo_emulated_program) pubsub_receiver, e)) Background ''test-project'' e = (Inr (demo_topic_client, idle_receiver), e)"
    for e :: "string set \<times> string set" by simp
  from google_main_run [where new_client = "\<lambda>c p e. (Inr demo_emulator, e)"
      and new_pubsub = "\<lambda>c p e. (Inr (demo_topic_client, idle_receiver), e)" and zero = "()" and execute = "\<lambda>f. f"
      and Receive = "\<lambda>s c h w. (Ret None, w)" and runCtx = Background and uuid = "''u''",
      OF demo_registry_laws(2) free demo_registry_laws(1) codec zero refl refl new admin pubsub server i router]
  obtain w2 where "google_main demo_registry demo_screen struct_codec (\<lambda>v. []) () (\<lambda>f. f) (\<lambda>s c h w. (Ret None, w))
       (\<lambda>c p e. (Inr demo_emulator, e)) (\<lambda>c p e. (Inr (demo_topic_client, idle_receiver), e)) ''u'' Background ?w
       = main_end demo_screen (Ret None, w2)"
    "prog_client (env w2) = ({topicPath demo_emulator ?t}, {subscriptionPath demo_emulator ?s})"
    unfolding sum.case by metis
  then show ?thesis
    by (simp add: main_end_def on_out_def topicPath_def demo_emulator_def split: prod.split)
qed

end
