(* ===== verification/Example_Channels.thy ===== *)
theory Example_Channels
  imports Examples Channel_Subscriber
begin

text \<open>
  \<open>examples/channels/channel.go\<close>: the program that publishes and receives over a Go channel. Its engines
  are throttled, its events travel as structs without an encoding, and its labels differ from those
  of the other programs. The client of the program is the channel, whose 100 places the two messages
  of \<open>main\<close> never fill, and the retry channel of the subscriber.
\<close>

record channel_client =
  ch_input :: gochan
  ch_retry :: "addr list"

type_synonym ('p, 'u) channel_program = "('p, channel_client, 'u) program"

section \<open>The publishing engine\<close>

definition channel_publisher :: "('p, 'u) channel_program handler" where
  "channel_publisher msg w =
     (let x = env w; (r, c) = ChannelPublisher_Publish (Some msg) (ch_input (prog_client x))
      in (r, w\<lparr>env := x\<lparr>prog_client := (prog_client x)\<lparr>ch_input := c\<rparr>\<rparr>\<rparr>))"

definition publisher_label :: "'e labels_producer" where
  "publisher_label msg err w = (Ret [(''publisher'', ''my_publisher'')], w)"

definition channel_publishing_engine ::
  "'u prom \<Rightarrow> (gval \<Rightarrow> string) \<Rightarrow> (('p, 'u) channel_program, ('p, 'u) channel_program publishing_engine) act"
where
  "channel_publishing_engine P fv =
     (let pubEngine = NewPublishingEngine channel_publisher
      in andThen (Throttle 1 1000000000) (\<lambda>throttle.
         andThen (CreatePromOutgoingCount P [''publisher'']) (\<lambda>counter.
         andThen (CreatePromOutgoingDuration P [''publisher'']) (\<lambda>timer w.
           (Ret (pe_add_all pubEngine
              [throttle,
               PrometheusMetricsCountVec (\<lambda>ls. on_out (prom_Inc P counter ls)) publisher_label,
               PrometheusMetricsDurationVec (\<lambda>ls d. on_out (prom_Observe P timer ls d)) publisher_label,
               ConvertPanicToError fv]), w)))))"

definition publish_with_type ::
  "'e publishing_engine \<Rightarrow> gval \<Rightarrow> string \<Rightarrow> ('e, 'e publishing_engine) act"
where
  "publish_with_type pubEngine v name w =
     (let (msg, w1) = NewMessage Background v w
      in andThen (WithMetadata msg ''event_type'' (VString name)) (must_publish pubEngine) w1)"

section \<open>The subscription engine\<close>

text \<open>Sleeping for a random time and reporting it, as two of the handlers do.\<close>

definition nap :: "'u terminal \<Rightarrow> string \<Rightarrow> (('p, 'c, 'u) program, gerr option) act" where
  "nap io who w =
     (let (k, u) = Intn io 5 (prog_out (env w));
          sec = k + 2;
          start = clock w;
          now = start + sec * 1000000000
      in (Ret None, w\<lparr>clock := now, env := (env w)\<lparr>prog_out := term_Print io
            (who @ '' at '' @ StampMilli io start @ '' finished at '' @ StampMilli io now @ newline) u\<rparr>\<rparr>))"

definition channel_handler1 :: "'u terminal \<Rightarrow> addr \<Rightarrow> gval \<Rightarrow> (('p, 'c, 'u) program, gerr option) act" where
  "channel_handler1 io msg dummyEvent1 w =
     nap io (''Dummy event handler 1 handler received message '' @ ID (get_msg w msg)) w"

definition channel_handler2 :: "'u terminal \<Rightarrow> addr \<Rightarrow> gval \<Rightarrow> (('p, 'c, 'u) program, gerr option) act" where
  "channel_handler2 io msg dummyEvent2 w =
     on_out (\<lambda>u. (Ret None, term_Print io
       (''Dummy event handler 2 handler received message '' @ ID (get_msg w msg) @ '' at '' @ StampMilli io (clock w) @ newline) u)) w"

definition channel_default_handler :: "'u terminal \<Rightarrow> ('p, 'c, 'u) program handler" where
  "channel_default_handler io msg w = nap io (''Default handler received message '' @ ID (get_msg w msg)) w"

definition channel_routes :: "'u terminal \<Rightarrow> ('p, 'c, 'u) program event_route list" where
  "channel_routes io =
     [(''DummyEvent1'', [], HandleWithPayload (TStruct ''DummyEvent1'') (channel_handler1 io)),
      (''DummyEvent2'', [], HandleWithPayload (TStruct ''DummyEvent2'') (channel_handler2 io))]"

definition channel_router ::
  "'u terminal \<Rightarrow> (gval \<Rightarrow> string) \<Rightarrow> ('p, 'c, 'u) program rstore
     \<Rightarrow> ('p, 'c, 'u) program router res \<times> ('p, 'c, 'u) program rstore"
where
  "channel_router io fv = event_router fv (channel_routes io) (channel_default_handler io)"

definition success_labels :: "gerr option \<Rightarrow> labels" where
  "success_labels err = [(''subscriber'', ''my_subscriber''), (''success'', FormatBool (err = None))]"

definition success_producer :: "'e labels_producer" where
  "success_producer msg err w = (Ret (success_labels err), w)"

definition channel_subscription_engine ::
  "'u prom \<Rightarrow> 'u terminal \<Rightarrow> (gval \<Rightarrow> string)
     \<Rightarrow> (ctx \<Rightarrow> (('p, 'c, 'u) program rstore \<Rightarrow> ('p, 'c, 'u) program handler) \<Rightarrow> (('p, 'c, 'u) program, gerr option) act)
     \<Rightarrow> ('p, 'c, 'u) program router \<Rightarrow> (('p, 'c, 'u) program, ('p, 'c, 'u) program subscription_engine) act"
where
  "channel_subscription_engine P io fv receive router =
     (let subEngine = NewSubscriptionEngine receive router
      in andThen (Throttle 1 500000000) (\<lambda>throttle.
         andThen (CreatePromIncomingCount P [''subscriber'', ''success'']) (\<lambda>counter.
         andThen (CreatePromIncomingDuration P [''subscriber'', ''success'']) (\<lambda>timer w.
           (Ret (add_all subEngine ([ContextTimeout 30000000000, throttle]
              @ metered P io fv success_producer ''handler'' counter timer)), w)))))"

section \<open>\<open>main\<close>\<close>

definition make_channel :: "(('p, 'u) channel_program, unit) act" where
  "make_channel w = (Ret (), w\<lparr>env := (env w)\<lparr>prog_client :=
     \<lparr>ch_input = \<lparr>buf = [], chan_closed = False\<rparr>, ch_retry = []\<rparr>\<rparr>\<rparr>)"

definition channel_main ::
  "'u prom \<Rightarrow> 'u terminal \<Rightarrow> (gval \<Rightarrow> string)
     \<Rightarrow> (channel_subscriber \<Rightarrow> ctx \<Rightarrow> ('p, 'u) channel_program handler \<Rightarrow> (('p, 'u) channel_program, gerr option) act)
     \<Rightarrow> ctx \<Rightarrow> (('p, 'u) channel_program, unit) act"
where
  "channel_main P io fv Receive runCtx =
     andThen make_channel (\<lambda>_.
     andThen (channel_publishing_engine P fv) (\<lambda>pubEngine.
     andThen (publish_with_type pubEngine (VStruct ''DummyEvent1'' [VString ''value1'']) ''DummyEvent1'') (\<lambda>pubEngine.
     andThen (publish_with_type pubEngine (VStruct ''DummyEvent2'' [VString ''value2'']) ''DummyEvent2'') (\<lambda>_.
       case channel_router io fv \<lparr>route_maps = [], builders = []\<rparr> of
         (Panic q, st) \<Rightarrow> (\<lambda>w. (Panic q, w))
       | (Ret router, st) \<Rightarrow>
           andThen (channel_subscription_engine P io fv (\<lambda>c h. Receive (NewChannelSubscriber 10) c (h st)) router)
             (\<lambda>subEngine. run_engine io subEngine runCtx)))))"

section \<open>Facts on the engines\<close>

lemma throttle_made:
  "0 < d \<Longrightarrow> Throttle 1 d w = (Ret (throttle_with (length (tickers w))),
     w\<lparr>tickers := tickers w @ [\<lparr>period = d, next_tick = clock w + d\<rparr>]\<rparr>)"
  by (simp add: Throttle_def andThen_def NewTicker_def trunc_div_def)

lemma channel_labels:
  "label_names c = [''publisher''] \<Longrightarrow> fits c [(''publisher'', ''my_publisher'')]"
  "label_names c = [''subscriber'', ''success''] \<Longrightarrow> fits c (success_labels err)"
  by (simp_all add: fits_def success_labels_def)

lemma nap_frame:
  "\<exists>w'. nap io who w = (Ret None, w') \<and> heap_msgs w' = heap_msgs w \<and> heap_maps w' = heap_maps w
     \<and> prog_client (env w') = prog_client (env w)"
  by (simp add: nap_def Let_def split: prod.split)

lemma channel_engine_made:
  fixes w :: "('p, 'u) channel_program world"
  assumes reg: "registry P io inc observe names" and new: "names (prog_out (env w)) \<inter> outgoing_names = {}"
  shows "\<exists>counter timer eng. label_names counter = [''publisher''] \<and> label_names timer = [''publisher'']
    \<and> channel_publishing_engine P fv w = (Ret eng, w\<lparr>tickers := tickers w @
          [\<lparr>period = 1000000000, next_tick = clock w + 1000000000\<rparr>],
        env := (env w)\<lparr>prog_out := registered P counter timer (prog_out (env w))\<rparr>\<rparr>)
    \<and> names (registered P counter timer (prog_out (env w))) = names (prog_out (env w)) \<union> outgoing_names
    \<and> (\<forall>msg v. fst (PublishingEngine_Publish eng msg v) = throttle_with (length (tickers w))
          (PrometheusMetricsCountVec (\<lambda>ls. on_out (prom_Inc P counter ls)) publisher_label
            (PrometheusMetricsDurationVec (\<lambda>ls d. on_out (prom_Observe P timer ls d)) publisher_label
              (ConvertPanicToError fv channel_publisher))) msg v)"
proof -
  let ?w = "w\<lparr>tickers := tickers w @ [\<lparr>period = 1000000000, next_tick = clock w + 1000000000\<rparr>]\<rparr>"
  have vacant: "names (prog_out (env ?w)) \<inter> outgoing_names = {}" using new by simp
  have throttle: "andThen (Throttle 1 1000000000) k w = k (throttle_with (length (tickers w))) ?w" for k
    by (simp add: andThen_def throttle_made)
  show ?thesis
    unfolding channel_publishing_engine_def Let_def throttle register_outgoing(1) [OF reg vacant]
    using register_outgoing(2) [OF reg vacant, of "[''publisher'']"]
    by - (rule exI [of _ "outgoing_count [''publisher'']"], rule exI [of _ "outgoing_duration [''publisher'']"],
      simp add: outgoing_count_def outgoing_duration_def
        pe_add_all_fresh NewPublishingEngine_def PublishingEngine_Publish_def Wrap_foldr foldl_Add NewChain_def)
qed

text \<open>One publish: it waits for the throttle, and the message is in the channel and counted.\<close>

lemma channel_publish_run:
  assumes "records P inc observe" "label_names counter = [''publisher'']" "label_names timer = [''publisher'']"
    and "ch_input (prog_client (env w)) = \<lparr>buf = ms, chan_closed = False\<rparr>"
  shows "throttle_with i
      (PrometheusMetricsCountVec (\<lambda>ls. on_out (prom_Inc P counter ls)) publisher_label
        (PrometheusMetricsDurationVec (\<lambda>ls d. on_out (prom_Observe P timer ls d)) publisher_label
          (ConvertPanicToError fv channel_publisher))) msg w
    = (Ret None, (tick_recv i w)\<lparr>env := (env w)\<lparr>
        prog_client := (prog_client (env w))\<lparr>ch_input := \<lparr>buf = ms @ [Some msg], chan_closed = False\<rparr>\<rparr>,
        prog_out := inc counter [(''publisher'', ''my_publisher'')]
          (observe timer [(''publisher'', ''my_publisher'')] 0 (prog_out (env w)))\<rparr>\<rparr>)"
proof -
  let ?w = "tick_recv i w"
  let ?w1 = "?w\<lparr>env := (env w)\<lparr>prog_client := (prog_client (env w))\<lparr>ch_input := \<lparr>buf = ms @ [Some msg], chan_closed = False\<rparr>\<rparr>\<rparr>\<rparr>"
  have e: "env ?w = env w" by (simp add: tick_recv_def Let_def)
  have "channel_publisher msg ?w = (Ret None, ?w1)"
    using assms(4) by (simp add: channel_publisher_def ChannelPublisher_Publish_def e Let_def)
  then have inner: "ConvertPanicToError fv channel_publisher msg ?w = (Ret None, ?w1)"
    by (simp add: ConvertPanicToError_def)
  have label: "\<forall>m err w. publisher_label m err w = (Ret ((\<lambda>_. [(''publisher'', ''my_publisher'')]) err), w)"
    by (simp add: publisher_label_def)
  have fit: "\<forall>err :: gerr option. fits counter [(''publisher'', ''my_publisher'')] \<and> fits timer [(''publisher'', ''my_publisher'')]"
    using channel_labels(1) [OF assms(2)] channel_labels(1) [OF assms(3)] by simp
  note out = counted_outcome [where producer = publisher_label and ls = "\<lambda>_. [(''publisher'', ''my_publisher'')]"
      and h = "ConvertPanicToError fv channel_publisher" and msg = msg and w = ?w, OF assms(1) label fit inner]
  show ?thesis unfolding throttle_with_def out by simp
qed

text \<open>The world after a typed publish to a channel that holds \<open>ms\<close>.\<close>

definition published_world where
  "published_world inc observe counter timer i ms v name w =
     (tick_recv i w)\<lparr>
         heap_maps := heap_maps w @ [[(''event_type'', VString name)]],
         heap_msgs := heap_msgs w @ [\<lparr>ID = [], Metadata = Some (length (heap_maps w)), Payload = v, msg_ctx = Background\<rparr>],
         env := (env w)\<lparr>
           prog_client := (prog_client (env w))\<lparr>ch_input := \<lparr>buf = ms @ [Some (length (heap_msgs w))], chan_closed = False\<rparr>\<rparr>,
           prog_out := inc counter [(''publisher'', ''my_publisher'')]
             (observe timer [(''publisher'', ''my_publisher'')] (0 :: int) (prog_out (env w)))\<rparr>\<rparr>"

lemma channel_publish_typed:
  assumes "records P inc observe" "label_names counter = [''publisher'']" "label_names timer = [''publisher'']"
    and "ch_input (prog_client (env w)) = \<lparr>buf = ms, chan_closed = False\<rparr>"
    and "\<forall>msg v. fst (PublishingEngine_Publish eng msg v) = throttle_with i
      (PrometheusMetricsCountVec (\<lambda>ls. on_out (prom_Inc P counter ls)) publisher_label
        (PrometheusMetricsDurationVec (\<lambda>ls d. on_out (prom_Observe P timer ls d)) publisher_label
          (ConvertPanicToError fv channel_publisher))) msg v"
  shows "\<exists>eng'. PublishingEngine_Publish eng' = PublishingEngine_Publish eng
    \<and> publish_with_type eng v name w = (Ret eng', published_world inc observe counter timer i ms v name w)"
proof -
  let ?m = "length (heap_msgs w)"
  define w1 where "w1 = w\<lparr>heap_maps := heap_maps w @ [[(''event_type'', VString name)]],
        heap_msgs := heap_msgs w @ [\<lparr>ID = [], Metadata = Some (length (heap_maps w)), Payload = v, msg_ctx = Background\<rparr>]\<rparr>"
  obtain w0 where "NewMessage Background v w = (?m, w0)" "WithMetadata ?m ''event_type'' (VString name) w0 = (Ret ?m, w1)"
    by (simp add: NewMessage_def new_map_def new_msg_def WithMetadata_def andThen_def map_assign_def get_msg_def w1_def)
  then have 1: "publish_with_type eng v name w = must_publish eng ?m w1"
    by (simp add: publish_with_type_def andThen_def)
  have "ch_input (prog_client (env w1)) = \<lparr>buf = ms, chan_closed = False\<rparr>" using assms(4) by (simp add: w1_def)
  note run = channel_publish_run [OF assms(1-3) this, where fv = fv and i = i and msg = ?m, folded assms(5) [rule_format]]
  obtain out eng' where out: "PublishingEngine_Publish eng ?m w1 = (out, eng')" by fastforce
  with run 1 engine_again [OF out] show ?thesis
    by (intro exI [of _ eng']) (simp add: must_publish_def w1_def tick_recv_def Let_def published_world_def)
qed

text \<open>The handler the subscription engine gives to \<open>Receive\<close>: a limit of 30 seconds around the throttle,
  and the throttle around the metered router.\<close>

definition channel_handler ::
  "'u prom \<Rightarrow> 'u terminal \<Rightarrow> (gval \<Rightarrow> string) \<Rightarrow> nat \<Rightarrow> collector \<Rightarrow> collector \<Rightarrow> ('p, 'c, 'u) program router
     \<Rightarrow> ('p, 'c, 'u) program rstore \<Rightarrow> ('p, 'c, 'u) program handler"
where
  "channel_handler P io fv i counter timer router st =
     ContextTimeout 30000000000 (throttle_with i (foldr (\<lambda>m inner. m inner)
       (metered P io fv success_producer ''handler'' counter timer) (HandlerFunc st router)))"

lemma channel_subscriber_made:
  fixes w :: "('p, 'u) channel_program world"
  assumes reg: "registry P io inc observe names" and new: "names (prog_out (env w)) \<inter> incoming_names = {}"
  shows "\<exists>counter timer e. label_names counter = [''subscriber'', ''success''] \<and> label_names timer = [''subscriber'', ''success'']
    \<and> channel_subscription_engine P io fv receive router w = (Ret e, w\<lparr>tickers := tickers w @
          [\<lparr>period = 500000000, next_tick = clock w + 500000000\<rparr>],
        env := (env w)\<lparr>prog_out := registered P counter timer (prog_out (env w))\<rparr>\<rparr>)
    \<and> (\<forall>c v. \<exists>e1. Start e c v = (receive c (channel_handler P io fv (length (tickers w)) counter timer router) v, e1)
          \<and> se_handlerFn e1 = Some (channel_handler P io fv (length (tickers w)) counter timer router))"
proof -
  let ?w = "w\<lparr>tickers := tickers w @ [\<lparr>period = 500000000, next_tick = clock w + 500000000\<rparr>]\<rparr>"
  have vacant: "names (prog_out (env ?w)) \<inter> incoming_names = {}" using new by simp
  have throttle: "andThen (Throttle 1 500000000) k w = k (throttle_with (length (tickers w))) ?w" for k
    by (simp add: andThen_def throttle_made)
  show ?thesis
    unfolding channel_subscription_engine_def Let_def throttle register_incoming(1) [OF reg vacant]
    by (rule exI [of _ "incoming_count [''subscriber'', ''success'']"], rule exI [of _ "incoming_duration [''subscriber'', ''success'']"],
      simp add: incoming_count_def incoming_duration_def channel_handler_def [abs_def]
        add_all_fresh NewSubscriptionEngine_def Start_def Wrap_foldr foldl_Add NewChain_def Let_def)
qed

text \<open>The publishing half of \<open>main\<close>.\<close>

definition twice_published where
  "twice_published inc observe c t u =
     (let count = (\<lambda>u. inc c [(''publisher'', ''my_publisher'')] (observe t [(''publisher'', ''my_publisher'')] (0 :: int) u))
      in count (count u))"

lemma twice_published_names:
  "registry P io inc observe names \<Longrightarrow> names (twice_published inc observe c t u) = names u"
  by (simp add: registry_def twice_published_def Let_def)

lemma channel_events_published:
  assumes reg: "registry P io inc observe names" and new: "names (prog_out (env w0)) \<inter> outgoing_names = {}"
    and recs: "records P inc observe"
    and fresh: "prog_client (env w0) = \<lparr>ch_input = \<lparr>buf = [], chan_closed = False\<rparr>, ch_retry = []\<rparr>"
  shows "\<exists>eng1 w1 eng2 w2 eng3 w3 c t. channel_publishing_engine P fv w0 = (Ret eng1, w1)
    \<and> publish_with_type eng1 (VStruct ''DummyEvent1'' [VString ''value1'']) ''DummyEvent1'' w1 = (Ret eng2, w2)
    \<and> publish_with_type eng2 (VStruct ''DummyEvent2'' [VString ''value2'']) ''DummyEvent2'' w2 = (Ret eng3, w3)
    \<and> heap_maps w3 = heap_maps w0 @ [[(''event_type'', VString ''DummyEvent1'')], [(''event_type'', VString ''DummyEvent2'')]]
    \<and> heap_msgs w3 = heap_msgs w0 @
        [\<lparr>ID = [], Metadata = Some (length (heap_maps w0)), Payload = VStruct ''DummyEvent1'' [VString ''value1''], msg_ctx = Background\<rparr>,
         \<lparr>ID = [], Metadata = Some (Suc (length (heap_maps w0))), Payload = VStruct ''DummyEvent2'' [VString ''value2''], msg_ctx = Background\<rparr>]
    \<and> clock w3 = clock w0 + 2000000000
    \<and> prog_client (env w3) = \<lparr>ch_input = \<lparr>buf = [Some (length (heap_msgs w0)), Some (Suc (length (heap_msgs w0)))], chan_closed = False\<rparr>, ch_retry = []\<rparr>
    \<and> prog_out (env w3) = twice_published inc observe c t (registered P c t (prog_out (env w0)))
    \<and> names (prog_out (env w3)) = names (prog_out (env w0)) \<union> outgoing_names"
proof -
  obtain c t eng where labels: "label_names c = [''publisher'']" "label_names t = [''publisher'']"
    and eng: "channel_publishing_engine P fv w0 = (Ret eng, w0\<lparr>tickers := tickers w0 @
          [\<lparr>period = 1000000000, next_tick = clock w0 + 1000000000\<rparr>],
        env := (env w0)\<lparr>prog_out := registered P c t (prog_out (env w0))\<rparr>\<rparr>)" (is "_ = (_, ?w1)")
    and known: "names (registered P c t (prog_out (env w0))) = names (prog_out (env w0)) \<union> outgoing_names"
    and run: "\<forall>msg v. fst (PublishingEngine_Publish eng msg v) = throttle_with (length (tickers w0))
          (PrometheusMetricsCountVec (\<lambda>ls. on_out (prom_Inc P c ls)) publisher_label
            (PrometheusMetricsDurationVec (\<lambda>ls d. on_out (prom_Observe P t ls d)) publisher_label
              (ConvertPanicToError fv channel_publisher))) msg v"
    using channel_engine_made [OF reg new] by blast
  have "ch_input (prog_client (env ?w1)) = \<lparr>buf = [], chan_closed = False\<rparr>" by (simp add: fresh)
  from channel_publish_typed [OF recs labels this run]
  obtain eng2 w2 where p1: "PublishingEngine_Publish eng2 = PublishingEngine_Publish eng"
      "publish_with_type eng (VStruct ''DummyEvent1'' [VString ''value1'']) ''DummyEvent1'' ?w1 = (Ret eng2, w2)"
    and w2: "w2 = published_world inc observe c t (length (tickers w0)) [] (VStruct ''DummyEvent1'' [VString ''value1'']) ''DummyEvent1'' ?w1"
    by blast
  have "ch_input (prog_client (env w2)) = \<lparr>buf = [Some (length (heap_msgs w0))], chan_closed = False\<rparr>"
    by (simp add: w2 published_world_def)
  from channel_publish_typed [OF recs labels this run [folded p1(1)]]
  obtain eng3 w3 where "publish_with_type eng2 (VStruct ''DummyEvent2'' [VString ''value2'']) ''DummyEvent2'' w2 = (Ret eng3, w3)"
    and w3: "w3 = published_world inc observe c t (length (tickers w0)) [Some (length (heap_msgs w0))]
        (VStruct ''DummyEvent2'' [VString ''value2'']) ''DummyEvent2'' w2"
    by blast
  moreover have "clock w3 = clock w0 + 2000000000" by (simp add: w2 w3 published_world_def tick_recv_def Let_def)
  moreover have out: "prog_out (env w3) = twice_published inc observe c t (registered P c t (prog_out (env w0)))"
    by (simp add: w2 w3 published_world_def twice_published_def)
  moreover have "names (prog_out (env w3)) = names (prog_out (env w0)) \<union> outgoing_names"
    unfolding out twice_published_names [OF reg] by (rule known)
  ultimately show ?thesis using eng p1(2)
    by - (rule exI [of _ eng], rule exI [of _ ?w1], rule exI [of _ eng2], rule exI [of _ w2],
        rule exI [of _ eng3], rule exI [of _ w3], rule exI [of _ c], rule exI [of _ t],
        intro conjI, (assumption | simp add: w2 w3 published_world_def fresh)+)
qed

section \<open>One attempt at an event\<close>

text \<open>The send of a nacked message to the retry channel, and the result of handling an event: a route
  whose type is not that of the payload gives the error of \<open>HandleWithPayload\<close>.\<close>

definition to_retry_channel :: "addr \<Rightarrow> ('p, 'u) channel_program \<Rightarrow> ('p, 'u) channel_program" where
  "to_retry_channel msg e = e\<lparr>prog_client := (prog_client e)\<lparr>ch_retry := ch_retry (prog_client e) @ [msg]\<rparr>\<rparr>"

definition event_result :: "string \<Rightarrow> gval \<Rightarrow> gerr option" where
  "event_result n v =
     (if n \<in> {''DummyEvent1'', ''DummyEvent2''} \<and> \<not> type_assert (TStruct n) v
      then Some (ErrNew (''payload type ['' @ n @ ''] does not match handler expected payload type []'')) else None)"

lemma channel_router_serves:
  assumes "channel_router io fv \<lparr>route_maps = [], builders = []\<rparr> = (Ret d, st)"
    and "map_of (meta_of w msg) ''event_type'' = Some (VString n)"
  shows "\<exists>w'. HandlerFunc st d msg w = (Ret (event_result n (Payload (get_msg w msg))), w')
    \<and> heap_msgs w' = heap_msgs w \<and> heap_maps w' = heap_maps w \<and> prog_client (env w') = prog_client (env w)"
proof -
  have T: "TStruct n \<noteq> TAny" "type_name (TStruct n) = n" for n by simp_all
  note naps = nap_frame [of io _ w]
  show ?thesis
    unfolding event_router_serves [OF assms(1) [unfolded channel_router_def] assms(2)]
    using naps by (auto simp: channel_routes_def event_result_def HandleWithPayload_def Let_def T channel_handler1_def
        channel_handler2_def channel_default_handler_def on_out_def)
qed

text \<open>The handler of the engine on the message of an attempt.\<close>

lemma channel_handler_run:
  assumes recs: "records P inc observe"
    and labels: "label_names counter = [''subscriber'', ''success'']" "label_names timer = [''subscriber'', ''success'']"
    and w2: "w2 = tick_recv i (SetContext m (WithDeadline (Context w m) (clock w + 30000000000) (tokens w)) (w\<lparr>tokens := Suc (tokens w)\<rparr>))"
    and routed: "HandlerFunc st router m w2 = (Ret err, w3)"
  shows "channel_handler P io fv i counter timer router st m w
    = (Ret err, cancel (tokens w) (w3\<lparr>env := (env w3)\<lparr>prog_out :=
        metered_out inc observe io ''handler'' counter timer (success_labels err) (clock w3 - clock w2)
          (ID (get_msg w3 m)) (meta_of w3 m) err (prog_out (env w3))\<rparr>\<rparr>))"
proof -
  have prod: "\<forall>m err w. success_producer m err w = (Ret (success_labels err), w)" by (simp add: success_producer_def)
  have fit: "\<forall>err. fits counter (success_labels err) \<and> fits timer (success_labels err)" using labels channel_labels(2) by simp
  note run = metered_outcome [where producer = success_producer and ls = success_labels and h = "HandlerFunc st router"
      and msg = m and w = w2, OF recs prod fit routed, of io fv "''handler''"]
  show ?thesis
    by (simp add: channel_handler_def timeout.form throttle_with_def run [unfolded w2] w2)
qed

section \<open>Properties\<close>

text \<open>\<open>main\<close> of the channel program puts two messages into the channel, one for each event, in order and
  each with its struct as payload and the name of its type as metadata, and counts both, before it
  receives anything. Its throttle lets the first pass one second after the start and the second one
  second later, so the consumer starts two seconds after the start. Then it runs \<open>Receive\<close> of a
  subscriber with ten places once, with the router behind the metrics, the throttle of half a second
  and the limit of 30 seconds, and ends normally exactly if \<open>Receive\<close> returns nil. The
  registry must not hold the program's metrics yet.\<close>

theorem channel_main_run:
  assumes reg: "registry P io inc observe names" and new: "names (prog_out (env w)) \<inter> (outgoing_names \<union> incoming_names) = {}"
    and recs: "records P inc observe"
    and router: "channel_router io fv \<lparr>route_maps = [], builders = []\<rparr> = (Ret router, st)"
  shows "\<exists>w' m1 m2 i counter timer c t.
      channel_main P io fv Receive runCtx w
        = main_end io (Receive (NewChannelSubscriber 10) runCtx (channel_handler P io fv i counter timer router st) w')
    \<and> prog_client (env w') = \<lparr>ch_input = \<lparr>buf = [Some m1, Some m2], chan_closed = False\<rparr>, ch_retry = []\<rparr>
    \<and> m1 \<noteq> m2
    \<and> Payload (get_msg w' m1) = VStruct ''DummyEvent1'' [VString ''value1''] \<and> meta_of w' m1 = [(''event_type'', VString ''DummyEvent1'')]
    \<and> Payload (get_msg w' m2) = VStruct ''DummyEvent2'' [VString ''value2''] \<and> meta_of w' m2 = [(''event_type'', VString ''DummyEvent2'')]
    \<and> clock w' = clock w + 2000000000
    \<and> i < length (tickers w') \<and> tickers w' ! i = \<lparr>period = 500000000, next_tick = clock w' + 500000000\<rparr>
    \<and> prog_out (env w') = registered P counter timer (twice_published inc observe c t (registered P c t (prog_out (env w))))"
proof -
  obtain w0 where w0: "make_channel w = (Ret (), w0)" "clock w0 = clock w" "prog_out (env w0) = prog_out (env w)"
    and fresh: "prog_client (env w0) = \<lparr>ch_input = \<lparr>buf = [], chan_closed = False\<rparr>, ch_retry = []\<rparr>"
    by (simp add: make_channel_def)
  have vacant: "names (prog_out (env w0)) \<inter> outgoing_names = {}" using new w0(3) by auto
  obtain eng1 w1 eng2 w2 eng3 w3 c t where pub: "channel_publishing_engine P fv w0 = (Ret eng1, w1)"
      "publish_with_type eng1 (VStruct ''DummyEvent1'' [VString ''value1'']) ''DummyEvent1'' w1 = (Ret eng2, w2)"
      "publish_with_type eng2 (VStruct ''DummyEvent2'' [VString ''value2'']) ''DummyEvent2'' w2 = (Ret eng3, w3)"
    and maps: "heap_maps w3 = heap_maps w0 @ [[(''event_type'', VString ''DummyEvent1'')], [(''event_type'', VString ''DummyEvent2'')]]"
    and msgs: "heap_msgs w3 = heap_msgs w0 @
        [\<lparr>ID = [], Metadata = Some (length (heap_maps w0)), Payload = VStruct ''DummyEvent1'' [VString ''value1''], msg_ctx = Background\<rparr>,
         \<lparr>ID = [], Metadata = Some (Suc (length (heap_maps w0))), Payload = VStruct ''DummyEvent2'' [VString ''value2''], msg_ctx = Background\<rparr>]"
    and w3: "clock w3 = clock w0 + 2000000000"
      "prog_client (env w3) = \<lparr>ch_input = \<lparr>buf = [Some (length (heap_msgs w0)), Some (Suc (length (heap_msgs w0)))], chan_closed = False\<rparr>, ch_retry = []\<rparr>"
      "prog_out (env w3) = twice_published inc observe c t (registered P c t (prog_out (env w0)))"
    and known: "names (prog_out (env w3)) = names (prog_out (env w0)) \<union> outgoing_names"
    using channel_events_published [OF reg vacant recs fresh, of fv] by blast
  have free: "names (prog_out (env w3)) \<inter> incoming_names = {}" using new names_disjoint unfolding known w0(3) by blast
  let ?R = "\<lambda>c h. Receive (NewChannelSubscriber 10) c (h st)" and ?h = "channel_handler P io fv (length (tickers w3))"
  obtain counter timer e where s: "channel_subscription_engine P io fv ?R router w3 = (Ret e, w3\<lparr>tickers := tickers w3 @
          [\<lparr>period = 500000000, next_tick = clock w3 + 500000000\<rparr>],
        env := (env w3)\<lparr>prog_out := registered P counter timer (prog_out (env w3))\<rparr>\<rparr>)" (is "_ = (_, ?w)")
    and start: "\<forall>c v. \<exists>e1. Start e c v = (?R c (?h counter timer router) v, e1) \<and> se_handlerFn e1 = Some (?h counter timer router)"
    using channel_subscriber_made [OF reg free, of fv ?R router] by blast
  obtain e1 where "Start e runCtx ?w = (?R runCtx (?h counter timer router) ?w, e1)" using start by blast
  then have main: "channel_main P io fv Receive runCtx w
      = main_end io (Receive (NewChannelSubscriber 10) runCtx (?h counter timer router st) ?w)"
    by (simp add: channel_main_def andThen_def w0(1) pub router s run_engine_end)
  show ?thesis
    by (rule exI [of _ ?w], rule exI [of _ "length (heap_msgs w0)"], rule exI [of _ "Suc (length (heap_msgs w0))"],
        rule exI [of _ "length (tickers w3)"], rule exI [of _ counter], rule exI [of _ timer], rule exI [of _ c], rule exI [of _ t])
      (intro conjI main; simp add: maps msgs w3 w0 get_msg_def read_map_def nth_append)
qed

definition demo_channel_env :: "(unit, string set \<times> string list) channel_program" where
  "demo_channel_env = \<lparr>prog_cache = mp_zero, prog_client = \<lparr>ch_input = \<lparr>buf = [], chan_closed = False\<rparr>, ch_retry = []\<rparr>, prog_out = ({}, [])\<rparr>"

lemma demo_registered: "snd (registered demo_registry c t u) = snd u"
  by (simp add: registered_def demo_registry_def split: prod.split)

lemma demo_channel_router:
  "\<exists>router st. channel_router demo_screen fv \<lparr>route_maps = [], builders = []\<rparr>
     = (Ret (router :: ('p, 'c, string set \<times> string list) program router), st)"
  by (simp add: channel_router_def event_router_def NewRouter_def Let_def AddDefaultHandler_def)

theorem channel_main_run_witness:
  "\<exists>w'. channel_main demo_registry demo_screen (\<lambda>v. []) (\<lambda>s c h w. (Ret None, w)) Background (start_world demo_channel_env) = (Ret (), w')
     \<and> length (buf (ch_input (prog_client (env w')))) = 2 \<and> clock w' = 2000000000
     \<and> snd (prog_out (env w')) = [''my_publisher'', ''my_publisher'']"
proof -
  let ?w = "start_world demo_channel_env"
  obtain router :: "(unit, string set \<times> string list) channel_program router" and st where router:
    "channel_router demo_screen (\<lambda>v. []) \<lparr>route_maps = [], builders = []\<rparr> = (Ret router, st)"
    using demo_channel_router by blast
  have free: "fst (prog_out (env ?w)) \<inter> (outgoing_names \<union> incoming_names) = {}"
    by (simp add: start_world_def demo_channel_env_def)
  from channel_main_run [OF demo_registry_laws(2) free demo_registry_laws(1) router, of "\<lambda>s c h w. (Ret None, w)" Background]
  obtain w1 m1 m2 and c t counter timer :: collector where
    "channel_main demo_registry demo_screen (\<lambda>v. []) (\<lambda>s c h w. (Ret None, w)) Background ?w = main_end demo_screen (Ret None, w1)"
    "prog_client (env w1) = \<lparr>ch_input = \<lparr>buf = [Some m1, Some m2], chan_closed = False\<rparr>, ch_retry = []\<rparr>"
    "clock w1 = clock ?w + 2000000000"
    and out: "prog_out (env w1) = registered demo_registry counter timer (twice_published demo_inc (\<lambda>c ls d u. u) c t
      (registered demo_registry c t (prog_out (env ?w))))"
    by blast
  moreover have "snd (prog_out (env w1)) = [''my_publisher'', ''my_publisher'']"
    unfolding out demo_registered by (simp add: twice_published_def demo_inc_def demo_registered demo_count_def Let_def
        start_world_def demo_channel_env_def)
  ultimately show ?thesis
    by (simp add: main_end_def on_out_def demo_screen_def start_world_def)
qed

lemma throttled_world:
  assumes "valid_msg w m" "w2 = tick_recv i (SetContext m c (w\<lparr>tokens := k\<rparr>))"
  shows "env w2 = env w" "clock w \<le> clock w2" "read_map w2 = read_map w" "x \<noteq> m \<Longrightarrow> get_msg w2 x = get_msg w x"
    "get_msg w2 m = (get_msg w m)\<lparr>msg_ctx := c\<rparr>"
  using assms by (simp_all add: tick_recv_def Let_def SetContext_def upd_msg_def get_msg_def read_map_def fun_eq_iff valid_msg_def
      split: option.split)

lemma same_heaps:
  "heap_msgs v = heap_msgs w \<Longrightarrow> get_msg v = get_msg w" "heap_maps v = heap_maps w \<Longrightarrow> read_map v = read_map w"
  by (auto simp: get_msg_def read_map_def fun_eq_iff split: option.split)

text \<open>C40: An attempt of the channel program at a message with an event type: the handler sees a copy of it,
  after the throttle, under a context that ends 30 seconds after the attempt began, the wait for the
  throttle included. A message whose payload is a struct of the type it names, or whose type has no
  route, is handled and counted as a success. One that names a routed type and carries something
  else is counted as a failure, printed, and sent to the retry channel; since the kept message is
  unchanged after either outcome, every later attempt at it fails in the same way. No attempt
  panics.\<close>

theorem channel_event_attempt:
  fixes del :: "('p, 'u) channel_program delivery"
  assumes reg: "registry P io inc observe names" and new: "names (prog_out (env v)) \<inter> incoming_names = {}"
    and recs: "records P inc observe"
    and router: "channel_router io fv \<lparr>route_maps = [], builders = []\<rparr> = (Ret router, st)"
    and engine: "channel_subscription_engine P io fv receive router v = (Ret e, v')" "Start e c w0 = (out, e1)"
    and msg: "wf_world w" "valid_msg w msg" "map_of (meta_of w msg) ''event_type'' = Some (VString n)"
    and del: "channel_delivery to_retry_channel msg w = (del, w1)"
    and err: "err = event_result n (Payload (get_msg w msg))"
  shows "\<exists>h w2 w3 w' b counter timer. out = receive c h w0 \<and> se_handlerFn e1 = Some h
    \<and> HandlerFunc st router (dl_Message del) w2 = (Ret err, w3)
    \<and> clock w \<le> clock w2 \<and> Context w2 (dl_Message del) = WithDeadline b (clock w + 30000000000) (tokens w)
    \<and> Handle (channel_dispatcher sub (h st)) del w1 = (Ret (), w')
    \<and> prog_client (env w') = (case err of None \<Rightarrow> prog_client (env w)
        | Some _ \<Rightarrow> (prog_client (env w))\<lparr>ch_retry := ch_retry (prog_client (env w)) @ [msg]\<rparr>)
    \<and> get_msg w' msg = get_msg w msg \<and> meta_of w' msg = meta_of w msg
    \<and> prog_out (env w') = metered_out inc observe io ''handler'' counter timer (success_labels err) (clock w3 - clock w2)
        (ID (get_msg w msg)) (meta_of w msg) err (prog_out (env w3))"
proof -
  let ?m = "dl_Message del"
  obtain counter timer e0 where labels: "label_names counter = [''subscriber'', ''success'']" "label_names timer = [''subscriber'', ''success'']"
    and made: "channel_subscription_engine P io fv receive router v = (Ret e0, v\<lparr>tickers := tickers v @
          [\<lparr>period = 500000000, next_tick = clock v + 500000000\<rparr>],
        env := (env v)\<lparr>prog_out := registered P counter timer (prog_out (env v))\<rparr>\<rparr>)"
    and started: "\<forall>c v1. \<exists>e1. Start e0 c v1 = (receive c (channel_handler P io fv (length (tickers v)) counter timer router) v1, e1)
          \<and> se_handlerFn e1 = Some (channel_handler P io fv (length (tickers v)) counter timer router)"
    using channel_subscriber_made [OF reg new, of fv receive router] by blast
  define h where "h = channel_handler P io fv (length (tickers v)) counter timer router"
  have start: "out = receive c h w0" "se_handlerFn e1 = Some h"
    using made started [rule_format, of c w0] engine by (auto simp: h_def)
  obtain a fin wp where prep: "handle_prepare (channel_dispatcher sub (h st)) del w1 = ((a, fin), wp)" by (metis prod.exhaust)
  note facts = channel_prepared [OF msg(1,2) del prep, simplified]
  have tok: "tokens wp = tokens w"
    using prep del by (auto simp: handle_prepare_def Let_def SetContext_def upd_msg_def channel_delivery_def Copy_heaps [OF msg(2)])
  define w2 where "w2 = tick_recv (length (tickers v)) (SetContext ?m (WithDeadline (Context wp ?m) (clock wp + 30000000000) (tokens wp))
      (wp\<lparr>tokens := Suc (tokens wp)\<rparr>))"
  note throttled = throttled_world [OF facts(3) w2_def]
  have copy: "ID (get_msg w2 ?m) = ID (get_msg w msg)" "Payload (get_msg w2 ?m) = Payload (get_msg w msg)" "meta_of w2 ?m = meta_of w msg"
    "Context w2 ?m = WithDeadline (Context wp ?m) (clock w + 30000000000) (tokens w)"
    "get_msg w2 msg = get_msg w msg" "meta_of w2 msg = meta_of w msg" "env w2 = env w" "clock w \<le> clock w2"
    using facts(2,4-10) throttled tok by (simp_all add: Context_def)
  obtain w3 where routed: "HandlerFunc st router ?m w2 = (Ret err, w3)"
    and w3: "heap_msgs w3 = heap_msgs w2" "heap_maps w3 = heap_maps w2" "prog_client (env w3) = prog_client (env w2)"
    using channel_router_serves [OF router msg(3) [folded copy(3)]] by (auto simp: err copy(2))
  note same = same_heaps(1) [OF w3(1)] same_heaps(2) [OF w3(2)]
  let ?w4 = "cancel (tokens wp) (w3\<lparr>env := (env w3)\<lparr>prog_out := metered_out inc observe io ''handler'' counter timer
      (success_labels err) (clock w3 - clock w2) (ID (get_msg w3 ?m)) (meta_of w3 ?m) err (prog_out (env w3))\<rparr>\<rparr>)"
  have "h st ?m wp = (Ret err, ?w4)"
    unfolding h_def by (rule channel_handler_run [OF recs labels w2_def routed])
  from channel_handled [OF del prep this]
  have run: "Handle (channel_dispatcher sub (h st)) del w1
      = (Ret (), case err of None \<Rightarrow> ?w4 | Some _ \<Rightarrow> ?w4\<lparr>env := to_retry_channel msg (env ?w4)\<rparr>)" .
  let ?w' = "case err of None \<Rightarrow> ?w4 | Some _ \<Rightarrow> ?w4\<lparr>env := to_retry_channel msg (env ?w4)\<rparr>"
  have reads: "get_msg ?w' = get_msg w2" "read_map ?w' = read_map w2"
    by (cases err; intro same_heaps; simp add: cancel_def w3(1,2))+
  have client: "prog_client (env ?w') = (case err of None \<Rightarrow> prog_client (env w)
      | Some _ \<Rightarrow> (prog_client (env w))\<lparr>ch_retry := ch_retry (prog_client (env w)) @ [msg]\<rparr>)"
    by (cases err) (simp_all add: to_retry_channel_def cancel_def w3(3) copy(7))
  have printed: "prog_out (env ?w') = metered_out inc observe io ''handler'' counter timer (success_labels err) (clock w3 - clock w2)
        (ID (get_msg w msg)) (meta_of w msg) err (prog_out (env w3))"
    by (cases err) (simp_all add: to_retry_channel_def cancel_def same copy(1,3))
  have "get_msg ?w' msg = get_msg w msg" "meta_of ?w' msg = meta_of w msg"
    unfolding reads by (rule copy(5,6))+
  then show ?thesis
    by - (rule exI [of _ h], rule exI [of _ w2], rule exI [of _ w3], rule exI [of _ ?w'], rule exI [of _ "Context wp ?m"],
      rule exI [of _ counter], rule exI [of _ timer], intro conjI start routed copy(4,8) run client printed)
qed

text \<open>A message that names the first event and carries something else.\<close>

theorem channel_event_attempt_witness:
  "\<exists>router st e v' e1 out h del w1 w'.
      channel_router demo_screen (\<lambda>v. []) \<lparr>route_maps = [], builders = []\<rparr> = (Ret router, st)
    \<and> channel_subscription_engine demo_registry demo_screen (\<lambda>v. []) (\<lambda>c h w. (Ret None, w)) router (start_world demo_channel_env)
        = (Ret e, v') \<and> tickers v' = [\<lparr>period = 500000000, next_tick = 500000000\<rparr>]
    \<and> Start e Background (start_world demo_channel_env) = (out, e1) \<and> se_handlerFn e1 = Some h
    \<and> channel_delivery to_retry_channel 0 ((start_world demo_channel_env)
          \<lparr>heap_maps := [[(''event_type'', VString ''DummyEvent1'')]],
           heap_msgs := [\<lparr>ID = [], Metadata = Some 0, Payload = VString ''other'', msg_ctx = Background\<rparr>]\<rparr>) = (del, w1)
    \<and> Handle (channel_dispatcher (NewChannelSubscriber 10) (h st)) del w1 = (Ret (), w')
    \<and> ch_retry (prog_client (env w')) = [0]"
proof -
  let ?s = "start_world demo_channel_env"
  let ?w = "?s\<lparr>heap_maps := [[(''event_type'', VString ''DummyEvent1'')]],
           heap_msgs := [\<lparr>ID = [], Metadata = Some 0, Payload = VString ''other'', msg_ctx = Background\<rparr>]\<rparr>"
  obtain router :: "(unit, string set \<times> string list) channel_program router" and st where router:
    "channel_router demo_screen (\<lambda>v. []) \<lparr>route_maps = [], builders = []\<rparr> = (Ret router, st)"
    using demo_channel_router by blast
  have free: "fst (prog_out (env ?s)) \<inter> incoming_names = {}" by (simp add: start_world_def demo_channel_env_def)
  from channel_subscriber_made [OF demo_registry_laws(2) free, of "\<lambda>v. []" "\<lambda>c h w. (Ret None, w)" router]
  obtain e counter timer where engine:
    "channel_subscription_engine demo_registry demo_screen (\<lambda>v. []) (\<lambda>c h w. (Ret None, w)) router ?s
      = (Ret e, ?s\<lparr>tickers := tickers ?s @ [\<lparr>period = 500000000, next_tick = clock ?s + 500000000\<rparr>],
          env := (env ?s)\<lparr>prog_out := registered demo_registry counter timer (prog_out (env ?s))\<rparr>\<rparr>)" (is "_ = (_, ?v)")
    by blast
  have ticker: "tickers ?v = [\<lparr>period = 500000000, next_tick = 500000000\<rparr>]" by (simp add: start_world_def)
  obtain out e1 where start: "Start e Background ?s = (out, e1)" by fastforce
  have wf: "wf_world ?w" "valid_msg ?w 0" "map_of (meta_of ?w 0) ''event_type'' = Some (VString ''DummyEvent1'')"
    by (simp_all add: wf_world_def valid_msg_def get_msg_def read_map_def start_world_def)
  obtain del w1 where del: "channel_delivery to_retry_channel 0 ?w = (del, w1)" by fastforce
  have err: "Some (ErrNew (''payload type ['' @ ''DummyEvent1'' @ ''] does not match handler expected payload type []''))
      = event_result ''DummyEvent1'' (Payload (get_msg ?w 0))"
    by (simp add: event_result_def get_msg_def type_assert_def)
  from channel_event_attempt [OF demo_registry_laws(2) free demo_registry_laws(1) router engine start wf del err, of "NewChannelSubscriber 10"]
  obtain h w' where "se_handlerFn e1 = Some h" "Handle (channel_dispatcher (NewChannelSubscriber 10) (h st)) del w1 = (Ret (), w')"
    "prog_client (env w') = (prog_client (env ?w))\<lparr>ch_retry := ch_retry (prog_client (env ?w)) @ [0]\<rparr>"
    unfolding option.case by blast
  moreover from this(3) have "ch_retry (prog_client (env w')) = [0]" by (simp add: start_world_def demo_channel_env_def)
  ultimately show ?thesis using router engine ticker start del by blast
qed

end
