(* ===== verification/Test_Rabbit.thy ===== *)
theory Test_Rabbit
  imports Amqp_Publisher
begin

text \<open>
  \<open>amqp/testrabbit/local.go\<close>: the exchanges and queues the tests and load tests run on, and
  \<open>setupInfrastructure\<close> of \<open>examples/amqp\<close>. The client library's channel is a record of calls on the
  broker; a call says how long it took. The state of a test is the time, the broker and the warnings
  printed so far, each with its error. The random suffix (\<open>shortuuid.New\<close>) is an argument.
\<close>

section \<open>Calls, sleeps, warnings\<close>

record 'b bench =
  bench_now :: int
  bench_broker :: 'b
  warnings :: "(string \<times> gerr) list"

type_synonym ('b, 'a) call = "'b \<Rightarrow> 'a \<times> nat \<times> 'b"

type_synonym ('b, 'a) bench_act = "'b bench \<Rightarrow> 'a \<times> 'b bench"

definition call :: "('b, 'a) call \<Rightarrow> ('b, 'a) bench_act" where
  "call f s = (case f (bench_broker s) of (r, t, b) \<Rightarrow> (r, s\<lparr>bench_now := bench_now s + int t, bench_broker := b\<rparr>))"

definition bench_sleep :: "int \<Rightarrow> 'b bench \<Rightarrow> 'b bench" where
  "bench_sleep d s = s\<lparr>bench_now := bench_now s + d\<rparr>"

definition warn :: "string \<Rightarrow> gerr \<Rightarrow> 'b bench \<Rightarrow> 'b bench" where
  "warn t e s = s\<lparr>warnings := warnings s @ [(t, e)]\<rparr>"

text \<open>Sequencing of acts that may panic, and \<open>if err != nil { panic(err) }\<close>.\<close>

definition bench_then :: "('b, 'a res) bench_act \<Rightarrow> ('a \<Rightarrow> ('b, 'c res) bench_act) \<Rightarrow> ('b, 'c res) bench_act" where
  "bench_then m k s = (case m s of (Ret a, s1) \<Rightarrow> k a s1 | (Panic q, s1) \<Rightarrow> (Panic q, s1))"

definition must :: "('b, gerr option) bench_act \<Rightarrow> ('b, unit res) bench_act" where
  "must m s = (case m s of (None, s1) \<Rightarrow> (Ret (), s1) | (Some e, s1) \<Rightarrow> (Panic (PErr e), s1))"

definition must_get :: "(gerr \<Rightarrow> gerr) \<Rightarrow> ('b, gerr + 'a) bench_act \<Rightarrow> ('b, 'a res) bench_act" where
  "must_get f m s = (case m s of (Inr a, s1) \<Rightarrow> (Ret a, s1) | (Inl e, s1) \<Rightarrow> (Panic (PErr (f e)), s1))"

type_synonym table = "(string, gval) gomap option"

text \<open>The channel; a declared queue is its name, a consumer's Go channel a number.\<close>

record 'b topology =
  ExchangeDeclare :: "string \<Rightarrow> string \<Rightarrow> bool \<Rightarrow> bool \<Rightarrow> bool \<Rightarrow> bool \<Rightarrow> table \<Rightarrow> ('b, gerr option) call"
  QueueDeclare :: "string \<Rightarrow> bool \<Rightarrow> bool \<Rightarrow> bool \<Rightarrow> bool \<Rightarrow> table \<Rightarrow> ('b, gerr + string) call"
  QueueDeclarePassive :: "string \<Rightarrow> bool \<Rightarrow> bool \<Rightarrow> bool \<Rightarrow> bool \<Rightarrow> table \<Rightarrow> ('b, gerr + string) call"
  QueueBind :: "string \<Rightarrow> string \<Rightarrow> string \<Rightarrow> bool \<Rightarrow> table \<Rightarrow> ('b, gerr option) call"
  QueueDelete :: "string \<Rightarrow> bool \<Rightarrow> bool \<Rightarrow> bool \<Rightarrow> ('b, gerr option) call"
  ExchangeDelete :: "string \<Rightarrow> bool \<Rightarrow> bool \<Rightarrow> ('b, gerr option) call"
  topo_Publish :: "string \<Rightarrow> string \<Rightarrow> bool \<Rightarrow> bool \<Rightarrow> publishing \<Rightarrow> ('b, gerr option) call"
  topo_Consume :: "string \<Rightarrow> string \<Rightarrow> bool \<Rightarrow> bool \<Rightarrow> bool \<Rightarrow> bool \<Rightarrow> table \<Rightarrow> ('b, gerr + nat) call"

section \<open>Waiting and retrying\<close>

abbreviation millisecond :: int where
  "millisecond \<equiv> 1000000"

text \<open>The loop of \<open>waitForQueueReady\<close>: every turn sleeps, so it ends. \<open>dt\<close> is the text of a duration.\<close>

function wait_loop ::
  "(int \<Rightarrow> string) \<Rightarrow> 'b topology \<Rightarrow> string \<Rightarrow> int \<Rightarrow> int \<Rightarrow> ('b, gerr option) bench_act"
where
  "wait_loop dt channel queueName maxWait start s =
     (if bench_now s - start < maxWait then
        (case call (QueueDeclarePassive channel queueName False False False False None) s of
           (Inr _, s1) \<Rightarrow> (None, s1)
         | (Inl _, s1) \<Rightarrow> wait_loop dt channel queueName maxWait start (bench_sleep (25 * millisecond) s1))
      else (Some (ErrNew (''queue '' @ queueName @ '' not ready within '' @ dt maxWait)), s))"
  by pat_completeness auto
termination
  by (relation "measure (\<lambda>(dt, channel, queueName, maxWait, start, s). nat (maxWait - (bench_now s - start)))")
    (auto simp: call_def bench_sleep_def split: prod.splits)

declare wait_loop.simps [simp del]

definition waitForQueueReady ::
  "(int \<Rightarrow> string) \<Rightarrow> 'b topology \<Rightarrow> string \<Rightarrow> int \<Rightarrow> ('b, gerr option) bench_act"
where
  "waitForQueueReady dt channel queueName maxWait s = wait_loop dt channel queueName maxWait (bench_now s) s"

text \<open>The loop of \<open>retryOperation\<close>: \<open>Inl\<close> for the return inside it, \<open>Inr\<close> the last error after it.\<close>

function retry_loop ::
  "('b, gerr option) bench_act \<Rightarrow> int \<Rightarrow> int \<Rightarrow> gerr option \<Rightarrow> ('b, unit + gerr option) bench_act"
where
  "retry_loop operation maxRetries i lastErr s =
     (if i < maxRetries then
        (case operation s of
           (None, s1) \<Rightarrow> (Inl (), s1)
         | (Some err, s1) \<Rightarrow>
             retry_loop operation maxRetries (i + 1) (Some err)
               (if i < maxRetries - 1 then bench_sleep ((i + 1) * 50 * millisecond) s1 else s1))
      else (Inr lastErr, s))"
  by pat_completeness auto
termination
  by (relation "measure (\<lambda>(operation, maxRetries, i, lastErr, s). nat (maxRetries - i))") auto

declare retry_loop.simps [simp del]

definition retryOperation :: "('b, gerr option) bench_act \<Rightarrow> int \<Rightarrow> string \<Rightarrow> ('b, gerr option) bench_act" where
  "retryOperation operation maxRetries description s =
     (case retry_loop operation maxRetries 0 None s of
        (Inl _, s1) \<Rightarrow> (None, s1)
      | (Inr lastErr, s1) \<Rightarrow>
          (Some (ErrWrap (description @ '' failed after '' @ show_int maxRetries @ '' retries: '')
                   (case lastErr of None \<Rightarrow> [] | Some e \<Rightarrow> [e])), s1))"

text \<open>The waiting at the end of every constructor: a queue that is not ready is a warning.\<close>

definition await_queue :: "(int \<Rightarrow> string) \<Rightarrow> 'b topology \<Rightarrow> string \<Rightarrow> 'b bench \<Rightarrow> 'b bench" where
  "await_queue dt channel queueName s =
     (case waitForQueueReady dt channel queueName (2000 * millisecond) s of
        (None, s1) \<Rightarrow> s1
      | (Some err, s1) \<Rightarrow> warn ''Warning: '' err s1)"

section \<open>One queue on the default exchange\<close>

record 'b direct_queue =
  dq_channel :: "'b topology"
  dq_QueueName :: string

definition test_publishing :: "string \<Rightarrow> headers \<Rightarrow> publishing" where
  "test_publishing bytes attrs = \<lparr>pub_ContentType = ''text/plain'', pub_Priority = 0, pub_DeliveryMode = 2,
     pub_Body = bytes, pub_Headers = attrs, pub_MessageId = []\<rparr>"

definition DirectQueue_Delete :: "'b direct_queue \<Rightarrow> 'b bench \<Rightarrow> 'b bench" where
  "DirectQueue_Delete d s =
     (if dq_QueueName d = [] then s
      else case call (QueueDelete (dq_channel d) (dq_QueueName d) False False False) s of
        (None, s1) \<Rightarrow> s1
      | (Some err, s1) \<Rightarrow> warn (''Warning: Failed to delete queue '' @ dq_QueueName d) err s1)"

definition DirectQueue_PublishBytes :: "'b direct_queue \<Rightarrow> string \<Rightarrow> headers \<Rightarrow> 'b bench \<Rightarrow> 'b bench" where
  "DirectQueue_PublishBytes d bytes attrs s =
     (case call (topo_Publish (dq_channel d) [] (dq_QueueName d) False False (test_publishing bytes attrs)) s of
        (None, s1) \<Rightarrow> s1
      | (Some err, s1) \<Rightarrow> warn (''Warning: Failed to publish to queue '' @ dq_QueueName d) err s1)"

definition DirectQueue_Consume :: "'b direct_queue \<Rightarrow> ('b, nat res) bench_act" where
  "DirectQueue_Consume d = must_get (\<lambda>e. e) (call (topo_Consume (dq_channel d) (dq_QueueName d) [] False True False False None))"

definition CreateDirectExchangeQueue ::
  "(int \<Rightarrow> string) \<Rightarrow> string \<Rightarrow> 'b topology \<Rightarrow> string \<Rightarrow> ('b, 'b direct_queue res) bench_act"
where
  "CreateDirectExchangeQueue dt randomPart channel queueName =
     bench_then (must_get (\<lambda>e. e) (call (QueueDeclare channel (queueName @ ''_'' @ randomPart) True False False False None)))
       (\<lambda>queue s. (Ret \<lparr>dq_channel = channel, dq_QueueName = queue\<rparr>, await_queue dt channel queue s))"

section \<open>Exchanges with queues\<close>

text \<open>The body the constructors share: declare a queue, bind it, look that it is there.\<close>

definition bind_test_queue ::
  "'b topology \<Rightarrow> string \<Rightarrow> string \<Rightarrow> string \<Rightarrow> table \<Rightarrow> (string \<Rightarrow> string) \<Rightarrow> ('b, string res) bench_act"
where
  "bind_test_queue channel fullQueueName key fullExchangeName args description =
     bench_then (must_get (\<lambda>e. e) (call (QueueDeclare channel fullQueueName True False False False None))) (\<lambda>queue.
     bench_then (must (retryOperation (call (QueueBind channel queue key fullExchangeName False args)) 3 (description queue))) (\<lambda>_.
     bench_then (must_get (\<lambda>e. ErrWrap (''failed to verify queue '' @ queue @ '': '') [e])
       (call (QueueDeclarePassive channel queue False False False False None))) (\<lambda>_ s. (Ret queue, s))))"

text \<open>\<open>ExchangeDeclare\<close> as every constructor calls it, and the deletion of queues as every \<open>Delete\<close> does.\<close>

definition declare_test_exchange :: "'b topology \<Rightarrow> string \<Rightarrow> string \<Rightarrow> ('b, unit res) bench_act" where
  "declare_test_exchange channel fullExchangeName kind =
     must (call (ExchangeDeclare channel fullExchangeName kind True False False False None))"

fun delete_queues :: "'b topology \<Rightarrow> (string \<times> string) list \<Rightarrow> 'b bench \<Rightarrow> 'b bench" where
  "delete_queues channel [] s = s"
| "delete_queues channel ((queueName, what) # qs) s =
     delete_queues channel qs
       (case call (QueueDelete channel queueName False False False) s of
          (None, s1) \<Rightarrow> s1
        | (Some err, s1) \<Rightarrow> warn (''Warning: Failed to delete queue '' @ queueName @ what) err s1)"

definition delete_exchange :: "'b topology \<Rightarrow> string \<Rightarrow> 'b bench \<Rightarrow> 'b bench" where
  "delete_exchange channel exchangeName s =
     (case call (ExchangeDelete channel exchangeName False False) s of
        (None, s1) \<Rightarrow> s1
      | (Some err, s1) \<Rightarrow> warn (''Warning: Failed to delete exchange '' @ exchangeName) err s1)"

text \<open>A lookup in the mapping of an exchange, and the consumer on the queue found.\<close>

definition consume_mapped ::
  "'b topology \<Rightarrow> (string, string) gomap \<Rightarrow> string \<Rightarrow> (gerr \<Rightarrow> gerr) \<Rightarrow> string \<Rightarrow> ('b, nat res) bench_act"
where
  "consume_mapped channel m missing wrap key =
     (case map_of m key of
        None \<Rightarrow> (\<lambda>s. (Panic (PErr (ErrNew (missing @ key))), s))
      | Some queueName \<Rightarrow> must_get wrap (call (topo_Consume channel queueName [] False True False False None)))"


text \<open>The struct of an exchange. The fan-out and the headers exchange have one field more.\<close>

record 'b test_exchange =
  ex_channel :: "'b topology"
  ExchangeName :: string
  ToQueue :: "(string, string) gomap"

record 'b fanout_exchange = "'b test_exchange" +
  Queues :: "string list"

record 'b headers_exchange = "'b test_exchange" +
  HeaderBindings :: "(string, (string, gval) gomap) gomap"

text \<open>
  The loop of the constructors, over the queues to make: the key of the mapping, the queue's name,
  the routing key and arguments of the binding, and the description of the binding.
\<close>

record queue_plan =
  qp_key :: string
  qp_name :: string
  qp_routing :: string
  qp_args :: table
  qp_description :: "string \<Rightarrow> string"

fun bind_all :: "'b topology \<Rightarrow> string \<Rightarrow> queue_plan list \<Rightarrow> ('b, string list res) bench_act" where
  "bind_all channel fullExchangeName [] s = (Ret [], s)"
| "bind_all channel fullExchangeName (p # ps) s =
     bench_then (bind_test_queue channel (qp_name p) (qp_routing p) fullExchangeName (qp_args p) (qp_description p)) (\<lambda>queue.
     bench_then (bind_all channel fullExchangeName ps) (\<lambda>queues s. (Ret (queue # queues), s))) s"

definition mapping_of :: "queue_plan list \<Rightarrow> string list \<Rightarrow> (string, string) gomap" where
  "mapping_of ps queues = fold (\<lambda>(k, q) m. AList.update k q m) (zip (map qp_key ps) queues) []"

text \<open>Declare the exchange, make the queues, wait for those of the mapping.\<close>

definition make_test_exchange ::
  "(int \<Rightarrow> string) \<Rightarrow> 'b topology \<Rightarrow> string \<Rightarrow> string \<Rightarrow> queue_plan list
     \<Rightarrow> ('b, (string list \<times> (string, string) gomap) res) bench_act"
where
  "make_test_exchange dt channel fullExchangeName kind ps =
     bench_then (declare_test_exchange channel fullExchangeName kind) (\<lambda>_.
     bench_then (bind_all channel fullExchangeName ps) (\<lambda>queues s.
       (let mapping = mapping_of ps queues
        in (Ret (queues, mapping), fold (await_queue dt channel) (map snd mapping) s))))"

section \<open>The direct exchange\<close>

definition direct_plan :: "string \<Rightarrow> string \<Rightarrow> string \<Rightarrow> string \<Rightarrow> queue_plan" where
  "direct_plan exchangeName randomPart fullExchangeName key =
     \<lparr>qp_key = key, qp_name = exchangeName @ ''_'' @ key @ ''_'' @ randomPart, qp_routing = key, qp_args = None,
      qp_description = (\<lambda>q. ''binding queue '' @ q @ '' to exchange '' @ fullExchangeName @ '' with key '' @ key)\<rparr>"

definition CreateDirectRoutingExchange ::
  "(int \<Rightarrow> string) \<Rightarrow> string \<Rightarrow> 'b topology \<Rightarrow> string \<Rightarrow> string list \<Rightarrow> ('b, 'b test_exchange res) bench_act"
where
  "CreateDirectRoutingExchange dt randomPart channel exchangeName routingKeys =
     (let fullExchangeName = exchangeName @ ''_'' @ randomPart
      in bench_then (make_test_exchange dt channel fullExchangeName ''direct''
             (map (direct_plan exchangeName randomPart fullExchangeName) routingKeys))
           (\<lambda>(queues, mapping) s.
             (Ret \<lparr>ex_channel = channel, ExchangeName = fullExchangeName, ToQueue = mapping\<rparr>, s)))"

definition DirectRoutingExchange_PublishBytes ::
  "'b test_exchange \<Rightarrow> string \<Rightarrow> headers \<Rightarrow> string \<Rightarrow> ('b, unit res) bench_act"
where
  "DirectRoutingExchange_PublishBytes d bytes attrs route =
     must (call (topo_Publish (ex_channel d) (ExchangeName d) route False False (test_publishing bytes attrs)))"

definition DirectRoutingExchange_Delete :: "'b test_exchange \<Rightarrow> 'b bench \<Rightarrow> 'b bench" where
  "DirectRoutingExchange_Delete d s =
     (if ExchangeName d = [] then s
      else delete_exchange (ex_channel d) (ExchangeName d)
             (delete_queues (ex_channel d) (map (\<lambda>(route, q). (q, '' for route '' @ route)) (ToQueue d)) s))"

definition DirectRoutingExchange_Consume :: "'b test_exchange \<Rightarrow> string \<Rightarrow> ('b, nat res) bench_act" where
  "DirectRoutingExchange_Consume d = consume_mapped (ex_channel d) (ToQueue d) ''no queue for route '' (\<lambda>e. e)"

section \<open>The fan-out exchange\<close>

definition fanout_plan :: "string \<Rightarrow> string \<Rightarrow> string \<Rightarrow> string \<Rightarrow> queue_plan" where
  "fanout_plan exchangeName randomPart fullExchangeName logical =
     \<lparr>qp_key = logical, qp_name = exchangeName @ ''_'' @ logical @ ''_'' @ randomPart, qp_routing = [], qp_args = None,
      qp_description = (\<lambda>q. ''binding queue '' @ q @ '' to fanout exchange '' @ fullExchangeName)\<rparr>"

definition CreateFanoutExchange ::
  "(int \<Rightarrow> string) \<Rightarrow> string \<Rightarrow> 'b topology \<Rightarrow> string \<Rightarrow> string list \<Rightarrow> ('b, 'b fanout_exchange res) bench_act"
where
  "CreateFanoutExchange dt randomPart channel exchangeName queues =
     (let fullExchangeName = exchangeName @ ''_'' @ randomPart
      in bench_then (make_test_exchange dt channel fullExchangeName ''fanout''
             (map (fanout_plan exchangeName randomPart fullExchangeName) queues))
           (\<lambda>(actualQueues, logicalToActual) s.
             (Ret \<lparr>ex_channel = channel, ExchangeName = fullExchangeName, ToQueue = logicalToActual, Queues = actualQueues\<rparr>, s)))"

definition FanoutExchange_PublishBytes :: "'b fanout_exchange \<Rightarrow> string \<Rightarrow> headers \<Rightarrow> ('b, unit res) bench_act" where
  "FanoutExchange_PublishBytes d bytes attrs =
     must (call (topo_Publish (ex_channel d) (ExchangeName d) [] False False (test_publishing bytes attrs)))"

definition FanoutExchange_Delete :: "'b fanout_exchange \<Rightarrow> 'b bench \<Rightarrow> 'b bench" where
  "FanoutExchange_Delete d s =
     (if ExchangeName d = [] then s
      else delete_exchange (ex_channel d) (ExchangeName d)
             (delete_queues (ex_channel d) (map (\<lambda>q. (q, [])) (Queues d)) s))"

definition FanoutExchange_Consume :: "'b fanout_exchange \<Rightarrow> string \<Rightarrow> ('b, nat res) bench_act" where
  "FanoutExchange_Consume d = consume_mapped (ex_channel d) (ToQueue d) ''no queue for logical name '' (\<lambda>e. e)"

section \<open>The topic exchange\<close>

text \<open>The queue names of a topic exchange are numbered, because a pattern has special characters.\<close>

definition topic_plan :: "string \<Rightarrow> string \<Rightarrow> string \<Rightarrow> nat \<times> string \<Rightarrow> queue_plan" where
  "topic_plan exchangeName randomPart fullExchangeName ip =
     (case ip of (i, pattern) \<Rightarrow>
       \<lparr>qp_key = pattern, qp_name = exchangeName @ ''_pattern'' @ show_nat i @ ''_'' @ randomPart, qp_routing = pattern,
        qp_args = None,
        qp_description = (\<lambda>q. ''binding queue '' @ q @ '' to topic exchange '' @ fullExchangeName @ '' with pattern '' @ pattern)\<rparr>)"

definition CreateTopicExchange ::
  "(int \<Rightarrow> string) \<Rightarrow> string \<Rightarrow> 'b topology \<Rightarrow> string \<Rightarrow> string list \<Rightarrow> ('b, 'b test_exchange res) bench_act"
where
  "CreateTopicExchange dt randomPart channel exchangeName patterns =
     (let fullExchangeName = exchangeName @ ''_'' @ randomPart
      in bench_then (make_test_exchange dt channel fullExchangeName ''topic''
             (map (topic_plan exchangeName randomPart fullExchangeName) (enumerate 0 patterns)))
           (\<lambda>(queues, mapping) s.
             (Ret \<lparr>ex_channel = channel, ExchangeName = fullExchangeName, ToQueue = mapping\<rparr>, s)))"

definition TopicExchange_PublishBytes ::
  "'b test_exchange \<Rightarrow> string \<Rightarrow> headers \<Rightarrow> string \<Rightarrow> ('b, unit res) bench_act"
where
  "TopicExchange_PublishBytes d bytes attrs routingKey =
     must (call (topo_Publish (ex_channel d) (ExchangeName d) routingKey False False (test_publishing bytes attrs)))"

definition TopicExchange_Delete :: "'b test_exchange \<Rightarrow> 'b bench \<Rightarrow> 'b bench" where
  "TopicExchange_Delete d s =
     (if ExchangeName d = [] then s
      else delete_exchange (ex_channel d) (ExchangeName d)
             (delete_queues (ex_channel d) (map (\<lambda>(pattern, q). (q, '' for pattern '' @ pattern)) (ToQueue d)) s))"

definition TopicExchange_Consume :: "'b test_exchange \<Rightarrow> string \<Rightarrow> ('b, nat res) bench_act" where
  "TopicExchange_Consume d pattern =
     consume_mapped (ex_channel d) (ToQueue d) ''no queue for pattern ''
       (\<lambda>e. ErrWrap (''cannot consume queue pattern '' @ pattern @ '' ['' @ ExchangeName d @ '']: '') [e]) pattern"

section \<open>The headers exchange\<close>

record header_binding =
  BindingKey :: string
  hb_Headers :: "(string, gval) gomap"
  MatchType :: string

text \<open>The arguments of a binding: a header of the caller's named \<open>x-match\<close> replaces the match type.\<close>

definition binding_args :: "header_binding \<Rightarrow> (string, gval) gomap" where
  "binding_args b = range_into (\<lambda>k v. Some (k, v)) (hb_Headers b) [(''x-match'', VString (MatchType b))]"

definition headers_plan :: "string \<Rightarrow> string \<Rightarrow> string \<Rightarrow> header_binding \<Rightarrow> queue_plan" where
  "headers_plan exchangeName randomPart fullExchangeName b =
     \<lparr>qp_key = BindingKey b, qp_name = exchangeName @ ''_'' @ BindingKey b @ ''_'' @ randomPart, qp_routing = [],
      qp_args = Some (binding_args b),
      qp_description = (\<lambda>q. ''binding queue '' @ q @ '' to headers exchange '' @ fullExchangeName @ '' with binding '' @ BindingKey b)\<rparr>"

definition CreateHeadersExchange ::
  "(int \<Rightarrow> string) \<Rightarrow> string \<Rightarrow> 'b topology \<Rightarrow> string \<Rightarrow> header_binding list \<Rightarrow> ('b, 'b headers_exchange res) bench_act"
where
  "CreateHeadersExchange dt randomPart channel exchangeName bindings =
     (let fullExchangeName = exchangeName @ ''_'' @ randomPart
      in bench_then (make_test_exchange dt channel fullExchangeName ''headers''
             (map (headers_plan exchangeName randomPart fullExchangeName) bindings))
           (\<lambda>(queues, headersToQueue) s.
             (Ret \<lparr>ex_channel = channel, ExchangeName = fullExchangeName, ToQueue = headersToQueue,
                   HeaderBindings = fold (\<lambda>b m. AList.update (BindingKey b) (binding_args b) m) bindings []\<rparr>, s)))"

definition HeadersExchange_PublishBytes :: "'b headers_exchange \<Rightarrow> string \<Rightarrow> headers \<Rightarrow> ('b, unit res) bench_act" where
  "HeadersExchange_PublishBytes d bytes headers =
     must (call (topo_Publish (ex_channel d) (ExchangeName d) [] False False (test_publishing bytes headers)))"

definition HeadersExchange_Delete :: "'b headers_exchange \<Rightarrow> 'b bench \<Rightarrow> 'b bench" where
  "HeadersExchange_Delete d s =
     (if ExchangeName d = [] then s
      else delete_exchange (ex_channel d) (ExchangeName d)
             (delete_queues (ex_channel d) (map (\<lambda>(binding, q). (q, '' for binding '' @ binding)) (ToQueue d)) s))"

definition HeadersExchange_Consume :: "'b headers_exchange \<Rightarrow> string \<Rightarrow> ('b, nat res) bench_act" where
  "HeadersExchange_Consume d = consume_mapped (ex_channel d) (ToQueue d) ''no queue for binding key '' (\<lambda>e. e)"


section \<open>The infrastructure of the example\<close>

text \<open>
  \<open>setupInfrastructure\<close>: \<open>open_channel\<close> is the connection's \<open>Channel\<close>, \<open>close_channel\<close> the deferred \<open>Close\<close>.
\<close>

definition setupInfrastructure ::
  "('b, gerr + 'b topology) call \<Rightarrow> ('b topology \<Rightarrow> ('b, gerr option) call) \<Rightarrow> string \<Rightarrow> string
     \<Rightarrow> ('b, gerr option) bench_act"
where
  "setupInfrastructure open_channel close_channel exchangeName queueName s =
     (case call open_channel s of
        (Inl err, s1) \<Rightarrow> (Some err, s1)
      | (Inr ch, s1) \<Rightarrow>
          (let (r, s2) =
             (case call (ExchangeDeclare ch exchangeName ''fanout'' True False False False None) s1 of
                (Some err, s2) \<Rightarrow> (Some err, s2)
              | (None, s2) \<Rightarrow>
                  (case call (QueueDeclare ch queueName True False False False None) s2 of
                     (Inl err, s3) \<Rightarrow> (Some err, s3)
                   | (Inr _, s3) \<Rightarrow>
                       (case call (QueueBind ch queueName [] exchangeName False None) s3 of
                          (Some err, s4) \<Rightarrow> (Some err, s4)
                        | (None, s4) \<Rightarrow> (None, s4))))
           in (r, snd (call (close_channel ch) s2))))"

section \<open>Retrying\<close>

text \<open>The state before attempt \<open>j\<close> of a retried operation when all the attempts before it failed.\<close>

primrec before_attempt :: "('b, gerr option) bench_act \<Rightarrow> int \<Rightarrow> 'b bench \<Rightarrow> nat \<Rightarrow> 'b bench" where
  "before_attempt operation n s 0 = s"
| "before_attempt operation n s (Suc j) =
     (let s1 = snd (operation (before_attempt operation n s j))
      in if int j < n - 1 then bench_sleep ((int j + 1) * 50 * millisecond) s1 else s1)"

lemma retry_loop_attempts:
  assumes "int j \<le> n" "\<forall>i < j. fst (operation (before_attempt operation n s i)) \<noteq> None"
    and "lastErr = (case j of 0 \<Rightarrow> None | Suc k \<Rightarrow> fst (operation (before_attempt operation n s k)))"
  shows "(\<exists>k s'. k < nat n \<and> (\<forall>i < k. fst (operation (before_attempt operation n s i)) \<noteq> None)
        \<and> operation (before_attempt operation n s k) = (None, s')
        \<and> retry_loop operation n (int j) lastErr (before_attempt operation n s j) = (Inl (), s'))
    \<or> ((\<forall>i < nat n. fst (operation (before_attempt operation n s i)) \<noteq> None)
        \<and> retry_loop operation n (int j) lastErr (before_attempt operation n s j)
            = (Inr (case nat n of 0 \<Rightarrow> None | Suc k \<Rightarrow> fst (operation (before_attempt operation n s k))),
               before_attempt operation n s (nat n)))"
  using assms
proof (induction "nat n - j" arbitrary: j lastErr)
  case 0
  then have n: "n = int j" by simp
  have "retry_loop operation n (int j) lastErr (before_attempt operation n s j) = (Inr lastErr, before_attempt operation n s j)"
    by (subst retry_loop.simps) (simp add: n)
  with 0 n show ?case by auto
next
  case (Suc x)
  then have less: "int j < n" by simp
  let ?s = "before_attempt operation n s j"
  obtain r s1 where run: "operation ?s = (r, s1)" by fastforce
  show ?case
  proof (cases r)
    case None
    with run less Suc.prems(2) have "retry_loop operation n (int j) lastErr ?s = (Inl (), s1)"
      by (simp add: retry_loop.simps [of operation n "int j"])
    with None run less Suc.prems(2) show ?thesis by (intro disjI1 exI [of _ j] exI [of _ s1]) auto
  next
    case (Some e)
    have next_state: "before_attempt operation n s (Suc j)
        = (if int j < n - 1 then bench_sleep ((int j + 1) * 50 * millisecond) s1 else s1)"
      by (simp add: run Let_def)
    have loop: "retry_loop operation n (int j) lastErr ?s
        = retry_loop operation n (int (Suc j)) (Some e) (before_attempt operation n s (Suc j))"
      using less by (subst retry_loop.simps, unfold next_state) (simp add: run Some add.commute)
    have failed: "\<forall>i < Suc j. fst (operation (before_attempt operation n s i)) \<noteq> None"
      using Suc.prems(2) run Some by (auto simp: less_Suc_eq)
    show ?thesis
      unfolding loop
      by (rule Suc.hyps(1)) (use Suc.hyps(2) less failed run Some in \<open>auto simp del: before_attempt.simps\<close>)
  qed
qed

lemma before_attempt_time:
  assumes "\<And>s. bench_now (snd (operation s)) \<le> bench_now s + T" "int j \<le> n"
  shows "bench_now (before_attempt operation n s j) \<le> bench_now s + int j * T + 25 * millisecond * (int j * (int j + 1))"
  using assms(2)
proof (induction j)
  case (Suc j)
  have "bench_now (before_attempt operation n s (Suc j))
      \<le> bench_now (snd (operation (before_attempt operation n s j))) + (int j + 1) * 50 * millisecond"
    by (simp add: bench_sleep_def Let_def)
  also have "\<dots> \<le> bench_now (before_attempt operation n s j) + T + (int j + 1) * 50 * millisecond"
    using assms(1) by simp
  also have "\<dots> \<le> bench_now s + int (Suc j) * T + 25 * millisecond * (int (Suc j) * (int (Suc j) + 1))"
    using Suc by (simp add: algebra_simps)
  finally show ?case .
qed simp

text \<open>\<open>retryOperation\<close> ends. It returns nil at the first attempt that succeeds and makes no attempt
  after it; when all \<open>maxRetries\<close> attempts failed it returns an error that wraps the last one's (and
  nothing when there was no attempt). The pauses grow linearly: with attempts that take at most \<open>T\<close>,
  it takes at most \<open>maxRetries * T\<close> and 25 milliseconds times \<open>maxRetries * (maxRetries + 1)\<close>.\<close>

theorem retry_bounded:
  assumes "retryOperation operation n description s = (r, s')"
    and "\<forall>s. bench_now s \<le> bench_now (snd (operation s)) \<and> bench_now (snd (operation s)) \<le> bench_now s + T"
  shows "((\<exists>k < nat n. (\<forall>i < k. fst (operation (before_attempt operation n s i)) \<noteq> None)
            \<and> operation (before_attempt operation n s k) = (None, s') \<and> r = None)
        \<or> (\<forall>i < nat n. fst (operation (before_attempt operation n s i)) \<noteq> None)
            \<and> s' = before_attempt operation n s (nat n)
            \<and> r = Some (ErrWrap (description @ '' failed after '' @ show_int n @ '' retries: '')
                    (if n \<le> 0 then [] else [the (fst (operation (before_attempt operation n s (nat (n - 1)))))])))
    \<and> (0 \<le> n \<longrightarrow> bench_now s' \<le> bench_now s + n * T + 25 * millisecond * (n * (n + 1)))"
proof -
  let ?at = "before_attempt operation n s"
  have time: "bench_now (?at j) \<le> bench_now s + int j * T + 25 * millisecond * (int j * (int j + 1))" if "int j \<le> n" for j
    using before_attempt_time [of operation T j n s] that assms(2) by blast
  have T: "0 \<le> T" using assms(2) by (meson add_le_cancel_left order_trans le_add_same_cancel1)
  consider (negative) "n < 0"
    | (success) k where "k < nat n" "\<forall>i < k. fst (operation (?at i)) \<noteq> None" "operation (?at k) = (None, s')" "r = None"
    | (failure) "0 \<le> n" "\<forall>i < nat n. fst (operation (?at i)) \<noteq> None" "s' = ?at (nat n)"
        "r = Some (ErrWrap (description @ '' failed after '' @ show_int n @ '' retries: '')
           (case case nat n of 0 \<Rightarrow> None | Suc k \<Rightarrow> fst (operation (?at k)) of None \<Rightarrow> [] | Some e \<Rightarrow> [e]))"
  proof (cases "n < 0")
    case False
    then have "int 0 \<le> n" by simp
    from retry_loop_attempts [OF this, of operation s None, simplified] show thesis
    proof (elim disjE exE conjE, goal_cases)
      case (1 k t)
      then have "r = None" "t = s'" using assms(1) by (simp_all add: retryOperation_def)
      with 1 success [of k] show ?case by simp
    next
      case 2
      then have "s' = ?at (nat n)" "r = Some (ErrWrap (description @ '' failed after '' @ show_int n @ '' retries: '')
           (case case nat n of 0 \<Rightarrow> None | Suc k \<Rightarrow> fst (operation (?at k)) of None \<Rightarrow> [] | Some e \<Rightarrow> [e]))"
        using assms(1) by (simp_all add: retryOperation_def)
      with 2(1) False failure show ?case by simp
    qed
  qed (use negative in simp)
  then show ?thesis
  proof cases
    case negative
    then have "s' = s" "r = Some (ErrWrap (description @ '' failed after '' @ show_int n @ '' retries: '') [])"
      using assms(1) by (auto simp: retryOperation_def retry_loop.simps [of operation n 0])
    with negative show ?thesis by simp
  next
    case success
    have k: "int k + 1 \<le> n" using success(1) by linarith
    have "bench_now s' \<le> bench_now (?at k) + T" using assms(2) success(3) by (metis snd_conv)
    also have "\<dots> \<le> bench_now s + (int k + 1) * T + 25 * millisecond * (int k * (int k + 1))"
      using time [of k] k by (simp add: algebra_simps)
    also have "\<dots> \<le> bench_now s + n * T + 25 * millisecond * (n * (n + 1))"
      using k T by (intro add_mono mult_mono mult_left_mono order_refl) auto
    finally show ?thesis using success by blast
  next
    case failure
    then have "r = Some (ErrWrap (description @ '' failed after '' @ show_int n @ '' retries: '')
         (if n \<le> 0 then [] else [the (fst (operation (?at (nat (n - 1)))))]))"
      by (cases "nat n") (auto simp: nat_diff_distrib split: option.split)
    with failure time [of "nat n"] show ?thesis by simp
  qed
qed


text \<open>An operation that fails as often as the broker says, for the witness.\<close>

definition flaky :: "(nat, gerr option) bench_act" where
  "flaky = call (\<lambda>b. (if b = 0 then None else Some (ErrNew ''busy''), 7, b - 1))"

theorem retry_bounded_witness:
  "retryOperation flaky 3 ''binding'' \<lparr>bench_now = 0, bench_broker = 1, warnings = []\<rparr>
     = (None, \<lparr>bench_now = 50000014, bench_broker = 0, warnings = []\<rparr>)
   \<and> (50000014 :: int) \<le> 3 * 7 + 25 * millisecond * (3 * 4)"
proof -
  let ?s = "\<lparr>bench_now = 0, bench_broker = 1, warnings = []\<rparr> :: nat bench"
  let ?t = "\<lparr>bench_now = 50000014, bench_broker = 0, warnings = []\<rparr> :: nat bench"
  have run: "retryOperation flaky 3 ''binding'' ?s = (None, ?t)"
    by (simp add: retryOperation_def retry_loop.simps flaky_def call_def bench_sleep_def)
  have "\<forall>s. bench_now s \<le> bench_now (snd (flaky s)) \<and> bench_now (snd (flaky s)) \<le> bench_now s + 7"
    by (simp add: flaky_def call_def)
  from retry_bounded [OF run this] have "bench_now ?t \<le> bench_now ?s + 3 * 7 + 25 * millisecond * (3 * (3 + 1))"
    by (elim conjE) simp
  with run show ?thesis by simp
qed

text \<open>\<open>waitForQueueReady\<close> returns nil only after the broker found the queue within the time, and fails only
  after the time is over; with calls that take at most \<open>T\<close>, it takes at most \<open>maxWait + T\<close> and one
  pause.\<close>

lemma wait_loop_bounded:
  assumes "wait_loop dt channel q maxWait start s = (r, s')"
    and "\<And>b. fst (snd (QueueDeclarePassive channel q False False False False None b)) \<le> T"
    and "bench_now s \<le> start + max 0 maxWait + int T + 25 * millisecond"
  shows "(case r of
      None \<Rightarrow> \<exists>s1 n. bench_now s1 - start < maxWait \<and> bench_now s \<le> bench_now s1
        \<and> call (QueueDeclarePassive channel q False False False False None) s1 = (Inr n, s')
    | Some e \<Rightarrow> maxWait \<le> bench_now s' - start)
    \<and> bench_now s' \<le> start + max 0 maxWait + int T + 25 * millisecond"
  using assms
proof (induction dt channel q maxWait start s rule: wait_loop.induct)
  case (1 dt channel q maxWait start s)
  let ?f = "QueueDeclarePassive channel q False False False False None"
  show ?case
  proof (cases "bench_now s - start < maxWait")
    case True
    obtain x s1 where run: "call ?f s = (x, s1)" by fastforce
    have time: "bench_now s \<le> bench_now s1" "bench_now s1 \<le> bench_now s + int T"
      using run "1.prems"(2) [of "bench_broker s"] by (auto simp: call_def split: prod.splits)
    show ?thesis
    proof (cases x)
      case (Inr n)
      with True run "1.prems"(1) have "r = None" "s' = s1" by (simp_all add: wait_loop.simps [of _ _ _ _ _ s])
      with Inr run time True show ?thesis by (intro conjI) (auto intro!: exI [of _ s])
    next
      case (Inl e)
      have loop: "wait_loop dt channel q maxWait start (bench_sleep (25 * millisecond) s1) = (r, s')"
        using True run Inl "1.prems"(1) by (simp add: wait_loop.simps [of _ _ _ _ _ s])
      have "bench_now (bench_sleep (25 * millisecond) s1) \<le> start + max 0 maxWait + int T + 25 * millisecond"
        using time True by (simp add: bench_sleep_def)
      from "1.IH" [OF True run [symmetric] Inl loop "1.prems"(2) this] time
      show ?thesis by (auto simp: bench_sleep_def split: option.splits intro: order_trans)
    qed
  next
    case False
    with "1.prems" show ?thesis by (auto simp: wait_loop.simps [of _ _ _ _ _ s])
  qed
qed

theorem wait_bounded:
  assumes "waitForQueueReady dt channel q maxWait s = (r, s')"
    and "\<forall>b. fst (snd (QueueDeclarePassive channel q False False False False None b)) \<le> T"
  shows "(case r of
      None \<Rightarrow> \<exists>s1 n. bench_now s1 - bench_now s < maxWait \<and> bench_now s \<le> bench_now s1
        \<and> call (QueueDeclarePassive channel q False False False False None) s1 = (Inr n, s')
    | Some e \<Rightarrow> maxWait \<le> bench_now s' - bench_now s)
    \<and> bench_now s' \<le> bench_now s + max 0 maxWait + int T + 25 * millisecond"
  using assms by (intro wait_loop_bounded) (simp_all add: waitForQueueReady_def)


section \<open>What a constructor makes and \<open>Delete\<close> takes away\<close>

text \<open>
  What the AMQP specification says of these calls, over the names of the broker's queues and
  exchanges: a call that fails changes neither, a declaration adds the name it was given, a deletion
  removes it, and the rest changes neither.
\<close>

definition server_laws :: "'b topology \<Rightarrow> ('b \<Rightarrow> string set) \<Rightarrow> ('b \<Rightarrow> string set) \<Rightarrow> bool" where
  "server_laws ch queues exchanges \<longleftrightarrow>
     (\<forall>n du ad ex nw args b r t b'. QueueDeclare ch n du ad ex nw args b = (r, t, b') \<longrightarrow>
        exchanges b' = exchanges b \<and>
        (case r of Inl e \<Rightarrow> queues b' = queues b | Inr q \<Rightarrow> (n \<noteq> [] \<longrightarrow> q = n) \<and> queues b' = insert q (queues b)))
   \<and> (\<forall>n du ad ex nw args b r t b'. QueueDeclarePassive ch n du ad ex nw args b = (r, t, b') \<longrightarrow>
        exchanges b' = exchanges b \<and> queues b' = queues b)
   \<and> (\<forall>q k x nw args b r t b'. QueueBind ch q k x nw args b = (r, t, b') \<longrightarrow>
        exchanges b' = exchanges b \<and> queues b' = queues b)
   \<and> (\<forall>x k du ad i nw args b r t b'. ExchangeDeclare ch x k du ad i nw args b = (r, t, b') \<longrightarrow>
        queues b' = queues b \<and> exchanges b' = (if r = None then insert x (exchanges b) else exchanges b))
   \<and> (\<forall>q u e nw b r t b'. QueueDelete ch q u e nw b = (r, t, b') \<longrightarrow>
        exchanges b' = exchanges b \<and> queues b' = (if r = None then queues b - {q} else queues b))
   \<and> (\<forall>x u nw b r t b'. ExchangeDelete ch x u nw b = (r, t, b') \<longrightarrow>
        queues b' = queues b \<and> exchanges b' = (if r = None then exchanges b - {x} else exchanges b))"

lemma bench_simps [simp]:
  "bench_broker (bench_sleep d s) = bench_broker s" "bench_broker (warn t e s) = bench_broker s"
  "warnings (bench_sleep d s) = warnings s" "warnings (warn t e s) = warnings s @ [(t, e)]"
  by (simp_all add: bench_sleep_def warn_def)

lemma call_broker: "call f s = (r, s1) \<Longrightarrow> \<exists>t. f (bench_broker s) = (r, t, bench_broker s1) \<and> warnings s1 = warnings s"
  by (auto simp: call_def split: prod.splits)

text \<open>Acts that leave a part of the broker as it is.\<close>

lemma wait_loop_keeps:
  assumes "\<And>s r s'. call (QueueDeclarePassive channel q False False False False None) s = (r, s') \<Longrightarrow> f (bench_broker s') = f (bench_broker s)"
  shows "wait_loop dt channel q maxWait start s = (r, s') \<Longrightarrow> f (bench_broker s') = f (bench_broker s)"
  using assms
proof (induction dt channel q maxWait start s rule: wait_loop.induct)
  case (1 dt channel q maxWait start s)
  obtain x s1 where run: "call (QueueDeclarePassive channel q False False False False None) s = (x, s1)" by fastforce
  from "1.prems"(2) [OF run] have same: "f (bench_broker s1) = f (bench_broker s)" .
  show ?case
  proof (cases "bench_now s - start < maxWait")
    case True
    with run "1.prems"(1) same show ?thesis
      by (cases x) (use "1.IH" [OF True run [symmetric]] "1.prems"(2) in \<open>auto simp: wait_loop.simps [of _ _ _ _ _ s]\<close>)
  qed (use "1.prems"(1) in \<open>simp add: wait_loop.simps [of _ _ _ _ _ s]\<close>)
qed

lemma retry_loop_keeps:
  assumes "\<And>s r s'. operation s = (r, s') \<Longrightarrow> f (bench_broker s') = f (bench_broker s)"
  shows "retry_loop operation n i lastErr s = (r, s') \<Longrightarrow> f (bench_broker s') = f (bench_broker s)"
  using assms
proof (induction operation n i lastErr s rule: retry_loop.induct)
  case (1 operation n i lastErr s)
  obtain x s1 where run: "operation s = (x, s1)" by fastforce
  show ?case
  proof (cases "i < n")
    case True
    with run "1.prems" show ?thesis
      by (cases x) (use "1.IH" [OF True run [symmetric]] "1.prems"(2) [OF run] in
          \<open>auto simp: retry_loop.simps [of _ _ _ _ s] split: if_splits\<close>)
  qed (use "1.prems"(1) in \<open>simp add: retry_loop.simps [of _ _ _ _ s]\<close>)
qed

lemma retryOperation_keeps:
  assumes "\<And>s r s'. operation s = (r, s') \<Longrightarrow> f (bench_broker s') = f (bench_broker s)"
    and "retryOperation operation n description s = (r, s')"
  shows "f (bench_broker s') = f (bench_broker s)"
  using assms(2) retry_loop_keeps [of operation f, OF assms(1)]
  by (fastforce simp: retryOperation_def split: prod.splits sum.splits)


lemma server_calls:
  assumes "server_laws ch queues exchanges"
  shows "call (QueueDeclare ch n du ad ex nw args) s = (Inr q, s1) \<Longrightarrow>
      exchanges (bench_broker s1) = exchanges (bench_broker s) \<and> (n \<noteq> [] \<longrightarrow> q = n)
      \<and> queues (bench_broker s1) = insert q (queues (bench_broker s))"
    and "call (QueueDeclarePassive ch n du ad ex nw args) s = (p, s1) \<Longrightarrow>
      exchanges (bench_broker s1) = exchanges (bench_broker s) \<and> queues (bench_broker s1) = queues (bench_broker s)"
    and "call (QueueBind ch n k x nw args) s = (r, s1) \<Longrightarrow>
      exchanges (bench_broker s1) = exchanges (bench_broker s) \<and> queues (bench_broker s1) = queues (bench_broker s)"
    and "call (ExchangeDeclare ch x k du ad i nw args) s = (None, s1) \<Longrightarrow>
      queues (bench_broker s1) = queues (bench_broker s) \<and> exchanges (bench_broker s1) = insert x (exchanges (bench_broker s))"
    and "call (QueueDelete ch n du ad nw) s = (r, s1) \<Longrightarrow>
      exchanges (bench_broker s1) = exchanges (bench_broker s)
      \<and> queues (bench_broker s1) = (if r = None then queues (bench_broker s) - {n} else queues (bench_broker s))"
    and "call (ExchangeDelete ch x du nw) s = (r, s1) \<Longrightarrow>
      queues (bench_broker s1) = queues (bench_broker s)
      \<and> exchanges (bench_broker s1) = (if r = None then exchanges (bench_broker s) - {x} else exchanges (bench_broker s))"
  using assms unfolding server_laws_def
  by (blast dest!: call_broker | fastforce dest!: call_broker)+

lemma await_queue_keeps:
  assumes "server_laws ch queues exchanges"
  shows "queues (bench_broker (await_queue dt ch q s)) = queues (bench_broker s)"
    "exchanges (bench_broker (await_queue dt ch q s)) = exchanges (bench_broker s)"
proof -
  obtain r s' where run: "waitForQueueReady dt ch q (2000 * millisecond) s = (r, s')" by fastforce
  then have loop: "wait_loop dt ch q (2000 * millisecond) (bench_now s) s = (r, s')" by (simp add: waitForQueueReady_def)
  have "queues (bench_broker s') = queues (bench_broker s)" "exchanges (bench_broker s') = exchanges (bench_broker s)"
    by (rule wait_loop_keeps [OF _ loop], use server_calls(2) [OF assms] in blast)+
  then show "queues (bench_broker (await_queue dt ch q s)) = queues (bench_broker s)"
    "exchanges (bench_broker (await_queue dt ch q s)) = exchanges (bench_broker s)"
    unfolding await_queue_def run by (simp_all split: option.split)
qed

lemma bind_test_queue_made:
  assumes "server_laws ch queues exchanges" "n \<noteq> []"
    and "bind_test_queue ch n key x args description s = (Ret q, s')"
  shows "q = n \<and> queues (bench_broker s') = insert n (queues (bench_broker s))
    \<and> exchanges (bench_broker s') = exchanges (bench_broker s)"
proof -
  obtain s1 s2 p where decl: "call (QueueDeclare ch n True False False False None) s = (Inr q, s1)"
    and bind: "retryOperation (call (QueueBind ch q key x False args)) 3 (description q) s1 = (None, s2)"
    and look: "call (QueueDeclarePassive ch q False False False False None) s2 = (p, s')"
    using assms(3)
    by (auto simp: bind_test_queue_def bench_then_def must_def must_get_def split: prod.splits res.splits sum.splits option.splits)
  note calls = server_calls [OF assms(1)]
  have "queues (bench_broker s2) = queues (bench_broker s1)" "exchanges (bench_broker s2) = exchanges (bench_broker s1)"
    using retryOperation_keeps [OF _ bind, of queues] retryOperation_keeps [OF _ bind, of exchanges] calls(3) by blast+
  with calls(1) [OF decl] calls(2) [OF look] assms(2) show ?thesis by simp
qed

lemma bind_all_made:
  assumes "server_laws ch queues exchanges" "\<forall>p \<in> set ps. qp_name p \<noteq> []"
    and "bind_all ch x ps s = (Ret qs, s')"
  shows "qs = map qp_name ps \<and> queues (bench_broker s') = queues (bench_broker s) \<union> qp_name ` set ps
    \<and> exchanges (bench_broker s') = exchanges (bench_broker s)"
  using assms(2,3)
proof (induction ps arbitrary: s qs)
  case (Cons p ps)
  then obtain q s1 qs' where first: "bind_test_queue ch (qp_name p) (qp_routing p) x (qp_args p) (qp_description p) s = (Ret q, s1)"
    and rest: "bind_all ch x ps s1 = (Ret qs', s')" and qs: "qs = q # qs'"
    by (auto simp: bench_then_def split: prod.splits res.splits)
  with Cons bind_test_queue_made [OF assms(1) _ first] show ?case by auto
qed simp

lemma fold_await_keeps:
  assumes "server_laws ch queues exchanges"
  shows "queues (bench_broker (fold (await_queue dt ch) qs s)) = queues (bench_broker s)
    \<and> exchanges (bench_broker (fold (await_queue dt ch) qs s)) = exchanges (bench_broker s)"
  by (induction qs arbitrary: s) (simp_all add: await_queue_keeps [OF assms])

lemma make_test_exchange_made:
  assumes "server_laws ch queues exchanges" "\<forall>p \<in> set ps. qp_name p \<noteq> []"
    and "make_test_exchange dt ch x kind ps s = (Ret (qs, m), s')"
  shows "qs = map qp_name ps \<and> m = mapping_of ps qs
    \<and> queues (bench_broker s') = queues (bench_broker s) \<union> qp_name ` set ps
    \<and> exchanges (bench_broker s') = insert x (exchanges (bench_broker s))"
proof -
  obtain s1 s2 where decl: "call (ExchangeDeclare ch x kind True False False False None) s = (None, s1)"
    and bind: "bind_all ch x ps s1 = (Ret qs, s2)" and m: "m = mapping_of ps qs"
    and s': "s' = fold (await_queue dt ch) (map snd m) s2"
    using assms(3)
    by (auto simp: make_test_exchange_def declare_test_exchange_def must_def bench_then_def Let_def
        split: prod.splits res.splits option.splits)
  with server_calls(4) [OF assms(1) decl] bind_all_made [OF assms(1,2) bind] fold_await_keeps [OF assms(1)]
  show ?thesis by simp
qed

text \<open>Deletions that printed no warning all succeeded.\<close>

lemma delete_queues_done:
  assumes "server_laws ch queues exchanges"
  shows "(\<exists>ws. warnings (delete_queues ch qs s) = warnings s @ ws)
    \<and> exchanges (bench_broker (delete_queues ch qs s)) = exchanges (bench_broker s)
    \<and> (warnings (delete_queues ch qs s) = warnings s \<longrightarrow>
         queues (bench_broker (delete_queues ch qs s)) = queues (bench_broker s) - fst ` set qs)"
proof (induction qs arbitrary: s)
  case (Cons p qs)
  obtain q what where p: "p = (q, what)" by (cases p)
  obtain r s1 where run: "call (QueueDelete ch q False False False) s = (r, s1)" by fastforce
  show ?case
  proof (cases r)
    case None
    with run server_calls(5) [OF assms run] call_broker [OF run] Cons [of s1] show ?thesis by (auto simp: p)
  next
    case (Some e)
    let ?s2 = "warn (''Warning: Failed to delete queue '' @ q @ what) e s1"
    have first: "delete_queues ch (p # qs) s = delete_queues ch qs ?s2" by (simp add: p run Some)
    obtain ws where "warnings (delete_queues ch qs ?s2) = warnings ?s2 @ ws" using Cons [of ?s2] by blast
    with call_broker [OF run] Some server_calls(5) [OF assms run] Cons [of ?s2] show ?thesis
      unfolding first by auto
  qed
qed simp


lemma torn_down:
  assumes laws: "server_laws ch queues exchanges" and "\<forall>p \<in> set ps. qp_name p \<noteq> []"
    and made: "make_test_exchange dt ch x kind ps s = (Ret (qs, m), s1)"
    and s2: "s2 = delete_exchange ch x (delete_queues ch dels s1)" and "warnings s2 = warnings s1"
  shows "queues (bench_broker s2) = (queues (bench_broker s) \<union> qp_name ` set ps) - fst ` set dels
    \<and> exchanges (bench_broker s2) = exchanges (bench_broker s) - {x}"
proof -
  let ?t = "delete_queues ch dels s1"
  obtain ws where t: "warnings ?t = warnings s1 @ ws" "exchanges (bench_broker ?t) = exchanges (bench_broker s1)"
    "warnings ?t = warnings s1 \<longrightarrow> queues (bench_broker ?t) = queues (bench_broker s1) - fst ` set dels"
    using delete_queues_done [OF laws, of dels s1] by blast
  obtain r u where run: "call (ExchangeDelete ch x False False) ?t = (r, u)" by fastforce
  from call_broker [OF this] have u: "warnings u = warnings ?t" by blast
  have quiet: "r = None" "ws = []"
    using assms(5) unfolding s2 delete_exchange_def run by (auto simp: u t(1) split: option.splits)
  then have "s2 = u" by (simp add: s2 delete_exchange_def run)
  moreover have "queues (bench_broker u) = queues (bench_broker ?t)"
    "exchanges (bench_broker u) = exchanges (bench_broker ?t) - {x}"
    using server_calls(6) [OF laws run] quiet(1) by simp_all
  moreover have "queues (bench_broker ?t) = queues (bench_broker s1) - fst ` set dels"
    using t(1,3) quiet(2) by simp
  moreover have "queues (bench_broker s1) = queues (bench_broker s) \<union> qp_name ` set ps"
    "exchanges (bench_broker s1) = insert x (exchanges (bench_broker s))"
    using make_test_exchange_made [OF laws assms(2) made] by blast+
  ultimately show ?thesis using t(2) by simp
qed

text \<open>The mapping holds, for each key, the queue made last for it.\<close>

lemma fold_update_keeps_wf: "wf_map m \<Longrightarrow> wf_map (fold (\<lambda>(k, q) m. AList.update k q m) kqs m)"
  by (induction kqs arbitrary: m) auto

lemma map_of_fold_update:
  "map_of (fold (\<lambda>(k, q) m. AList.update k q m) kqs m) = map_of m ++ map_of (rev kqs)"
  by (induction kqs arbitrary: m) (auto simp: go_maps map_add_def fun_eq_iff split: option.split)

lemma map_of_rev_iff:
  "map_of (rev kqs) k = Some q \<longleftrightarrow>
     (\<exists>i < length kqs. kqs ! i = (k, q) \<and> (\<forall>j. i < j \<longrightarrow> j < length kqs \<longrightarrow> fst (kqs ! j) \<noteq> k))"
proof (induction kqs rule: rev_induct)
  case (snoc x kqs)
  let ?last = "\<lambda>kqs i. kqs ! i = (k, q) \<and> (\<forall>j. i < j \<longrightarrow> j < length kqs \<longrightarrow> fst (kqs ! j) \<noteq> k)"
  have old: "?last (kqs @ [x]) i \<longleftrightarrow> fst x \<noteq> k \<and> ?last kqs i" if "i < length kqs" for i
    using that by (auto simp: nth_append less_Suc_eq)
  have new: "?last (kqs @ [x]) (length kqs) \<longleftrightarrow> x = (k, q)" by simp
  have ex: "(\<exists>i < Suc n. P i) \<longleftrightarrow> P n \<or> (\<exists>i < n. P i)" for n P by (auto simp: less_Suc_eq)
  have "(\<exists>i < length (kqs @ [x]). ?last (kqs @ [x]) i)
      \<longleftrightarrow> ?last (kqs @ [x]) (length kqs) \<or> (\<exists>i < length kqs. ?last (kqs @ [x]) i)"
    unfolding length_append_singleton by (rule ex)
  also have "\<dots> \<longleftrightarrow> x = (k, q) \<or> fst x \<noteq> k \<and> (\<exists>i < length kqs. ?last kqs i)"
    using new old by blast
  also have "\<dots> \<longleftrightarrow> map_of (rev (kqs @ [x])) k = Some q"
    using snoc.IH by (cases x) auto
  finally show ?case ..
qed simp

lemma mapping_of_iff:
  "map_of (mapping_of ps (map qp_name ps)) k = Some q \<longleftrightarrow>
     (\<exists>i < length ps. qp_key (ps ! i) = k \<and> qp_name (ps ! i) = q
        \<and> (\<forall>j. i < j \<longrightarrow> j < length ps \<longrightarrow> qp_key (ps ! j) \<noteq> k))"
proof -
  have zip: "zip (map qp_key ps) (map qp_name ps) = map (\<lambda>p. (qp_key p, qp_name p)) ps"
    by (simp add: zip_map_map zip_same_conv_map)
  show ?thesis
    unfolding mapping_of_def map_of_fold_update zip
    by (auto simp: map_of_rev_iff)
qed

lemma mapping_of_queues:
  "q \<in> snd ` set (mapping_of ps (map qp_name ps)) \<longleftrightarrow>
     (\<exists>i < length ps. qp_name (ps ! i) = q \<and> (\<forall>j. i < j \<longrightarrow> j < length ps \<longrightarrow> qp_key (ps ! j) \<noteq> qp_key (ps ! i)))"
proof -
  have "wf_map (mapping_of ps (map qp_name ps))" by (simp add: mapping_of_def fold_update_keeps_wf)
  then have "q \<in> snd ` set (mapping_of ps (map qp_name ps)) \<longleftrightarrow> (\<exists>k. map_of (mapping_of ps (map qp_name ps)) k = Some q)"
    by (force simp: wf_map_of_in)
  then show ?thesis unfolding mapping_of_iff by blast
qed

lemma mapping_of_functional:
  assumes "\<forall>p \<in> set ps. qp_name p = g (qp_key p)"
  shows "snd ` set (mapping_of ps (map qp_name ps)) = qp_name ` set ps"
proof (intro set_eqI iffI)
  fix q
  assume "q \<in> qp_name ` set ps"
  then obtain i where i: "i < length ps" "qp_name (ps ! i) = q" by (auto simp: in_set_conv_nth)
  define J where "J = {j. j < length ps \<and> qp_key (ps ! j) = qp_key (ps ! i)}"
  define m where "m = Max J"
  have "finite J" "i \<in> J" using i by (simp_all add: J_def)
  then have "m \<in> J" unfolding m_def by (metis Max_in empty_iff)
  have top: "j \<le> m" if "j \<in> J" for j using \<open>finite J\<close> that unfolding m_def by (rule Max_ge)
  from \<open>m \<in> J\<close> have m: "qp_key (ps ! m) = qp_key (ps ! i)" "m < length ps" unfolding J_def by blast+
  have "qp_name (ps ! m) = g (qp_key (ps ! m))" "qp_name (ps ! i) = g (qp_key (ps ! i))"
    using assms nth_mem [OF m(2)] nth_mem [OF i(1)] by blast+
  then have "qp_name (ps ! m) = q" using m(1) i(2) by simp
  moreover have "\<forall>j. m < j \<longrightarrow> j < length ps \<longrightarrow> qp_key (ps ! j) \<noteq> qp_key (ps ! m)"
    using top m(1) by (fastforce simp: J_def)
  ultimately show "q \<in> snd ` set (mapping_of ps (map qp_name ps))"
    unfolding mapping_of_queues using m(2) by blast
qed (auto simp: mapping_of_queues)


lemma exchange_name_not_empty: "\<not> (exchangeName @ ''_'' @ randomPart = [])"
  by simp

lemma bench_then_Ret: "bench_then m k s = (Ret c, s2) \<Longrightarrow> \<exists>a s1. m s = (Ret a, s1) \<and> k a s1 = (Ret c, s2)"
  by (auto simp: bench_then_def split: prod.splits res.splits)

text \<open>The name of the queue of the pattern number \<open>i\<close>.\<close>

definition topic_queue :: "string \<Rightarrow> string \<Rightarrow> nat \<Rightarrow> string" where
  "topic_queue exchangeName randomPart i = exchangeName @ ''_pattern'' @ show_nat i @ ''_'' @ randomPart"

lemma topic_queue_inj: "topic_queue x r i = topic_queue x r j \<longleftrightarrow> i = j"
  by (simp add: topic_queue_def) (metis option.inject parse_nat_show_nat)

lemma topic_plan_nth:
  assumes "i < length patterns"
  shows "qp_key (map (topic_plan x r f) (enumerate 0 patterns) ! i) = patterns ! i"
    and "qp_name (map (topic_plan x r f) (enumerate 0 patterns) ! i) = topic_queue x r i"
  using assms by (simp_all add: nth_enumerate_eq topic_plan_def topic_queue_def)

text \<open>C35: A topic exchange made for a list of patterns has, for each pattern, the queue of its last
  occurrence. Deleting it, when no warning is printed, removes the exchange and those queues from the
  broker and touches nothing else: every other queue stays, and so do the queues that the constructor
  made for a pattern that occurs again later in the list, which nothing refers to any more.\<close>

theorem topic_exchange_torn_down:
  assumes laws: "server_laws channel queues exchanges"
    and make: "CreateTopicExchange dt r channel x patterns s = (Ret d, s1)"
    and del: "TopicExchange_Delete d s1 = s2" and quiet: "warnings s2 = warnings s1"
    and fresh: "x @ ''_'' @ r \<notin> exchanges (bench_broker s)" "\<forall>i. topic_queue x r i \<notin> queues (bench_broker s)"
  shows "exchanges (bench_broker s2) = exchanges (bench_broker s)
    \<and> queues (bench_broker s2) = queues (bench_broker s)
        \<union> {topic_queue x r i |i. \<exists>j. i < j \<and> j < length patterns \<and> patterns ! j = patterns ! i}
    \<and> (\<forall>i < length patterns. (\<forall>j. i < j \<longrightarrow> j < length patterns \<longrightarrow> patterns ! j \<noteq> patterns ! i) \<longrightarrow>
         map_of (ToQueue d) (patterns ! i) = Some (topic_queue x r i)
         \<and> topic_queue x r i \<in> queues (bench_broker s1))"
proof -
  let ?ps = "map (topic_plan x r (x @ ''_'' @ r)) (enumerate 0 patterns)"
  let ?qs = "map qp_name ?ps"
  have len: "length ?ps = length patterns" by simp
  note nth = topic_plan_nth [of _ patterns x r "x @ ''_'' @ r"]
  have named: "\<forall>p \<in> set ?ps. qp_name p \<noteq> []" by (auto simp: topic_plan_def)
  obtain qs m where made: "make_test_exchange dt channel (x @ ''_'' @ r) ''topic'' ?ps s = (Ret (qs, m), s1)"
    and d: "d = \<lparr>ex_channel = channel, ExchangeName = x @ ''_'' @ r, ToQueue = m\<rparr>"
    using make unfolding CreateTopicExchange_def Let_def by (fastforce dest!: bench_then_Ret)
  have m: "m = mapping_of ?ps ?qs" and q1: "queues (bench_broker s1) = queues (bench_broker s) \<union> qp_name ` set ?ps"
    using make_test_exchange_made [OF laws named made] by auto
  have "s2 = delete_exchange channel (x @ ''_'' @ r)
      (delete_queues channel (map (\<lambda>(pattern, q). (q, '' for pattern '' @ pattern)) m) s1)"
    using del by (simp add: TopicExchange_Delete_def d)
  from torn_down [OF laws named made this quiet]
  have down: "queues (bench_broker s2) = (queues (bench_broker s) \<union> qp_name ` set ?ps) - snd ` set m"
    "exchanges (bench_broker s2) = exchanges (bench_broker s) - {x @ ''_'' @ r}"
    by (simp_all add: image_image case_prod_unfold)
  have names: "qp_name ` set ?ps = {topic_queue x r i |i. i < length patterns}"
    unfolding set_conv_nth [of ?ps] len using nth(2) by (force simp del: nth_map length_map)
  have mapped: "q \<in> snd ` set m \<longleftrightarrow> (\<exists>i < length patterns. q = topic_queue x r i
      \<and> (\<forall>j. i < j \<longrightarrow> j < length patterns \<longrightarrow> patterns ! j \<noteq> patterns ! i))" for q
    unfolding m mapping_of_queues len using nth by metis
  have left: "queues (bench_broker s2) = queues (bench_broker s)
        \<union> {topic_queue x r i |i. \<exists>j. i < j \<and> j < length patterns \<and> patterns ! j = patterns ! i}" (is "_ = ?R")
  proof (intro set_eqI iffI)
    fix q
    assume "q \<in> queues (bench_broker s2)"
    then show "q \<in> ?R" unfolding down(1) names using mapped by auto
  next
    fix q
    assume "q \<in> ?R"
    then consider "q \<in> queues (bench_broker s)"
      | i j where "q = topic_queue x r i" "i < j" "j < length patterns" "patterns ! j = patterns ! i" by blast
    then show "q \<in> queues (bench_broker s2)"
    proof cases
      case 1
      with fresh(2) have "q \<notin> snd ` set m" unfolding mapped by auto
      with 1 show ?thesis unfolding down(1) by blast
    next
      case 2
      have "q \<notin> snd ` set m" unfolding mapped using 2 by (auto simp: topic_queue_inj)
      moreover have "q \<in> qp_name ` set ?ps" unfolding names using 2 by fastforce
      ultimately show ?thesis unfolding down(1) by blast
    qed
  qed
  have "map_of (ToQueue d) (patterns ! i) = Some (topic_queue x r i) \<and> topic_queue x r i \<in> queues (bench_broker s1)"
    if "i < length patterns" "\<forall>j. i < j \<longrightarrow> j < length patterns \<longrightarrow> patterns ! j \<noteq> patterns ! i" for i
  proof
    have "map_of m (patterns ! i) = Some (topic_queue x r i)"
      unfolding m mapping_of_iff len using that nth by (intro exI [of _ i]) (simp del: nth_map length_map)
    then show "map_of (ToQueue d) (patterns ! i) = Some (topic_queue x r i)" by (simp add: d)
    show "topic_queue x r i \<in> queues (bench_broker s1)" unfolding q1 names using that(1) by blast
  qed
  with left down(2) fresh(1) show ?thesis by auto
qed

text \<open>The queues of the other exchanges are named after the keys, so deleting one of these exchanges leaves
  nothing of it behind, whatever keys were given.\<close>

theorem exchange_torn_down:
  assumes laws: "server_laws channel queues exchanges"
    and "(\<exists>d. CreateDirectRoutingExchange dt r channel x keys s = (Ret d, s1) \<and> DirectRoutingExchange_Delete d s1 = s2)
       \<or> (\<exists>d. CreateFanoutExchange dt r channel x keys s = (Ret d, s1) \<and> FanoutExchange_Delete d s1 = s2)
       \<or> (\<exists>d bs. CreateHeadersExchange dt r channel x bs s = (Ret d, s1) \<and> HeadersExchange_Delete d s1 = s2
             \<and> map BindingKey bs = keys)"
    and quiet: "warnings s2 = warnings s1"
    and fresh: "x @ ''_'' @ r \<notin> exchanges (bench_broker s)" "\<forall>key. x @ ''_'' @ key @ ''_'' @ r \<notin> queues (bench_broker s)"
  shows "exchanges (bench_broker s2) = exchanges (bench_broker s) \<and> queues (bench_broker s2) = queues (bench_broker s)"
proof -
  let ?x = "x @ ''_'' @ r"
  have all: ?thesis
    if made: "make_test_exchange dt channel ?x kind ps s = (Ret (qs, m), s1)"
      and s2: "s2 = delete_exchange channel ?x (delete_queues channel dels s1)"
      and ps: "\<forall>p \<in> set ps. qp_name p = x @ ''_'' @ qp_key p @ ''_'' @ r"
      and dels: "fst ` set dels = set qs \<or> fst ` set dels = snd ` set m" for kind ps qs m dels
  proof -
    have named: "\<forall>p \<in> set ps. qp_name p \<noteq> []" using ps by simp
    have qs: "qs = map qp_name ps" "m = mapping_of ps qs" using make_test_exchange_made [OF laws named made] by auto
    have "snd ` set m = qp_name ` set ps"
      unfolding qs(2) unfolding qs(1) by (rule mapping_of_functional [where g = "\<lambda>k. x @ ''_'' @ k @ ''_'' @ r"]) (use ps in simp)
    with dels qs(1) have "fst ` set dels = qp_name ` set ps" by auto
    moreover have "qp_name ` set ps \<inter> queues (bench_broker s) = {}" using ps fresh(2) by auto
    ultimately show ?thesis using torn_down [OF laws named made s2 quiet] fresh(1) by auto
  qed
  from assms(2) show ?thesis
  proof (elim disjE exE conjE)
    fix d assume make: "CreateDirectRoutingExchange dt r channel x keys s = (Ret d, s1)" and del: "DirectRoutingExchange_Delete d s1 = s2"
    obtain qs m where "make_test_exchange dt channel ?x ''direct'' (map (direct_plan x r ?x) keys) s = (Ret (qs, m), s1)"
      "d = \<lparr>ex_channel = channel, ExchangeName = ?x, ToQueue = m\<rparr>"
      using make unfolding CreateDirectRoutingExchange_def Let_def by (fastforce dest!: bench_then_Ret)
    with del show ?thesis
      by (intro all [of "''direct''" _ qs m "map (\<lambda>(route, q). (q, '' for route '' @ route)) m"])
        (auto simp: DirectRoutingExchange_Delete_def direct_plan_def image_image case_prod_unfold)
  next
    fix d assume make: "CreateFanoutExchange dt r channel x keys s = (Ret d, s1)" and del: "FanoutExchange_Delete d s1 = s2"
    obtain qs m where "make_test_exchange dt channel ?x ''fanout'' (map (fanout_plan x r ?x) keys) s = (Ret (qs, m), s1)"
      "d = \<lparr>ex_channel = channel, ExchangeName = ?x, ToQueue = m, Queues = qs\<rparr>"
      using make unfolding CreateFanoutExchange_def Let_def by (fastforce dest!: bench_then_Ret)
    with del show ?thesis
      by (intro all [of "''fanout''" _ qs m "map (\<lambda>q. (q, [])) qs"])
        (auto simp: FanoutExchange_Delete_def fanout_plan_def image_image)
  next
    fix d bs assume make: "CreateHeadersExchange dt r channel x bs s = (Ret d, s1)" and del: "HeadersExchange_Delete d s1 = s2"
    obtain qs m where "make_test_exchange dt channel ?x ''headers'' (map (headers_plan x r ?x) bs) s = (Ret (qs, m), s1)"
      "ex_channel d = channel" "ExchangeName d = ?x" "ToQueue d = m"
      using make unfolding CreateHeadersExchange_def Let_def by (fastforce dest!: bench_then_Ret)
    with del show ?thesis
      by (intro all [of "''headers''" _ qs m "map (\<lambda>(binding, q). (q, '' for binding '' @ binding)) m"])
        (auto simp: HeadersExchange_Delete_def headers_plan_def image_image case_prod_unfold)
  qed
qed


text \<open>A broker that does all it is told, for the witness: the names of its queues and its exchanges.\<close>

definition demo_server :: "(string set \<times> string set) topology" where
  "demo_server =
     \<lparr>ExchangeDeclare = (\<lambda>x k du ad i nw args (qs, xs). (None, 0, (qs, insert x xs))),
      QueueDeclare = (\<lambda>n du ad ex nw args (qs, xs). (Inr n, 0, (insert n qs, xs))),
      QueueDeclarePassive = (\<lambda>n du ad ex nw args b. (Inr n, 0, b)),
      QueueBind = (\<lambda>q k x nw args b. (None, 0, b)),
      QueueDelete = (\<lambda>q u e nw (qs, xs). (None, 0, (qs - {q}, xs))),
      ExchangeDelete = (\<lambda>x u nw (qs, xs). (None, 0, (qs, xs - {x}))),
      topo_Publish = (\<lambda>x k m i p b. (None, 0, b)),
      topo_Consume = (\<lambda>q c a ex nl nw args b. (Inr 0, 0, b))\<rparr>"

lemma demo_server_laws: "server_laws demo_server fst snd"
  by (auto simp: server_laws_def demo_server_def)

lemma demo_deletes_quietly: "warnings (delete_queues demo_server qs s) = warnings s"
  by (induction qs arbitrary: s) (auto simp: demo_server_def call_def split: prod.splits)

theorem topic_exchange_torn_down_witness:
  "\<exists>d s1. CreateTopicExchange (\<lambda>t. []) ''r'' demo_server ''x'' [''a'', ''b'', ''a'']
       \<lparr>bench_now = 0, bench_broker = ({}, {}), warnings = []\<rparr> = (Ret d, s1)
     \<and> fst (bench_broker (TopicExchange_Delete d s1)) = {''x_pattern0_r''}
     \<and> snd (bench_broker (TopicExchange_Delete d s1)) = {}"
proof -
  let ?s = "\<lparr>bench_now = 0, bench_broker = ({}, {}), warnings = []\<rparr> :: (string set \<times> string set) bench"
  obtain d s1 where make: "CreateTopicExchange (\<lambda>t. []) ''r'' demo_server ''x'' [''a'', ''b'', ''a''] ?s = (Ret d, s1)"
    and d: "ex_channel d = demo_server" "ExchangeName d = ''x_r''"
    by (simp add: CreateTopicExchange_def make_test_exchange_def declare_test_exchange_def bind_test_queue_def must_def
        must_get_def bench_then_def demo_server_def call_def retryOperation_def retry_loop.simps topic_plan_def Let_def)
  have quiet: "warnings (TopicExchange_Delete d s1) = warnings s1"
    by (simp add: TopicExchange_Delete_def d delete_exchange_def call_def demo_deletes_quietly)
      (simp add: demo_server_def demo_deletes_quietly [unfolded demo_server_def] split: prod.split)
  have leaked: "{topic_queue ''x'' ''r'' i |i. \<exists>j. i < j \<and> j < length [''a'', ''b'', ''a'']
      \<and> [''a'', ''b'', ''a''] ! j = [''a'', ''b'', ''a''] ! i} = {topic_queue ''x'' ''r'' 0}"
    by (rule setcompr_singleton [where s = 0]) (auto simp: less_Suc_eq nth_Cons')
  from topic_exchange_torn_down [OF demo_server_laws make refl quiet] leaked
  have "fst (bench_broker (TopicExchange_Delete d s1)) = {topic_queue ''x'' ''r'' 0}"
    "snd (bench_broker (TopicExchange_Delete d s1)) = {}"
    by simp_all
  moreover have "topic_queue ''x'' ''r'' 0 = ''x_pattern0_r''"
    by code_simp
  ultimately show ?thesis using make by metis
qed

end
