(* ===== verification/Load_Test.thy ===== *)
theory Load_Test
  imports Go_Values "HOL-Library.Word"
begin

text \<open>
  \<open>core/loadtest/loadtest.go\<close>: the recorder of message IDs by key and the comparisons of two lists of
  IDs. The recorder's mutex makes each operation one step, so it is a value its operations update.
\<close>

record recorder =
  rec_ids :: "(string, string list) gomap"

definition NewRecorder :: recorder where
  "NewRecorder = \<lparr>rec_ids = []\<rparr>"

text \<open>Reading a missing key of a Go map gives the nil slice.\<close>

definition rec_get :: "recorder \<Rightarrow> string \<Rightarrow> string list option" where
  "rec_get r k = map_of (rec_ids r) k"

definition Record :: "string \<Rightarrow> string \<Rightarrow> recorder \<Rightarrow> recorder" where
  "Record k i r = r\<lparr>rec_ids := AList.update k ((case rec_get r k of None \<Rightarrow> [] | Some is \<Rightarrow> is) @ [i]) (rec_ids r)\<rparr>"

definition IDs :: "recorder \<Rightarrow> string \<Rightarrow> string list" where
  "IDs r k = (case rec_get r k of None \<Rightarrow> [] | Some is \<Rightarrow> is)"

definition Count :: "recorder \<Rightarrow> string \<Rightarrow> nat" where
  "Count r k = length (case rec_get r k of None \<Rightarrow> [] | Some is \<Rightarrow> is)"

definition toSet :: "string list \<Rightarrow> (string, bool) gomap" where
  "toSet is = foldl (\<lambda>m i. AList.update i True m) [] is"

text \<open>\<open>set[id]\<close>, false for a missing key.\<close>

definition in_map :: "(string, bool) gomap \<Rightarrow> string \<Rightarrow> bool" where
  "in_map m i = (case map_of m i of None \<Rightarrow> False | Some b \<Rightarrow> b)"

definition Missing :: "string list \<Rightarrow> string list \<Rightarrow> string list" where
  "Missing expected actual = (let seen = toSet actual in foldl (\<lambda>missing i. if \<not> in_map seen i then missing @ [i] else missing) [] expected)"

definition Duplicates :: "string list \<Rightarrow> string list \<Rightarrow> string list" where
  "Duplicates a b = (let seen = toSet a in foldl (\<lambda>dups i. if in_map seen i then dups @ [i] else dups) [] b)"

definition rec_put :: "string \<Rightarrow> string list \<Rightarrow> recorder \<Rightarrow> recorder" where
  "rec_put k is r = r\<lparr>rec_ids := AList.update k is (rec_ids r)\<rparr>"

interpretation recorded: keyed_store rec_get rec_put "\<lambda>r. True"
  by unfold_locales (simp_all add: rec_get_def rec_put_def go_maps)

lemma Record_put: "Record k i r = rec_put k (IDs r k @ [i]) r"
  by (simp add: Record_def rec_put_def IDs_def)

lemma IDs_Record: "IDs (Record k i r) l = (if l = k then IDs r l @ [i] else IDs r l)"
  by (simp add: Record_put IDs_def recorded.get_put_same recorded.get_put_other)

lemma in_map_update: "in_map (AList.update k True m) i \<longleftrightarrow> i = k \<or> in_map m i"
  by (simp add: in_map_def go_maps)

lemma in_toSet: "in_map (toSet is) i \<longleftrightarrow> i \<in> set is"
proof -
  have "in_map (foldl (\<lambda>m i. AList.update i True m) m is) i \<longleftrightarrow> i \<in> set is \<or> in_map m i" for m
    by (induction "is" arbitrary: m) (auto simp: in_map_update)
  then show ?thesis by (simp add: toSet_def in_map_def)
qed

lemma foldl_filter: "foldl (\<lambda>acc i. if P i then acc @ [i] else acc) acc xs = acc @ filter P xs"
  by (induction xs arbitrary: acc) auto

lemma Missing_filter: "Missing expected actual = filter (\<lambda>i. i \<notin> set actual) expected"
  by (simp add: Missing_def in_toSet foldl_filter)

lemma Duplicates_filter: "Duplicates a b = filter (\<lambda>i. i \<in> set a) b"
  by (simp add: Duplicates_def foldl_filter) (rule filter_cong, simp_all add: in_toSet)

text \<open>Whatever the order in which keys are recorded, a key's IDs are the IDs recorded for it, in
  order, and its count is their number. The load tests' check is sound and complete: nothing is
  missing and nothing duplicated between two keys exactly if every expected ID was recorded for
  one of them and no ID for both.\<close>

theorem recorder_keeps_every_id:
  "IDs (foldl (\<lambda>r (k, i). Record k i r) NewRecorder events) key = map snd (filter (\<lambda>e. fst e = key) events)
   \<and> Count (foldl (\<lambda>r (k, i). Record k i r) NewRecorder events) key = length (filter (\<lambda>e. fst e = key) events)
   \<and> ((Missing expected (xs @ ys) = [] \<and> Duplicates xs ys = []) = (set expected \<subseteq> set xs \<union> set ys \<and> set xs \<inter> set ys = {}))"
proof -
  have "IDs (foldl (\<lambda>r (k, i). Record k i r) r events) key = IDs r key @ map snd (filter (\<lambda>e. fst e = key) events)" for r
    by (induction events arbitrary: r) (auto simp: IDs_Record)
  then have ids: "IDs (foldl (\<lambda>r (k, i). Record k i r) NewRecorder events) key = map snd (filter (\<lambda>e. fst e = key) events)"
    by (simp add: NewRecorder_def IDs_def rec_get_def)
  moreover have "Count r k = length (IDs r k)" for r k by (simp add: Count_def IDs_def)
  moreover have "(Missing expected (xs @ ys) = [] \<and> Duplicates xs ys = []) = (set expected \<subseteq> set xs \<union> set ys \<and> set xs \<inter> set ys = {})"
    by (auto simp: Missing_filter Duplicates_filter filter_empty_conv)
  ultimately show ?thesis by simp
qed

section \<open>Random numbers\<close>

text \<open>\<open>draw n\<close> is the number \<open>rand.IntN(n)\<close> takes from its source; \<open>IntN\<close> panics if \<open>n\<close> is not positive.\<close>

definition RandomInt :: "(int \<Rightarrow> int) \<Rightarrow> 64 word \<Rightarrow> 64 word \<Rightarrow> 64 word res" where
  "RandomInt draw lower higher =
     (let n = sint (higher - lower + 1)
      in if n \<le> 0 then Panic (PVal (VString ''invalid argument to IntN'')) else Ret (word_of_int (draw n) + lower))"

lemma sint_word_of_int_in_range: "- (2 ^ 63) \<le> i \<Longrightarrow> i < 2 ^ 63 \<Longrightarrow> sint (word_of_int i :: 64 word) = i"
  by (simp add: sint_sbintrunc' signed_take_bit_int_eq_self)

text \<open>The result is in the interval whenever its width fits a positive \<open>int\<close>, for any bounds, negative
  ones included; a wider interval wraps to a width that is not positive, and \<open>RandomInt\<close> panics.\<close>

lemma RandomInt_in_range:
  assumes "\<And>n. 0 < n \<Longrightarrow> 0 \<le> draw n \<and> draw n < n" "sint lower \<le> sint higher" "sint higher - sint lower + 1 < 2 ^ 63"
  shows "\<exists>r. RandomInt draw lower higher = Ret r \<and> sint lower \<le> sint r \<and> sint r \<le> sint higher"
proof -
  let ?n = "sint higher - sint lower + 1"
  have bounds: "- (2 ^ 63) \<le> sint lower" "sint lower < 2 ^ 63" "- (2 ^ 63) \<le> sint higher" "sint higher < 2 ^ 63"
    using sint_ge [of lower] sint_lt [of lower] sint_ge [of higher] sint_lt [of higher] by simp_all
  have "higher - lower + 1 = word_of_int ?n" by simp
  then have n: "sint (higher - lower + 1) = ?n" using sint_word_of_int_in_range [of ?n] assms(2,3) by simp
  have d: "0 \<le> draw ?n" "draw ?n < ?n" using assms(1) [of ?n] assms(2) by simp_all
  have "word_of_int (draw ?n) + lower = word_of_int (draw ?n + sint lower)" by simp
  moreover have "sint (word_of_int (draw ?n + sint lower) :: 64 word) = draw ?n + sint lower"
    by (rule sint_word_of_int_in_range) (use d bounds in linarith)+
  ultimately show ?thesis using d assms(2) by (simp add: RandomInt_def Let_def n)
qed

lemma RandomInt_wide_panics:
  assumes "2 ^ 63 \<le> sint higher - sint lower + 1"
  shows "\<exists>q. RandomInt draw lower higher = Panic q"
proof -
  let ?n = "sint higher - sint lower + 1"
  have "- (2 ^ 63) \<le> sint lower" "sint higher < 2 ^ 63"
    using sint_ge [of lower] sint_lt [of higher] by simp_all
  then have "?n - 2 ^ 64 \<le> 0" "- (2 ^ 63) \<le> ?n - 2 ^ 64" using assms by simp_all
  moreover have eq: "higher - lower + 1 = word_of_int (?n - 2 ^ 64)" by simp
  ultimately have "sint (higher - lower + 1) \<le> 0"
    unfolding eq by (subst sint_word_of_int_in_range) simp_all
  then show ?thesis by (simp add: RandomInt_def Let_def)
qed

end
