(* ===== verification/Spec2Isabelle.thy ===== *)
theory Spec2Isabelle
  imports
    Engines
    Publisher_Concurrency
    Channel_Subscriber
    Json_Payload
    Redis_Group
    Amqp_Publisher
    Google_Subscriber
    Amqp_Consume
    Example_Amqp
    Example_Redis
    Example_Google
    Example_Channels
    Test_Rabbit
    Metrics
    Load_Test
begin

text \<open>
  A verification development for \<open>quantumcycle/expedit\<close>, a Go library for publishing and receiving
  messages over several brokers (Go channels, Redis streams, AMQP, Google Pub/Sub).

  \<^bold>\<open>The program.\<close> A message (\<open>core/message\<close>) carries an ID, a metadata map, a payload and a context. A
  handler is a function of a message; a middleware turns a handler into another, and a chain
  (\<open>core/message/middleware\<close>) composes them. Publishing goes through a publishing engine
  (\<open>core/publisher/engine.go\<close>), whose middlewares surround a broker's publisher; every broker's
  publisher is a \<open>MessagePublisher\<close> (\<open>core/publisher/publisher.go\<close>): it routes the message to a
  destination, finds or creates the publisher of that destination, marshals and sends. Receiving goes
  through a subscription engine (\<open>core/subscriber/engine.go\<close>), whose middlewares surround a router
  (\<open>core/subscriber/router.go\<close>); a broker's subscriber hands each message to a dispatcher
  (\<open>core/subscriber/dispatcher.go\<close>), which limits the concurrency, runs the handler and acks or nacks.

  \<^bold>\<open>The theories.\<close>

  \<^item> \<open>Prelude\<close>: Go maps as association lists, the \<open>for range\<close> loop, strings with prefixes, runs of a
    step relation, lists of live goroutines, and two interfaces: \<open>invariant_system\<close> (an invariant of
    every reachable state) and \<open>keyed_store\<close> (one entry per key).
  \<^item> \<open>Go_Values\<close>, \<open>Go_Runtime\<close>: the dynamic values behind \<open>any\<close>, errors, panics, \<open>reflect.DeepEqual\<close> and
    \<open>%v\<close>; contexts with values, deadlines and cancellation, the clock, tickers, and the world that
    holds the heaps of messages and maps. What the user's code and the brokers read and write is the
    polymorphic field \<open>env\<close> of the world, so a theorem holds whatever they do there.
  \<^item> \<open>Message\<close>: \<open>message.go\<close>. Messages are addresses in a heap and metadata is a reference to a map, so
    that sharing between a message and its copy can be stated.
  \<^item> \<open>Middleware\<close>: \<open>handler.go\<close> and the middleware package; \<open>around_middleware\<close> is the interface of a
    middleware that calls the next handler once.
  \<^item> \<open>Router\<close>, \<open>Engines\<close>: the router with its builders and shared route store, and both engines.
  \<^item> \<open>Message_Publisher\<close>, \<open>Publisher_Concurrency\<close>: \<open>MessagePublisher\<close>, first as functions of its state,
    then as a step relation in which the lock sections of any number of goroutines interleave. The
    creations are counted by a record that \<open>GetDestinationPublisher\<close> itself writes with each call.
  \<^item> \<open>Dispatcher\<close>, \<open>Dispatcher_Slots\<close>: the handling of one delivery (\<open>delivery_contract\<close> is what it asks
    of a broker), and the concurrency of \<open>Dispatch\<close> and \<open>Wait\<close> as a step relation.
  \<^item> \<open>Channel_Subscriber\<close>: the channel publisher and subscriber. Its receive loop, retry channel and
    workers are a step relation, and each of its steps is simulated by \<open>Dispatcher_Slots\<close>.
  \<^item> \<open>Key_Transport\<close>: the interface between a publisher that writes metadata under rewritten keys and
    the subscriber that reads it back; Redis and AMQP provide instances.
  \<^item> \<open>Json_Payload\<close>: the JSON middlewares, over an encoding and a decoding function.
  \<^item> \<open>Publisher_Adapter\<close>: what a broker's package gives to \<open>MessagePublisher\<close>, as an interface.
  \<^item> \<open>Redis_Publisher\<close>, \<open>Redis_Subscriber\<close>, \<open>Amqp_Publisher\<close>, \<open>Google_Publisher\<close>: the brokers' packages.
  \<^item> \<open>Redis_Group\<close>: the Redis subscriber's loop in a consumer group, against what the server promises of
    XAUTOCLAIM and XREADGROUP.
  \<^item> \<open>Go_Strconv\<close>, \<open>Google_Subscriber\<close>: the parsers of \<open>strconv\<close> (\<open>ParseFloat\<close> is an argument) and the
    Google subscriber with the type conversion of attributes.
  \<^item> \<open>Amqp_Subscriber\<close>, \<open>Amqp_Reconnect\<close>, \<open>Amqp_Consume\<close>: the AMQP subscriber's options and deliveries;
    the reconnecting connection and its channels with their watcher goroutines, as a step relation
    over the network; and the receive loop with the goroutine of \<open>Consume\<close>, a step relation that runs
    over the other two and over the dispatcher's workers.
  \<^item> \<open>Metrics\<close>, \<open>Load_Test\<close>: the Prometheus middlewares and the load tests' recorder.
  \<^item> \<open>Test_Rabbit\<close>, \<open>Emulator\<close>: the helpers that make queues, exchanges, topics and subscriptions on test
    brokers (\<open>amqp/testrabbit\<close>, \<open>google/emulator\<close>), over a record of the broker's calls or
    over the admin client; the message channels of the emulator are a step relation.
  \<^item> \<open>Examples\<close>, \<open>Example_Amqp\<close>, \<open>Example_Redis\<close>, \<open>Example_Google\<close>, \<open>Example_Channels\<close>: the four example
    programs. \<open>Examples\<close> holds what they share: the collectors of \<open>examples/types.go\<close>, the circuit
    breaker, the middleware that writes an event's type, the metered engines and the router. Each
    program then has its \<open>createPublisher\<close>, \<open>createSubscriber\<close>, routes and \<open>main\<close>. Here the parts of
    the library are put together as a user does, so the theorems follow an event from \<open>Publish\<close>
    through middlewares, publisher, broker, subscriber, dispatcher, middlewares and router to its
    handler.

  \<^bold>\<open>Conventions.\<close> A function that may panic returns \<open>Ret\<close> or \<open>Panic\<close>; an \<open>error\<close> result is \<open>gerr option\<close>,
  and a pair of a value and an error is a sum whose left side is the error. State is passed
  explicitly. Maps iterate in the order of their list; results that could depend on the order are
  stated for every list. Client libraries (go-redis, amqp091, pubsub, prometheus, encoding/json) are
  arguments: records of functions, and what is assumed of them stands in the theorem that needs it.
  A Go \<open>int\<close> that is only compared or stored is an \<open>int\<close>; durations on which arithmetic could
  overflow are 64 bit words.

  \<^bold>\<open>What the lemmas show.\<close> A copy shares nothing mutable with its message but its payload. Chains run
  in the order of adding and call the handler once; throttling bounds the rate, as far as its rounded interval does; panics become
  errors. Routing delivers to the last registration. Engines freeze when they start. Publishing goes
  through its stages in order, and its failures are those of the first failing stage; closing closes
  each destination once; concurrent callers share one publisher per destination, and get
  \<open>ErrClosed\<close> after a close. A delivery is settled exactly once, within the concurrency limit, and
  waiting ends exactly when nothing is in flight. The channel subscriber neither loses nor
  duplicates messages, but can hang when its retry channel fills up (\<open>receive_can_hang\<close>).
  Metadata survives the trip through Redis, AMQP and Pub/Sub, with its types as far as the texts tell
  them apart. The Redis cursor reads a stream in order and without gaps; in a
  consumer group the loop dispatches what the server hands it and sweeps up what others left pending. Publishing to each broker
  sends exactly what the configuration says. Over AMQP messages are dispatched in the order of the
  broker and each at most once; a lost connection is repaired once only, after which the subscriber
  starves; a shutdown ends every run. An event that an example program publishes comes out at the
  handler of its type, and both sides count it; the theorems on the \<open>main\<close> functions say what is
  published, in which order, and how each error ends the program.

  \<^bold>\<open>Bounds and fuel.\<close> \<open>receive_loop\<close> of \<open>Redis_Subscriber\<close> has fuel, one unit for each turn of a loop that
  is meant to run for ever; its theorems hold for every amount, and the one on pending entries says
  how many turns it takes. The retry loops of \<open>Test_Rabbit\<close>
  recurse on the attempts left. The concurrent components are relations, so no bound on the length of
  a run is needed.

  \<^bold>\<open>Not modelled.\<close> The set-up of a process (environment variables, the signal handler behind the context
  that ends a program). A handler that never
  returns is outside the sequential model; in the step relations it is a worker that stays where it
  is. The step relations describe a run up to the first panic that leaves a goroutine, which ends the
  program; a pause in them is a step without a duration, and the reconnection model follows one
  channel of the connection. The Pub/Sub client is a function that calls the callback of \<open>Receive\<close> for
  one message after the other. In the example programs \<open>Receive\<close> of the subscriber is an argument,
  since the components' own theories have its loop, and the goroutine of the AMQP program takes any
  steps between the publishes of \<open>main\<close>, but none inside one; its panic ends the process without the
  deferred calls of \<open>main\<close>.
\<close>

section \<open>The receiving side as a whole\<close>

text \<open>
  The handler a subscription engine gives to its subscriber: the engine's middlewares around the
  router.
\<close>

definition routed_handler :: "'e middleware list \<Rightarrow> 'e rstore \<Rightarrow> 'e router \<Rightarrow> 'e handler" where
  "routed_handler ms st rt = Wrap \<lparr>middlewares = ms\<rparr> (HandlerFunc st rt)"

text \<open>C24: With \<open>ConvertPanicToError\<close> as the first middleware of the engine, handling a delivery never
  panics, whatever the other middlewares, the router and the handlers do: the delivery is acked if
  they returned nil, and nacked if they returned an error or panicked, so a message without a route
  (for which the router panics) is nacked and does not crash the program.\<close>

theorem converted_panics_never_crash:
  assumes "\<forall>c w. \<exists>r. dl_Ack delivery c w = (Ret r, w\<lparr>env := acked c (env w)\<rparr>)"
    and "\<forall>c w. \<exists>r. dl_Nack delivery c w = (Ret r, w\<lparr>env := nacked c (env w)\<rparr>)"
    and "quiet (OnAckError opts)" "quiet (OnNackError opts)"
    and "d = NewDispatcher (routed_handler (ConvertPanicToError fv # ms) st rt) opts"
    and "handle_prepare d delivery w = ((c, fin), w1)"
    and "routed_handler ms st rt (dl_Message delivery) w1 = (r, w2)"
  shows "\<exists>w'. Handle d delivery w = (Ret (), w')
     \<and> env w' = (if r = Ret None then acked c (env w2) else nacked c (env w2))"
proof -
  from assms(1,2) have "delivery_contract delivery acked nacked" by unfold_locales blast+
  note once = delivery_contract.handled_once [OF this]
  have opts: "quiet (OnAckError (d_opts d))" "quiet (OnNackError (d_opts d))"
    and handler: "d_handler d = routed_handler (ConvertPanicToError fv # ms) st rt"
    using assms(3-5) by (simp_all add: NewDispatcher_def Let_def)
  have "\<exists>err. d_handler d (dl_Message delivery) w1 = (Ret err, w2) \<and> (err = None \<longleftrightarrow> r = Ret None)"
    using assms(7)
    by (cases r; (cases "\<exists>e. r = Panic (PErr e)")?)
      (auto simp: handler routed_handler_def Wrap_foldr ConvertPanicToError_def split: pval.split)
  then obtain err where "d_handler d (dl_Message delivery) w1 = (Ret err, w2)" "err = None \<longleftrightarrow> r = Ret None"
    by blast
  with once [OF opts assms(6)] show ?thesis by fastforce
qed

text \<open>A router without routes, for the witness.\<close>

definition lost_router :: "bool list router \<times> bool list rstore" where
  "lost_router = NewRouter (\<lambda>m w. (Ret ''unknown'', w)) [] \<lparr>route_maps = [], builders = []\<rparr>"

theorem converted_panics_never_crash_witness:
  "\<exists>w'. Handle (NewDispatcher (routed_handler [ConvertPanicToError (\<lambda>v. [])] (snd lost_router) (fst lost_router))
             \<lparr>MaxInFlight = 1, ProcessingTimeout = 0, OnAckError = None, OnNackError = None\<rparr>)
           demo_delivery demo_start = (Ret (), w') \<and> env w' = [False]"
proof -
  let ?opts = "\<lparr>MaxInFlight = 1, ProcessingTimeout = 0, OnAckError = None, OnNackError = None\<rparr>"
  let ?d = "NewDispatcher (routed_handler [ConvertPanicToError (\<lambda>v. [])] (snd lost_router) (fst lost_router)) ?opts"
  have log: "\<forall>c w. \<exists>r. dl_Ack demo_delivery c w = (Ret r, w\<lparr>env := (\<lambda>c l. l @ [True]) c (env w)\<rparr>)"
    "\<forall>c w. \<exists>r. dl_Nack demo_delivery c w = (Ret r, w\<lparr>env := (\<lambda>c l. l @ [False]) c (env w)\<rparr>)"
    by (simp_all add: demo_delivery_def)
  have calm: "quiet (OnAckError ?opts)" "quiet (OnNackError ?opts)" by (simp_all add: quiet_def)
  obtain a fin w1 where prep: "handle_prepare ?d demo_delivery demo_start = ((a, fin), w1)"
    by (metis prod.exhaust)
  have lost: "routed_handler [] (snd lost_router) (fst lost_router) (dl_Message demo_delivery) w1
      = (Panic (no_route_panic ''unknown''), w1)"
    by (simp add: routed_handler_def Wrap_foldr lost_router_def NewRouter_def HandlerFunc_def andThen_def)
  have "env w1 = []"
    by (simp add: handle_prepare_frame(1) [OF prep] demo_start_def NewMessage_def new_map_def new_msg_def
        start_world_def)
  with converted_panics_never_crash [OF log calm refl prep lost] show ?thesis by simp
qed

end
